(* ===== verification/Prelude.thy ===== *)
theory Prelude
  imports Main "HOL-Library.Word"
begin

text \<open>
  Shared ground of the development.  It holds the exceptions the services
  throw (\<^verbatim>\<open>imm::io::overloaded\<close>, \<^verbatim>\<open>imm::io::stopped\<close> and the standard ones), the
  programs over an explicit state that may throw, decimal printing
  (\<^verbatim>\<open>std::to_string\<close>), and tables: lists of rows with the keyed insertions,
  updates and deletions that the SQL of the services uses.  The locale
  \<open>keyed_table\<close> is the contract of one unique key of a table; every table of
  the schema interprets it.
\<close>

named_theorems store_defs \<open>definitions of the store operations and their statements\<close>
named_theorems script_simps \<open>evaluation of transaction scripts\<close>
named_theorems prog_simps \<open>evaluation of programs over a state\<close>
named_theorems table_simps \<open>rows of a table after an update\<close>
named_theorems handler_defs \<open>definitions of the request handlers\<close>

section \<open>Exceptions and programs\<close>

datatype exn =
    Overloaded
  | Stopped
  | RuntimeError string
  | LogicError string
  | InvalidArgument string

fun what :: "exn \<Rightarrow> string" where
  "what Overloaded = ''I/O queue full''"
| "what Stopped = ''I/O service stopping''"
| "what (RuntimeError m) = m"
| "what (LogicError m) = m"
| "what (InvalidArgument m) = m"

text \<open>The status codes of gRPC that the services answer with.\<close>

datatype StatusCode = OK | UNAVAILABLE | RESOURCE_EXHAUSTED | INTERNAL | CANCELLED

type_synonym ('s, 'a) prog = "'s \<Rightarrow> (exn + 'a) \<times> 's"

definition ret :: "'a \<Rightarrow> ('s, 'a) prog" where
  "ret a s = (Inr a, s)"

definition raise :: "exn \<Rightarrow> ('s, 'a) prog" where
  "raise e s = (Inl e, s)"

definition bind :: "('s, 'a) prog \<Rightarrow> ('a \<Rightarrow> ('s, 'b) prog) \<Rightarrow> ('s, 'b) prog" where
  "bind p k s = (case p s of (Inl e, s') \<Rightarrow> (Inl e, s') | (Inr a, s') \<Rightarrow> k a s')"

definition catch :: "('s, 'a) prog \<Rightarrow> (exn \<Rightarrow> ('s, 'a) prog) \<Rightarrow> ('s, 'a) prog" where
  "catch p h s = (case p s of (Inl e, s') \<Rightarrow> h e s' | (Inr a, s') \<Rightarrow> (Inr a, s'))"

fun fold_prog :: "('a \<Rightarrow> 'b \<Rightarrow> ('s, 'b) prog) \<Rightarrow> 'a list \<Rightarrow> 'b \<Rightarrow> ('s, 'b) prog" where
  "fold_prog f [] b = ret b"
| "fold_prog f (x # xs) b = bind (f x b) (fold_prog f xs)"

lemma bind_ret [prog_simps, simp]: "bind (ret a) k = k a"
  by (rule ext) (simp add: bind_def ret_def)

lemma bind_raise [prog_simps, simp]: "bind (raise e) k = raise e"
  by (rule ext) (simp add: bind_def raise_def)

lemma catch_ret [prog_simps, simp]: "catch (ret a) h = ret a"
  by (rule ext) (simp add: catch_def ret_def)

lemma catch_raise [prog_simps, simp]: "catch (raise e) h = h e"
  by (rule ext) (simp add: catch_def raise_def)

lemma bind_assoc: "bind (bind p k) l = bind p (\<lambda>a. bind (k a) l)"
  by (rule ext) (simp add: bind_def split: prod.splits sum.splits)

lemma bind_Inr [elim!]:
  assumes "bind p k s = (Inr b, s')"
  obtains a t where "p s = (Inr a, t)" "k a t = (Inr b, s')"
  using assms by (auto simp: bind_def split: prod.splits sum.splits)

lemma fold_prog_append:
  "fold_prog f (xs @ ys) = (\<lambda>b. bind (fold_prog f xs b) (fold_prog f ys))"
proof (induction xs)
  case (Cons x xs)
  then show ?case by (intro ext) (simp add: bind_assoc)
qed simp

text \<open>
  Every run of a program, successful or not, moves the state within a relation.
  The contract \<open>step_relation\<close> carries this through the combinators; the services
  interpret it with what their calls may change.
\<close>

definition within :: "('s \<Rightarrow> 's \<Rightarrow> bool) \<Rightarrow> ('s, 'a) prog \<Rightarrow> bool" where
  "within R p = (\<forall>s r s'. p s = (r, s') \<longrightarrow> R s s')"

lemma withinD: "within R p \<Longrightarrow> p s = (r, s') \<Longrightarrow> R s s'"
  by (simp add: within_def)

lemma within_snd: "within R p \<longleftrightarrow> (\<forall>s. R s (snd (p s)))"
  unfolding within_def by (metis prod.collapse snd_conv)

locale step_relation =
  fixes R :: "'s \<Rightarrow> 's \<Rightarrow> bool"
  assumes step_refl: "R s s"
    and step_trans: "R s t \<Longrightarrow> R t u \<Longrightarrow> R s u"
begin

lemma within_ret [intro]: "within R (ret a)"
  by (simp add: within_def ret_def step_refl)

lemma within_raise [intro]: "within R (raise e)"
  by (simp add: within_def raise_def step_refl)

lemma within_bind [intro]: "within R p \<Longrightarrow> (\<And>a. within R (k a)) \<Longrightarrow> within R (bind p k)"
  unfolding within_def bind_def by (fastforce split: prod.splits sum.splits dest: step_trans)

lemma within_bind_run:
  assumes "within R p" "\<And>s a t. p s = (Inr a, t) \<Longrightarrow> within R (k a)"
  shows "within R (bind p k)"
  unfolding within_def
proof (intro allI impI)
  fix s r u assume run: "bind p k s = (r, u)"
  obtain r1 t where first: "p s = (r1, t)" by fastforce
  note R1 = withinD [OF assms(1) first]
  show "R s u"
  proof (cases r1)
    case (Inr a)
    with run first have "k a t = (r, u)" by (simp add: bind_def)
    then show ?thesis using withinD [OF assms(2)] first Inr R1 step_trans by blast
  qed (use run first R1 in \<open>simp add: bind_def\<close>)
qed

lemma within_catch [intro]: "within R p \<Longrightarrow> (\<And>e. within R (h e)) \<Longrightarrow> within R (catch p h)"
  unfolding within_def catch_def by (fastforce split: prod.splits sum.splits dest: step_trans)

lemma within_if [intro]: "(b \<Longrightarrow> within R p) \<Longrightarrow> (\<not> b \<Longrightarrow> within R q) \<Longrightarrow> within R (if b then p else q)"
  by simp

lemma within_fold [intro]: "(\<And>x b. within R (f x b)) \<Longrightarrow> within R (fold_prog f xs b)"
  by (induction xs arbitrary: b) auto

lemmas within_intros = within_ret within_raise within_bind within_catch within_if within_fold

end

section \<open>Decimal numerals\<close>

definition digit_char :: "nat \<Rightarrow> char" where
  "digit_char n = char_of (48 + n mod 10)"

function nat_digits :: "nat \<Rightarrow> string" where
  "nat_digits n = (if n < 10 then [digit_char n] else nat_digits (n div 10) @ [digit_char n])"
  by pat_completeness auto
termination by (relation "measure id") auto

declare nat_digits.simps [simp del]

definition to_string :: "int \<Rightarrow> string" where
  "to_string i = (if i < 0 then CHR ''-'' # nat_digits (nat (- i)) else nat_digits (nat i))"

lemma digit_char_inj:
  assumes "digit_char m = digit_char n"
  shows "m mod 10 = n mod 10"
proof -
  have "(of_char (digit_char k) :: nat) = 48 + k mod 10" for k
    by (simp add: digit_char_def)
  with assms show ?thesis by (metis add_left_cancel)
qed

lemma digit_char_not_minus: "digit_char n \<noteq> CHR ''-''"
proof
  assume "digit_char n = CHR ''-''"
  then have "(of_char (digit_char n) :: nat) = of_char (CHR ''-'')" by simp
  then show False by (simp add: digit_char_def)
qed

lemma digit_char_not_colon: "digit_char n \<noteq> CHR '':''"
proof
  assume "digit_char n = CHR '':''"
  then have "(of_char (digit_char n) :: nat) = of_char (CHR '':'')" by simp
  then have "48 + n mod 10 = 58" by (simp add: digit_char_def)
  then show False by arith
qed

lemma nat_digits_nonempty [simp]: "nat_digits n \<noteq> []"
  by (subst nat_digits.simps) simp

lemma nat_digits_set: "c \<in> set (nat_digits n) \<Longrightarrow> \<exists>k. c = digit_char k"
proof (induction n rule: nat_digits.induct)
  case (1 n)
  then show ?case by (subst (asm) (2) nat_digits.simps) (auto split: if_splits)
qed

lemma nat_digits_small: "n < 10 \<Longrightarrow> nat_digits n = [digit_char n]"
  by (subst nat_digits.simps) simp

lemma nat_digits_large: "\<not> n < 10 \<Longrightarrow> nat_digits n = nat_digits (n div 10) @ [digit_char n]"
  by (subst nat_digits.simps) simp

lemma nat_digits_inj: "nat_digits m = nat_digits n \<Longrightarrow> m = n"
proof (induction m arbitrary: n rule: nat_digits.induct)
  case (1 m)
  show ?case
  proof (cases "m < 10"; cases "n < 10")
    assume small: "m < 10" "n < 10"
    with "1.prems" have "digit_char m = digit_char n" by (simp add: nat_digits_small)
    then have "m mod 10 = n mod 10" by (rule digit_char_inj)
    with small show ?thesis by simp
  next
    assume "m < 10" "\<not> n < 10"
    with "1.prems" [symmetric] show ?thesis by (simp add: nat_digits_small nat_digits_large)
  next
    assume "\<not> m < 10" "n < 10"
    with "1.prems" show ?thesis by (simp add: nat_digits_small nat_digits_large)
  next
    assume large: "\<not> m < 10" "\<not> n < 10"
    with "1.prems" have "nat_digits (m div 10) = nat_digits (n div 10)"
      and "digit_char m = digit_char n"
      by (simp_all add: nat_digits_large)
    with "1.IH" [OF large(1)] digit_char_inj have "m div 10 = n div 10" "m mod 10 = n mod 10"
      by blast+
    then show ?thesis by (metis div_mult_mod_eq)
  qed
qed

lemma to_string_inj [simp]: "to_string i = to_string j \<longleftrightarrow> i = j"
proof
  assume eq: "to_string i = to_string j"
  have no_minus: "nat_digits n \<noteq> CHR ''-'' # s" for n s
    using nat_digits_set [of "CHR ''-''" n] digit_char_not_minus
    by (metis list.set_intros(1))
  show "i = j"
  proof (cases "i < 0"; cases "j < 0")
    assume "i < 0" "j < 0"
    with eq have "nat (- i) = nat (- j)" by (auto simp: to_string_def intro: nat_digits_inj)
    with \<open>i < 0\<close> \<open>j < 0\<close> show ?thesis by simp
  next
    assume "i < 0" "\<not> j < 0"
    with eq show ?thesis by (simp add: to_string_def no_minus [symmetric])
  next
    assume "\<not> i < 0" "j < 0"
    with eq show ?thesis by (simp add: to_string_def no_minus)
  next
    assume "\<not> i < 0" "\<not> j < 0"
    with eq have "nat i = nat j" by (auto simp: to_string_def intro: nat_digits_inj)
    with \<open>\<not> i < 0\<close> \<open>\<not> j < 0\<close> show ?thesis by simp
  qed
qed simp

lemma to_string_no_colon: "CHR '':'' \<notin> set (to_string i)"
proof -
  have "CHR '':'' \<notin> set (nat_digits n)" for n
    using nat_digits_set [of "CHR '':''" n] digit_char_not_colon by metis
  then show ?thesis by (simp add: to_string_def)
qed

section \<open>Tables\<close>

definition first_row :: "'r list \<Rightarrow> 'r option" where
  "first_row rs = (case rs of [] \<Rightarrow> None | r # _ \<Rightarrow> Some r)"

definition update_where :: "('r \<Rightarrow> bool) \<Rightarrow> ('r \<Rightarrow> 'r) \<Rightarrow> 'r list \<Rightarrow> 'r list" where
  "update_where P f rs = map (\<lambda>r. if P r then f r else r) rs"

definition delete_where :: "('r \<Rightarrow> bool) \<Rightarrow> 'r list \<Rightarrow> 'r list" where
  "delete_where P rs = filter (\<lambda>r. \<not> P r) rs"

definition duplicate_entry :: string where
  "duplicate_entry = ''Duplicate entry''"

definition out_of_range :: string where
  "out_of_range = ''Out of range value''"

definition insert_row :: "('r \<Rightarrow> 'r \<Rightarrow> bool) \<Rightarrow> 'r \<Rightarrow> 'r list \<Rightarrow> string + 'r list" where
  "insert_row clash r rs = (if list_ex (clash r) rs then Inl duplicate_entry else Inr (rs @ [r]))"

definition insert_ignore :: "('r \<Rightarrow> 'r \<Rightarrow> bool) \<Rightarrow> 'r \<Rightarrow> 'r list \<Rightarrow> 'r list" where
  "insert_ignore clash r rs = (if list_ex (clash r) rs then rs else rs @ [r])"

definition upsert_row :: "('r \<Rightarrow> 'r \<Rightarrow> bool) \<Rightarrow> ('r \<Rightarrow> 'r) \<Rightarrow> 'r \<Rightarrow> 'r list \<Rightarrow> 'r list" where
  "upsert_row clash upd r rs =
     (if list_ex (clash r) rs then map (\<lambda>x. if clash r x then upd x else x) rs else rs @ [r])"

text \<open>ORDER BY with an order given as a predicate: a stable insertion sort.\<close>

fun insert_by :: "('r \<Rightarrow> 'r \<Rightarrow> bool) \<Rightarrow> 'r \<Rightarrow> 'r list \<Rightarrow> 'r list" where
  "insert_by le x [] = [x]"
| "insert_by le x (y # ys) = (if le x y then x # y # ys else y # insert_by le x ys)"

definition sort_by :: "('r \<Rightarrow> 'r \<Rightarrow> bool) \<Rightarrow> 'r list \<Rightarrow> 'r list" where
  "sort_by le rs = foldr (insert_by le) rs []"

definition unique_key :: "('r \<Rightarrow> 'k) \<Rightarrow> 'r list \<Rightarrow> bool" where
  "unique_key key rs = distinct (map key rs)"

lemma first_row_None [simp]: "first_row rs = None \<longleftrightarrow> rs = []"
  by (simp add: first_row_def split: list.splits)

lemma first_row_SomeD: "first_row rs = Some r \<Longrightarrow> r \<in> set rs"
  by (auto simp: first_row_def split: list.splits)

lemma first_row_Nil [simp]: "first_row [] = None"
  by (simp add: first_row_def)

lemma first_row_Cons [simp]: "first_row (r # rs) = Some r"
  by (simp add: first_row_def)

lemma set_insert_by [simp]: "set (insert_by le x ys) = insert x (set ys)"
  by (induction ys) auto

lemma length_insert_by [simp]: "length (insert_by le x ys) = Suc (length ys)"
  by (induction ys) auto

lemma set_sort_by [simp]: "set (sort_by le rs) = set rs"
  by (induction rs) (simp_all add: sort_by_def)

lemma length_sort_by [simp]: "length (sort_by le rs) = length rs"
  by (induction rs) (simp_all add: sort_by_def)

lemma in_update_where [table_simps]:
  "r \<in> set (update_where P f rs) \<longleftrightarrow> (\<exists>x \<in> set rs. r = (if P x then f x else x))"
  by (auto simp: update_where_def)

lemma in_delete_where [table_simps]: "r \<in> set (delete_where P rs) \<longleftrightarrow> r \<in> set rs \<and> \<not> P r"
  by (auto simp: delete_where_def)

lemma map_update_where:
  "(\<And>r. P r \<Longrightarrow> g (f r) = g r) \<Longrightarrow> map g (update_where P f rs) = map g rs"
  by (induction rs) (auto simp: update_where_def)

lemma filter_update_where:
  "(\<And>r. P r \<Longrightarrow> Q (f r) = Q r) \<Longrightarrow>
     filter Q (update_where P f rs) = update_where P f (filter Q rs)"
  by (induction rs) (auto simp: update_where_def)

lemma update_where_id: "(\<And>r. r \<in> set rs \<Longrightarrow> \<not> P r) \<Longrightarrow> update_where P f rs = rs"
  by (induction rs) (auto simp: update_where_def)

lemma insert_row_Inr [table_simps]:
  "insert_row clash r rs = Inr rs' \<longleftrightarrow> (\<forall>x \<in> set rs. \<not> clash r x) \<and> rs' = rs @ [r]"
  by (auto simp: insert_row_def list_ex_iff)

lemma insert_row_Inl [table_simps]:
  "insert_row clash r rs = Inl m \<longleftrightarrow> (\<exists>x \<in> set rs. clash r x) \<and> m = duplicate_entry"
  by (auto simp: insert_row_def list_ex_iff)

lemma unique_key_Nil [simp]: "unique_key key []"
  by (simp add: unique_key_def)

lemma unique_keyD:
  "unique_key key rs \<Longrightarrow> r \<in> set rs \<Longrightarrow> s \<in> set rs \<Longrightarrow> key r = key s \<Longrightarrow> r = s"
  by (auto simp: unique_key_def distinct_map dest: inj_onD)

lemma unique_key_append:
  "unique_key key (rs @ [r]) \<longleftrightarrow> unique_key key rs \<and> (\<forall>x \<in> set rs. key x \<noteq> key r)"
  by (auto simp: unique_key_def image_iff)

lemma unique_key_filter: "unique_key key rs \<Longrightarrow> unique_key key (filter P rs)"
  by (simp add: unique_key_def distinct_map_filter)

text \<open>One unique key of a table and the collision test its insertions use.\<close>

locale keyed_table =
  fixes key :: "'r \<Rightarrow> 'k"
    and clash :: "'r \<Rightarrow> 'r \<Rightarrow> bool"
  assumes clash_key: "key r = key x \<Longrightarrow> clash r x"
begin

lemma insert_row_unique:
  "unique_key key rs \<Longrightarrow> insert_row clash r rs = Inr rs' \<Longrightarrow> unique_key key rs'"
  using clash_key by (fastforce simp: insert_row_Inr unique_key_append)

lemma insert_ignore_unique:
  "unique_key key rs \<Longrightarrow> unique_key key (insert_ignore clash r rs)"
  using clash_key by (fastforce simp: insert_ignore_def list_ex_iff unique_key_append)

lemma upsert_row_unique:
  assumes "unique_key key rs" and "\<And>x. key (upd x) = key x"
  shows "unique_key key (upsert_row clash upd r rs)"
proof (cases "list_ex (clash r) rs")
  case True
  have "upsert_row clash upd r rs = update_where (clash r) upd rs"
    using True by (simp add: upsert_row_def update_where_def)
  with assms show ?thesis by (simp add: unique_key_def map_update_where)
next
  case False
  with assms(1) show ?thesis using clash_key
    by (fastforce simp: upsert_row_def list_ex_iff unique_key_append)
qed

lemma update_where_unique:
  "unique_key key rs \<Longrightarrow> (\<And>x. P x \<Longrightarrow> key (f x) = key x) \<Longrightarrow> unique_key key (update_where P f rs)"
  by (simp add: unique_key_def map_update_where)

lemma delete_where_unique: "unique_key key rs \<Longrightarrow> unique_key key (delete_where P rs)"
  unfolding delete_where_def by (rule unique_key_filter)

lemmas table_unique =
  insert_row_unique insert_ignore_unique upsert_row_unique update_where_unique delete_where_unique

end

end
