(* ===== verification/Io_Queue.thy ===== *)
theory Io_Queue
  imports Prelude "HOL-Library.Multiset"
begin

text \<open>
  The bounded operation queue every service puts in front of its driver
  (\<^verbatim>\<open>common/include/IoQueue.h\<close>) and the request and write budgets
  (\<^verbatim>\<open>message/io/budget.hh\<close>, \<^verbatim>\<open>gateway/io/budget.hh\<close>).  A consumer coroutine is at the
  head of its loop, waiting on \<^verbatim>\<open>_ready\<close>, executing a job, or finished; the reactor
  interleaves them, which \<open>queue_step\<close> describes.  The invariant of the reachable
  states gives the byte accounting, first-in-first-out execution, one completion
  per admitted operation, and that a notification is never lost.
\<close>

section \<open>Budgets\<close>

record budget =
  b_count :: int
  b_bytes :: int

record capacity_units =
  u_count :: int
  u_bytes :: int

text \<open>The units taken by the first \<^verbatim>\<open>try_get_units\<close> are returned when the second fails.\<close>

definition acquire :: "int \<Rightarrow> budget \<Rightarrow> (exn + capacity_units) \<times> budget" where
  "acquire bytes b =
     (if b_count b < 1 \<or> b_bytes b < bytes then (Inl Overloaded, b)
      else (Inr \<lparr>u_count = 1, u_bytes = bytes\<rparr>, b\<lparr>b_count := b_count b - 1, b_bytes := b_bytes b - bytes\<rparr>))"

definition resize :: "capacity_units \<Rightarrow> int \<Rightarrow> budget \<Rightarrow> (exn + capacity_units) \<times> budget" where
  "resize units bytes b =
     (let old = u_bytes units in
      if bytes > old then
        (if b_bytes b < bytes - old then (Inl Overloaded, b)
         else (Inr (units\<lparr>u_bytes := bytes\<rparr>), b\<lparr>b_bytes := b_bytes b - (bytes - old)\<rparr>))
      else (Inr (units\<lparr>u_bytes := bytes\<rparr>), b\<lparr>b_bytes := b_bytes b + (old - bytes)\<rparr>))"

definition release :: "capacity_units \<Rightarrow> budget \<Rightarrow> budget" where
  "release units b = b\<lparr>b_count := b_count b + u_count units, b_bytes := b_bytes b + u_bytes units\<rparr>"

section \<open>The queue\<close>

record queue_limits =
  l_pending :: nat
  l_bytes :: nat
  l_concurrency :: nat

record 'op job =
  j_operation :: 'op
  j_completion :: nat
  j_bytes :: int

datatype 'op consumer = At_head | Waiting | Executing "'op job" | Exited

record ('op, 'r) operation_queue =
  q_limits :: queue_limits
  q_accepting :: bool
  q_bytes :: int
  q_pending :: "'op job list"
  q_signalled :: bool
  q_consumers :: "'op consumer list"
  q_results :: "(nat \<times> (exn + 'r)) list"
  q_started :: "nat list"
  q_next :: nat

definition new_queue :: "queue_limits \<Rightarrow> exn + ('op, 'r) operation_queue" where
  "new_queue limits =
     (if l_pending limits = 0 \<or> l_bytes limits = 0 \<or> l_concurrency limits = 0
      then Inl (InvalidArgument ''I/O queue limits must be positive'')
      else Inr \<lparr>q_limits = limits, q_accepting = False, q_bytes = int (l_bytes limits), q_pending = [],
                q_signalled = False, q_consumers = [], q_results = [], q_started = [], q_next = 0\<rparr>)"

definition queue_start :: "(('op, 'r) operation_queue, unit) prog" where
  "queue_start q =
     (if q_accepting q \<or> q_consumers q \<noteq> [] then (Inl (LogicError ''I/O queue already started''), q)
      else (Inr (), q\<lparr>q_accepting := True,
                      q_consumers := replicate (l_concurrency (q_limits q)) At_head\<rparr>))"

text \<open>\<^verbatim>\<open>condition_variable\<close>: wake the first waiter, or remember the signal.\<close>

fun wake_first :: "'op consumer list \<Rightarrow> 'op consumer list option" where
  "wake_first [] = None"
| "wake_first (Waiting # cs) = Some (At_head # cs)"
| "wake_first (c # cs) = map_option ((#) c) (wake_first cs)"

definition signal :: "('op, 'r) operation_queue \<Rightarrow> ('op, 'r) operation_queue" where
  "signal q = (case wake_first (q_consumers q) of
                 Some cs \<Rightarrow> q\<lparr>q_consumers := cs\<rparr>
               | None \<Rightarrow> q\<lparr>q_signalled := True\<rparr>)"

definition wake :: "'op consumer \<Rightarrow> 'op consumer" where
  "wake c = (case c of Waiting \<Rightarrow> At_head | _ \<Rightarrow> c)"

definition broadcast :: "('op, 'r) operation_queue \<Rightarrow> ('op, 'r) operation_queue" where
  "broadcast q = q\<lparr>q_consumers := map wake (q_consumers q)\<rparr>"

text \<open>
  \<^verbatim>\<open>submit\<close> returns the completion of the admitted job; \<open>bytes_of\<close> stands for
  \<^verbatim>\<open>sizeof(entry) + operation.byte_size()\<close>.
\<close>

definition queue_submit :: "('op \<Rightarrow> int) \<Rightarrow> 'op \<Rightarrow> (('op, 'r) operation_queue, nat) prog" where
  "queue_submit bytes_of operation q =
     (if \<not> q_accepting q then (Inl Stopped, q)
      else if length (q_pending q) \<ge> l_pending (q_limits q) \<or> q_bytes q < bytes_of operation
      then (Inl Overloaded, q)
      else (Inr (q_next q),
            signal (q\<lparr>q_bytes := q_bytes q - bytes_of operation,
                      q_pending := q_pending q @
                        [\<lparr>j_operation = operation, j_completion = q_next q, j_bytes = bytes_of operation\<rparr>],
                      q_next := Suc (q_next q)\<rparr>)))"

text \<open>One turn of \<^verbatim>\<open>consume\<close> from the head of its loop to the next suspension.\<close>

definition consume_head :: "nat \<Rightarrow> ('op, 'r) operation_queue \<Rightarrow> ('op, 'r) operation_queue" where
  "consume_head i q =
     (if \<not> q_accepting q then q\<lparr>q_consumers := (q_consumers q)[i := Exited]\<rparr>
      else case q_pending q of
        [] \<Rightarrow> (if q_signalled q then q\<lparr>q_signalled := False\<rparr>
               else q\<lparr>q_consumers := (q_consumers q)[i := Waiting]\<rparr>)
      | j # js \<Rightarrow>
          q\<lparr>q_pending := js, q_bytes := q_bytes q + j_bytes j, q_started := q_started q @ [j_completion j],
            q_consumers := (q_consumers q)[i := Executing j]\<rparr>)"

text \<open>\<^verbatim>\<open>execute\<close> delivers the value or the exception of the backend.\<close>

definition consume_done ::
  "nat \<Rightarrow> 'op job \<Rightarrow> exn + 'r \<Rightarrow> ('op, 'r) operation_queue \<Rightarrow> ('op, 'r) operation_queue" where
  "consume_done i j r q =
     q\<lparr>q_results := q_results q @ [(j_completion j, r)], q_consumers := (q_consumers q)[i := At_head]\<rparr>"

definition queue_begin_stop :: "('op, 'r) operation_queue \<Rightarrow> ('op, 'r) operation_queue" where
  "queue_begin_stop q =
     broadcast (q\<lparr>q_accepting := False, q_pending := [],
                  q_bytes := q_bytes q + sum_list (map j_bytes (q_pending q)),
                  q_results := q_results q @ map (\<lambda>j. (j_completion j, Inl Stopped)) (q_pending q)\<rparr>)"

text \<open>\<^verbatim>\<open>stop\<close> returns when every consumer has left its loop.\<close>

definition queue_stopped :: "('op, 'r) operation_queue \<Rightarrow> bool" where
  "queue_stopped q = (\<not> q_accepting q \<and> list_all (\<lambda>c. c = Exited) (q_consumers q))"

section \<open>Interleavings\<close>

inductive consumer_step :: "('op, 'r) operation_queue \<Rightarrow> ('op, 'r) operation_queue \<Rightarrow> bool" where
  head: "i < length (q_consumers q) \<Longrightarrow> q_consumers q ! i = At_head \<Longrightarrow> consumer_step q (consume_head i q)"
| finished: "i < length (q_consumers q) \<Longrightarrow> q_consumers q ! i = Executing j \<Longrightarrow>
    consumer_step q (consume_done i j r q)"

inductive queue_step ::
  "('op \<Rightarrow> int) \<Rightarrow> ('op, 'r) operation_queue \<Rightarrow> ('op, 'r) operation_queue \<Rightarrow> bool" for bytes_of where
  submit: "queue_submit bytes_of operation q = (r, q') \<Longrightarrow> queue_step bytes_of q q'"
| consumer: "consumer_step q q' \<Longrightarrow> queue_step bytes_of q q'"
| stopping: "queue_step bytes_of q (queue_begin_stop q)"

inductive queue_reachable ::
  "('op \<Rightarrow> int) \<Rightarrow> queue_limits \<Rightarrow> ('op, 'r) operation_queue \<Rightarrow> bool" for bytes_of limits where
  started: "new_queue limits = Inr q \<Longrightarrow> queue_start q = (Inr (), q') \<Longrightarrow> queue_reachable bytes_of limits q'"
| step: "queue_reachable bytes_of limits q \<Longrightarrow> queue_step bytes_of q q' \<Longrightarrow> queue_reachable bytes_of limits q'"

section \<open>Invariant\<close>

definition executing :: "'op consumer \<Rightarrow> 'op job list" where
  "executing c = (case c of Executing j \<Rightarrow> [j] | _ \<Rightarrow> [])"

definition in_flight :: "('op, 'r) operation_queue \<Rightarrow> 'op job list" where
  "in_flight q = concat (map executing (q_consumers q))"

definition active :: "'op consumer \<Rightarrow> bool" where
  "active c = (case c of At_head \<Rightarrow> True | Executing _ \<Rightarrow> True | _ \<Rightarrow> False)"

definition queue_capacity :: "queue_limits \<Rightarrow> ('op, 'r) operation_queue \<Rightarrow> bool" where
  "queue_capacity limits q =
     (q_limits q = limits \<and> q_bytes q + sum_list (map j_bytes (q_pending q)) = int (l_bytes limits) \<and>
      0 \<le> q_bytes q \<and> length (q_pending q) \<le> l_pending limits \<and>
      length (q_consumers q) = l_concurrency limits)"

definition queue_tickets :: "('op, 'r) operation_queue \<Rightarrow> nat multiset" where
  "queue_tickets q =
     mset (map j_completion (q_pending q)) + mset (map j_completion (in_flight q)) + mset (map fst (q_results q))"

definition queue_order :: "('op, 'r) operation_queue \<Rightarrow> bool" where
  "queue_order q =
     (queue_tickets q = mset [0..<q_next q] \<and>
      sorted_wrt (<) (q_started q @ map j_completion (q_pending q)) \<and>
      set (map j_completion (in_flight q)) \<subseteq> set (q_started q) \<and>
      (\<forall>n r. (n, r) \<in> set (q_results q) \<longrightarrow> n \<in> set (q_started q) \<or> r = Inl Stopped) \<and>
      (\<forall>n \<in> set (q_started q). n < q_next q))"

definition queue_awake :: "('op, 'r) operation_queue \<Rightarrow> bool" where
  "queue_awake q =
     ((q_accepting q \<longrightarrow> Exited \<notin> set (q_consumers q) \<and>
         (q_pending q \<noteq> [] \<longrightarrow> (\<exists>c \<in> set (q_consumers q). active c))) \<and>
      (\<not> q_accepting q \<longrightarrow> Waiting \<notin> set (q_consumers q) \<and> q_pending q = []))"

lemma executing_simps [simp]:
  "executing At_head = []" "executing Waiting = []" "executing Exited = []" "executing (Executing j) = [j]"
  by (simp_all add: executing_def)

lemma active_simps [simp]: "active At_head" "active (Executing j)" "\<not> active Waiting" "\<not> active Exited"
  by (simp_all add: active_def)

lemma wake_simps [simp]: "executing (wake c) = executing c" "wake c \<noteq> Waiting"
  by (cases c; simp add: wake_def)+

lemma wake_first_Some:
  assumes "wake_first cs = Some cs'"
  shows "length cs' = length cs \<and> map executing cs' = map executing cs \<and> At_head \<in> set cs' \<and>
    set cs' \<subseteq> insert At_head (set cs)"
  using assms by (induction cs arbitrary: cs' rule: wake_first.induct) fastforce+

lemma wake_first_None: "wake_first cs = None \<longleftrightarrow> Waiting \<notin> set cs"
  by (induction cs rule: wake_first.induct) auto

lemma concat_update:
  "i < length xs \<Longrightarrow> mset (concat (map f (xs[i := x]))) + mset (f (xs ! i)) = mset (concat (map f xs)) + mset (f x)"
proof (induction xs arbitrary: i)
  case (Cons y xs)
  then show ?case by (cases i) (auto simp: ac_simps)
qed simp

lemma in_flight_update:
  assumes "i < length (q_consumers q)"
  shows "mset (concat (map executing ((q_consumers q)[i := c]))) + mset (executing (q_consumers q ! i)) =
    mset (in_flight q) + mset (executing c)"
  using concat_update [OF assms, of executing c] by (simp add: in_flight_def)

lemma in_flight_fields [simp]:
  "in_flight (q\<lparr>q_bytes := b\<rparr>) = in_flight q" "in_flight (q\<lparr>q_pending := p\<rparr>) = in_flight q"
  "in_flight (q\<lparr>q_next := n\<rparr>) = in_flight q" "in_flight (q\<lparr>q_signalled := v\<rparr>) = in_flight q"
  by (simp_all add: in_flight_def)

lemma signal_fields [simp]:
  "q_limits (signal q) = q_limits q" "q_accepting (signal q) = q_accepting q" "q_bytes (signal q) = q_bytes q"
  "q_pending (signal q) = q_pending q" "q_results (signal q) = q_results q" "q_started (signal q) = q_started q"
  "q_next (signal q) = q_next q" "length (q_consumers (signal q)) = length (q_consumers q)"
  "in_flight (signal q) = in_flight q"
  by (auto simp: signal_def in_flight_def split: option.splits dest!: wake_first_Some)

lemma queue_capacity_step:
  assumes "queue_step bytes_of q q'" "queue_capacity limits q" "\<And>op. 0 \<le> bytes_of op" "\<forall>j \<in> set (q_pending q). 0 \<le> j_bytes j"
  shows "queue_capacity limits q' \<and> (\<forall>j \<in> set (q_pending q'). 0 \<le> j_bytes j)"
  using assms(1)
proof cases
  case (submit operation r)
  with assms show ?thesis
    by (auto simp: queue_submit_def queue_capacity_def split: if_splits)
next
  case consumer
  then show ?thesis using assms(2,4)
  proof cases
    case (head i)
    with assms(2,4) show ?thesis
      by (auto simp: consume_head_def queue_capacity_def split: if_splits list.splits)
  next
    case (finished i j r)
    with assms(2,4) show ?thesis by (simp add: consume_done_def queue_capacity_def)
  qed
next
  case stopping
  have "0 \<le> sum_list (map j_bytes (q_pending q))" using assms(4) by (intro sum_list_nonneg) auto
  with assms(2) stopping show ?thesis
    by (simp add: queue_begin_stop_def queue_capacity_def broadcast_def)
qed

lemma in_flight_subset:
  "i < length (q_consumers q) \<Longrightarrow>
   set (concat (map executing ((q_consumers q)[i := c]))) \<subseteq> set (in_flight q) \<union> set (executing c)"
  by (auto simp: in_flight_def dest!: subsetD [OF set_update_subset_insert])

lemma queue_order_frame:
  assumes "queue_order q" "mset (in_flight q') = mset (in_flight q)" "q_pending q' = q_pending q"
    "q_results q' = q_results q" "q_started q' = q_started q" "q_next q' = q_next q"
  shows "queue_order q'"
proof -
  have "set (in_flight q') = set (in_flight q)" using assms(2) by (rule mset_eq_setD)
  with assms show ?thesis by (simp add: queue_order_def queue_tickets_def)
qed

lemma in_flight_idle:
  assumes "i < length (q_consumers q)" "q_consumers q ! i = At_head" "executing c = []"
  shows "mset (in_flight (q\<lparr>q_consumers := (q_consumers q)[i := c]\<rparr>)) = mset (in_flight q)"
  using in_flight_update [OF assms(1), of c] assms(2,3) by (simp add: in_flight_def)

lemma queue_order_head:
  assumes "i < length (q_consumers q)" "q_consumers q ! i = At_head" "queue_order q"
  shows "queue_order (consume_head i q)"
proof (cases "q_accepting q")
  case False
  with in_flight_idle [OF assms(1,2), of Exited] show ?thesis
    by (intro queue_order_frame [OF assms(3)]) (simp_all add: consume_head_def)
next
  case accepting: True
  show ?thesis
  proof (cases "q_pending q")
    case Nil
    with accepting in_flight_idle [OF assms(1,2), of Waiting] show ?thesis
      by (intro queue_order_frame [OF assms(3)]) (simp_all add: consume_head_def)
  next
    case (Cons j js)
    have flight: "mset (concat (map executing ((q_consumers q)[i := Executing j]))) = mset (in_flight q) + {#j#}"
      using in_flight_update [OF assms(1), of "Executing j"] assms(2) by simp
    have sub: "set (concat (map executing ((q_consumers q)[i := Executing j]))) \<subseteq> insert j (set (in_flight q))"
      using in_flight_subset [OF assms(1), of "Executing j"] by auto
    have "j_completion j \<in># mset [0..<q_next q]"
      using assms(3) Cons unfolding queue_order_def queue_tickets_def by (metis list.set_intros(1) list.simps(9) set_mset_mset union_iff)
    then have "j_completion j < q_next q" by simp
    moreover have "queue_tickets (consume_head i q) = queue_tickets q"
      using flight accepting Cons by (simp add: consume_head_def queue_tickets_def in_flight_def mset_map)
    moreover have "set (map j_completion (in_flight (consume_head i q))) \<subseteq> insert (j_completion j) (set (q_started q))"
      using sub accepting Cons assms(3) by (auto simp: consume_head_def in_flight_def queue_order_def)
    ultimately show ?thesis using assms(3) accepting Cons
      by (auto simp: queue_order_def consume_head_def)
  qed
qed

lemma queue_order_done:
  assumes "i < length (q_consumers q)" "q_consumers q ! i = Executing j" "queue_order q"
  shows "queue_order (consume_done i j r q)"
proof -
  have flight: "mset (concat (map executing ((q_consumers q)[i := At_head]))) + {#j#} = mset (in_flight q)"
    using in_flight_update [OF assms(1), of At_head] assms(2) by simp
  have sub: "set (concat (map executing ((q_consumers q)[i := At_head]))) \<subseteq> set (in_flight q)"
    using in_flight_subset [OF assms(1), of At_head] by simp
  have "j \<in> set (in_flight q)" using flight by (metis add_mset_add_single set_mset_mset union_single_eq_member)
  then have "j_completion j \<in> set (q_started q)" using assms(3) by (auto simp: queue_order_def)
  moreover have "queue_tickets (consume_done i j r q) = queue_tickets q"
    using flight [symmetric] by (simp add: consume_done_def queue_tickets_def in_flight_def mset_map)
  moreover have "set (map j_completion (in_flight (consume_done i j r q))) \<subseteq> set (q_started q)"
    using sub assms(3) by (auto simp: consume_done_def in_flight_def queue_order_def)
  ultimately show ?thesis using assms(3) by (auto simp: queue_order_def consume_done_def)
qed

lemma queue_order_submit:
  assumes "queue_submit bytes_of operation q = (r, q')" "queue_order q"
  shows "queue_order q'"
proof -
  have "x < q_next q" if "x \<in> set (map j_completion (q_pending q))" for x
  proof -
    from that assms(2) have "x \<in># mset [0..<q_next q]" unfolding queue_order_def queue_tickets_def
      by (metis set_mset_mset union_iff)
    then show ?thesis by simp
  qed
  then have sorted: "sorted_wrt (<) (q_started q @ map j_completion (q_pending q) @ [q_next q])"
    using assms(2) by (simp add: queue_order_def sorted_wrt_append)
  have tickets: "add_mset (q_next q) (queue_tickets q) = mset [0..<Suc (q_next q)]"
    using assms(2) by (simp add: queue_order_def del: mset_upt)
  let ?q0 = "q\<lparr>q_bytes := q_bytes q - bytes_of operation,
               q_pending := q_pending q @
                 [\<lparr>j_operation = operation, j_completion = q_next q, j_bytes = bytes_of operation\<rparr>],
               q_next := Suc (q_next q)\<rparr>"
  have "queue_order (signal ?q0)" using assms(2) sorted tickets
    by (simp add: queue_order_def queue_tickets_def less_SucI del: mset_upt upt_Suc)
  moreover have "q' = q \<or> q' = signal ?q0" using assms(1) by (auto simp: queue_submit_def split: if_splits)
  ultimately show ?thesis using assms(2) by blast
qed

lemma queue_order_stop:
  assumes "queue_order q"
  shows "queue_order (queue_begin_stop q)"
proof -
  have "in_flight (queue_begin_stop q) = in_flight q"
    by (simp add: queue_begin_stop_def broadcast_def in_flight_def comp_def)
  with assms show ?thesis
    by (auto simp: queue_begin_stop_def broadcast_def queue_order_def queue_tickets_def sorted_wrt_append comp_def
        ac_simps)
qed

lemma queue_order_step: "queue_step bytes_of q q' \<Longrightarrow> queue_order q \<Longrightarrow> queue_order q'"
  by (auto elim!: queue_step.cases consumer_step.cases
      intro: queue_order_submit queue_order_head queue_order_done queue_order_stop)

lemma signal_awake:
  assumes "q_consumers q \<noteq> []" "Exited \<notin> set (q_consumers q)"
  shows "q_consumers (signal q) \<noteq> []" "Exited \<notin> set (q_consumers (signal q))"
    "\<exists>c \<in> set (q_consumers (signal q)). active c"
proof -
  show "q_consumers (signal q) \<noteq> []" using assms(1) signal_fields(8) [of q] by (metis length_0_conv)
  show "Exited \<notin> set (q_consumers (signal q))"
    using assms(2) by (auto simp: signal_def split: option.splits dest!: wake_first_Some)
  show "\<exists>c \<in> set (q_consumers (signal q)). active c"
  proof (cases "wake_first (q_consumers q)")
    case None
    then have "Waiting \<notin> set (q_consumers q)" by (simp add: wake_first_None)
    with assms hd_in_set [OF assms(1)] have "active (hd (q_consumers q))"
      by (cases "hd (q_consumers q)") auto
    with None hd_in_set [OF assms(1)] show ?thesis by (auto simp: signal_def)
  next
    case (Some cs)
    with wake_first_Some [OF Some] show ?thesis by (auto simp: signal_def intro: bexI [of _ At_head])
  qed
qed

lemma queue_awake_step:
  assumes "queue_step bytes_of q q'" "queue_awake q" "q_consumers q \<noteq> []"
  shows "queue_awake q' \<and> q_consumers q' \<noteq> []"
  using assms(1)
proof cases
  case (submit operation r)
  with assms(2,3) show ?thesis by (clarsimp simp: queue_submit_def queue_awake_def signal_awake split: if_splits)
next
  case consumer
  then show ?thesis
  proof cases
    case (head i)
    then have "At_head \<in> set (q_consumers q)" using nth_mem by metis
    with head assms(2,3) show ?thesis
      by (auto simp: consume_head_def queue_awake_def split: list.splits dest!: subsetD [OF set_update_subset_insert]
          intro: bexI [OF _ set_update_memI])
  next
    case (finished i j r)
    with assms(2,3) show ?thesis
      by (auto simp: consume_done_def queue_awake_def dest!: subsetD [OF set_update_subset_insert]
          intro!: bexI [OF _ set_update_memI])
  qed
next
  case stopping
  with assms(3) show ?thesis
    by (auto simp: queue_begin_stop_def broadcast_def queue_awake_def) (metis wake_simps(2))
qed

lemma queue_reachable_inv:
  assumes "queue_reachable bytes_of limits q" "\<And>op. 0 \<le> bytes_of op"
  shows "queue_capacity limits q \<and> (\<forall>j \<in> set (q_pending q). 0 \<le> j_bytes j) \<and> queue_order q \<and>
    queue_awake q \<and> q_consumers q \<noteq> []"
  using assms(1)
proof induction
  case (started q q')
  then show ?case
    by (auto simp: new_queue_def queue_start_def queue_capacity_def queue_order_def queue_tickets_def
        in_flight_def queue_awake_def split: if_splits)
next
  case (step q q')
  then show ?case using queue_capacity_step [OF step.hyps(2) _ assms(2)] queue_order_step [OF step.hyps(2)]
      queue_awake_step [OF step.hyps(2)] by blast
qed

lemma queue_reachable_consumers:
  "consumer_step\<^sup>*\<^sup>* q q' \<Longrightarrow> queue_reachable bytes_of limits q \<Longrightarrow> queue_reachable bytes_of limits q'"
  by (induction rule: rtranclp_induct) (auto intro: queue_reachable.step queue_step.consumer)

text \<open>Consumers alone: every step brings them closer to a standstill.\<close>

definition consumer_weight :: "'op consumer \<Rightarrow> nat" where
  "consumer_weight c = (case c of At_head \<Rightarrow> 1 | Executing _ \<Rightarrow> 2 | _ \<Rightarrow> 0)"

definition queue_work :: "('op, 'r) operation_queue \<Rightarrow> nat" where
  "queue_work q = 2 * length (q_pending q) + sum_list (map consumer_weight (q_consumers q)) +
     (if q_signalled q then 1 else 0)"

lemma weight_update:
  "i < length cs \<Longrightarrow> sum_list (map consumer_weight (cs[i := c])) + consumer_weight (cs ! i) =
     sum_list (map consumer_weight cs) + consumer_weight c"
proof (induction cs arbitrary: i)
  case (Cons d cs)
  then show ?case by (cases i) (auto simp: ac_simps)
qed simp

lemma queue_work_decreases: "consumer_step q q' \<Longrightarrow> queue_work q' < queue_work q"
proof (induction rule: consumer_step.induct)
  case (head i q)
  note weight = weight_update [OF head(1), of Exited] weight_update [OF head(1), of Waiting]
  show ?case
  proof (cases "q_pending q")
    case Nil
    with head weight show ?thesis by (auto simp: queue_work_def consume_head_def consumer_weight_def)
  next
    case (Cons j js)
    with head weight weight_update [OF head(1), of "Executing j"] show ?thesis
      by (auto simp: queue_work_def consume_head_def consumer_weight_def)
  qed
next
  case (finished i q j r)
  with weight_update [OF finished(1), of At_head] show ?case
    by (simp add: queue_work_def consume_done_def consumer_weight_def)
qed

lemma consumers_halt: "\<not> (\<exists>f. \<forall>n. consumer_step (f n) (f (Suc n)))"
proof
  assume "\<exists>f :: nat \<Rightarrow> ('op, 'r) operation_queue. \<forall>n. consumer_step (f n) (f (Suc n))"
  then obtain f :: "nat \<Rightarrow> ('op, 'r) operation_queue" where "\<forall>n. consumer_step (f n) (f (Suc n))" by blast
  then have step: "queue_work (f (Suc n)) < queue_work (f n)" for n by (simp add: queue_work_decreases)
  have "queue_work (f n) + n \<le> queue_work (f 0)" for n
  proof (induction n)
    case (Suc n)
    with step [of n] show ?case by simp
  qed simp
  from this [of "Suc (queue_work (f 0))"] show False by simp
qed

lemma standstill_reached: "\<exists>q'. consumer_step\<^sup>*\<^sup>* q q' \<and> (\<nexists>q''. consumer_step q' q'')"
proof (induction q rule: measure_induct_rule [of queue_work])
  case (less q)
  show ?case
  proof (cases "\<exists>q1. consumer_step q q1")
    case True
    then obtain q1 where "consumer_step q q1" by blast
    with less [of q1] show ?thesis by (meson converse_rtranclp_into_rtranclp queue_work_decreases)
  qed blast
qed

lemma standstill:
  assumes "\<nexists>q'. consumer_step q q'" "c \<in> set (q_consumers q)"
  shows "c = Waiting \<or> c = Exited"
proof -
  obtain i where "i < length (q_consumers q)" "q_consumers q ! i = c" using assms(2) by (auto simp: in_set_conv_nth)
  with assms(1) show ?thesis by (cases c) (auto intro: consumer_step.intros)
qed

lemma standstill_answered:
  assumes "\<nexists>q'. consumer_step q q'" "queue_order q" "queue_awake q" "q_consumers q \<noteq> []"
  shows "q_pending q = [] \<and> mset (map fst (q_results q)) = mset [0..<q_next q]"
proof -
  have idle: "\<not> active c" "executing c = []" if "c \<in> set (q_consumers q)" for c
    using standstill [OF assms(1) that] by auto
  have "in_flight q = []" using idle(2) by (simp add: in_flight_def)
  moreover have "q_pending q = []" using idle(1) assms(3) by (auto simp: queue_awake_def)
  ultimately show ?thesis using assms(2) by (simp add: queue_order_def queue_tickets_def)
qed

lemma distinct_subset:
  assumes "mset xs \<subseteq># mset ys" "distinct ys"
  shows "distinct xs"
  unfolding distinct_count_atmost_1
proof
  fix a
  have "count (mset xs) a \<le> count (mset ys) a" using assms(1) by (rule mset_subset_eq_count)
  also have "\<dots> \<le> 1" using assms(2) by (simp add: distinct_count_atmost_1)
  finally show "count (mset xs) a = (if a \<in> set xs then 1 else 0)"
    using count_greater_zero_iff [of "mset xs" a] by (auto simp: not_in_iff simp del: count_greater_zero_iff)
qed

text \<open>A queue of one place and one consumer, after a submission and after its completion.\<close>

definition sample_limits :: queue_limits where
  "sample_limits = \<lparr>l_pending = 1, l_bytes = 100, l_concurrency = 1\<rparr>"

definition sample_started :: "(int, int) operation_queue" where
  "sample_started =
     \<lparr>q_limits = sample_limits, q_accepting = True, q_bytes = 100, q_pending = [], q_signalled = False,
      q_consumers = [At_head], q_results = [], q_started = [], q_next = 0\<rparr>"

definition sample_submitted :: "(int, int) operation_queue" where
  "sample_submitted = snd (queue_submit (\<lambda>_. 7) 42 sample_started)"

definition sample_executed :: "(int, int) operation_queue" where
  "sample_executed =
     consume_done 0 \<lparr>j_operation = 42, j_completion = 0, j_bytes = 7\<rparr> (Inr 5) (consume_head 0 sample_submitted)"

lemma sample_reachable:
  "queue_reachable (\<lambda>_. 7) sample_limits sample_started"
  "queue_reachable (\<lambda>_. 7) sample_limits sample_submitted"
  "queue_reachable (\<lambda>_. 7) sample_limits sample_executed"
proof -
  show s: "queue_reachable (\<lambda>_. 7) sample_limits sample_started"
    by (rule queue_reachable.started [of _ "sample_started\<lparr>q_accepting := False, q_consumers := []\<rparr>"])
      (simp_all add: new_queue_def queue_start_def sample_limits_def sample_started_def)
  show t: "queue_reachable (\<lambda>_. 7) sample_limits sample_submitted"
    by (rule queue_reachable.step [OF s], rule queue_step.submit [where r = "Inr 0" and operation = 42])
      (simp add: sample_submitted_def queue_submit_def sample_started_def sample_limits_def)
  have "consumer_step sample_submitted (consume_head 0 sample_submitted)"
    by (rule consumer_step.head)
      (simp_all add: sample_submitted_def queue_submit_def sample_started_def sample_limits_def signal_def)
  moreover have "consumer_step (consume_head 0 sample_submitted) sample_executed"
    unfolding sample_executed_def
    by (rule consumer_step.finished)
      (simp_all add: sample_submitted_def queue_submit_def sample_started_def sample_limits_def signal_def
        consume_head_def)
  ultimately show "queue_reachable (\<lambda>_. 7) sample_limits sample_executed"
    using t by (blast intro: queue_reachable.step queue_step.consumer)
qed

section \<open>Properties\<close>

text \<open>C34: At every moment the byte budget of the queue plus the bytes of the waiting jobs is the configured
  capacity, no more jobs wait than allowed, and no more execute than there are consumers.\<close>

theorem queue_bounds:
  assumes "queue_reachable bytes_of limits q" "\<And>op. 0 \<le> bytes_of op"
  shows "q_bytes q + sum_list (map j_bytes (q_pending q)) = int (l_bytes limits) \<and> 0 \<le> q_bytes q \<and>
    length (q_pending q) \<le> l_pending limits \<and> length (in_flight q) \<le> l_concurrency limits"
proof -
  have "length (concat (map executing cs)) \<le> length cs" for cs :: "'a consumer list"
  proof (induction cs)
    case (Cons c cs)
    then show ?case by (cases c) auto
  qed simp
  then show ?thesis using queue_reachable_inv [OF assms] by (simp add: queue_capacity_def in_flight_def) metis
qed

theorem queue_bounds_witness:
  "queue_reachable (\<lambda>_. 7) sample_limits sample_submitted \<and> length (q_pending sample_submitted) = 1 \<and>
   q_bytes sample_submitted + sum_list (map j_bytes (q_pending sample_submitted)) = 100"
proof -
  have "q_bytes sample_submitted + sum_list (map j_bytes (q_pending sample_submitted)) = int (l_bytes sample_limits)"
    using queue_bounds [OF sample_reachable(2)] by simp
  then show ?thesis using sample_reachable(2)
    by (simp add: sample_submitted_def queue_submit_def sample_started_def sample_limits_def signal_def)
qed

text \<open>C35: An admitted operation is completed at most once, operations are started in the order of their
  admission and none twice, and an operation that was never started is only ever answered with \<^verbatim>\<open>stopped\<close>.\<close>

theorem queue_at_most_once:
  assumes "queue_reachable bytes_of limits q" "\<And>op. 0 \<le> bytes_of op"
  shows "distinct (map fst (q_results q)) \<and> set (map fst (q_results q)) \<subseteq> {..<q_next q} \<and>
    sorted_wrt (<) (q_started q) \<and>
    (\<forall>n r. (n, r) \<in> set (q_results q) \<longrightarrow> n \<in> set (q_started q) \<or> r = Inl Stopped)"
proof -
  have order: "queue_order q" using queue_reachable_inv [OF assms] by blast
  then have sub: "mset (map fst (q_results q)) \<subseteq># mset [0..<q_next q]"
    unfolding queue_order_def queue_tickets_def by (metis mset_subset_eq_add_right)
  then have "distinct (map fst (q_results q))" by (rule distinct_subset) simp
  moreover have "set (map fst (q_results q)) \<subseteq> {..<q_next q}"
    using set_mset_mono [OF sub] by auto
  ultimately show ?thesis using order by (auto simp: queue_order_def sorted_wrt_append)
qed

theorem queue_at_most_once_witness:
  "queue_reachable (\<lambda>_. 7) sample_limits sample_executed \<and> q_results sample_executed = [(0, Inr 5)] \<and>
   distinct (map fst (q_results sample_executed)) \<and> sorted_wrt (<) (q_started sample_executed)"
proof -
  have "distinct (map fst (q_results sample_executed)) \<and> sorted_wrt (<) (q_started sample_executed)"
    using queue_at_most_once [OF sample_reachable(3)] by simp
  then show ?thesis using sample_reachable(3)
    by (simp add: sample_executed_def sample_submitted_def queue_submit_def sample_started_def sample_limits_def
        signal_def consume_head_def consume_done_def)
qed

text \<open>C9: No admitted operation is lost.  However the consumers are interleaved they come to a standstill
  after finitely many steps, and at the standstill every admitted operation has been completed exactly
  once: a notification that another consumer used up never leaves a job behind.\<close>

theorem queue_drains:
  assumes "queue_reachable bytes_of limits q" "\<And>op. 0 \<le> bytes_of op"
  shows "\<not> (\<exists>f. f 0 = q \<and> (\<forall>n. consumer_step (f n) (f (Suc n)))) \<and>
    (\<forall>q'. consumer_step\<^sup>*\<^sup>* q q' \<and> (\<nexists>q''. consumer_step q' q'') \<longrightarrow>
       q_pending q' = [] \<and> mset (map fst (q_results q')) = mset [0..<q_next q'])"
proof (intro conjI allI impI)
  show "\<not> (\<exists>f. f 0 = q \<and> (\<forall>n. consumer_step (f n) (f (Suc n))))" using consumers_halt by blast
next
  fix q' assume "consumer_step\<^sup>*\<^sup>* q q' \<and> (\<nexists>q''. consumer_step q' q'')"
  then have q': "queue_reachable bytes_of limits q'" "\<nexists>q''. consumer_step q' q''"
    using queue_reachable_consumers assms(1) by blast+
  from queue_reachable_inv [OF q'(1) assms(2)] standstill_answered [OF q'(2)]
  show "q_pending q' = []" "mset (map fst (q_results q')) = mset [0..<q_next q']" by auto
qed

theorem queue_drains_witness:
  "queue_reachable (\<lambda>_. 7) sample_limits sample_submitted \<and> q_pending sample_submitted \<noteq> [] \<and>
   (\<exists>q'. consumer_step\<^sup>*\<^sup>* sample_submitted q' \<and> (\<nexists>q''. consumer_step q' q'') \<and>
      mset (map fst (q_results q')) = mset [0..<q_next q'])"
proof -
  obtain q' where "consumer_step\<^sup>*\<^sup>* sample_submitted q'" "\<nexists>q''. consumer_step q' q''"
    using standstill_reached by blast
  moreover from this have "mset (map fst (q_results q')) = mset [0..<q_next q']"
    using queue_drains [OF sample_reachable(2)] by simp
  moreover have "q_pending sample_submitted \<noteq> []"
    by (simp add: sample_submitted_def queue_submit_def sample_started_def sample_limits_def signal_def)
  ultimately show ?thesis using sample_reachable(2) by blast
qed

end
