(* ===== verification/Error_Codes.thy ===== *)
theory Error_Codes
  imports Prelude
begin

text \<open>
  The error codes of \<^verbatim>\<open>common/include/Const.h\<close>: the enumeration, its numbers, the
  texts of \<^verbatim>\<open>errorCodesMap\<close> and the retry contract of \<^verbatim>\<open>isRetryableError\<close>.
\<close>

datatype ErrorCodes =
    Success | JsonParser | ProtobufPacket | RPCFailed | VerificationExpired
  | VerificationCodeInvalid | UserExist | PasswdErr | EmailNotMatch | PasswdUpFailed
  | PasswdInvalid | TokenInvalid | UidInvalid | UserNotOnline | UserNotFriend
  | UserOnline | UserOffline | NotFound | RepeatMessage | MysqlFailed | FileTypeError
  | InternalError | GroupAlreadyExists | GroupNotExists | GroupNotifyFailed
  | GroupReplyFailed | AuthenticationRequired | MessageOwnershipInvalid
  | ResourceExhausted | DependencyUnavailable | IdempotencyConflict

fun code :: "ErrorCodes \<Rightarrow> int" where
  "code Success = 0"
| "code JsonParser = 1000"
| "code ProtobufPacket = 1001"
| "code RPCFailed = 1002"
| "code VerificationExpired = 1003"
| "code VerificationCodeInvalid = 1004"
| "code UserExist = 1005"
| "code PasswdErr = 1006"
| "code EmailNotMatch = 1007"
| "code PasswdUpFailed = 1008"
| "code PasswdInvalid = 1009"
| "code TokenInvalid = 1010"
| "code UidInvalid = 1011"
| "code UserNotOnline = 1012"
| "code UserNotFriend = 1013"
| "code UserOnline = 1014"
| "code UserOffline = 1015"
| "code NotFound = 1016"
| "code RepeatMessage = 1017"
| "code MysqlFailed = 1018"
| "code FileTypeError = 1019"
| "code InternalError = 1020"
| "code GroupAlreadyExists = 1021"
| "code GroupNotExists = 1022"
| "code GroupNotifyFailed = 1023"
| "code GroupReplyFailed = 1024"
| "code AuthenticationRequired = 1025"
| "code MessageOwnershipInvalid = 1026"
| "code ResourceExhausted = 1028"
| "code DependencyUnavailable = 1029"
| "code IdempotencyConflict = 1030"

definition errorCodesMap :: "(ErrorCodes \<times> string) list" where
  "errorCodesMap =
    [(Success, ''Success''), (JsonParser, ''JsonParser''), (RPCFailed, ''RPCFailed''),
     (VerificationExpired, ''VerificationExpired''),
     (VerificationCodeInvalid, ''VerificationCodeInvalid''), (UserExist, ''UserExist''),
     (PasswdErr, ''PasswdErr''), (EmailNotMatch, ''EmailNotMatch''),
     (PasswdUpFailed, ''PasswdUpFailed''), (PasswdInvalid, ''PasswdInvalid''),
     (TokenInvalid, ''TokenInvalid''), (UidInvalid, ''UidInvalid''),
     (UserNotOnline, ''UserNotOnline''), (UserNotFriend, ''UserNotFriend''),
     (UserOnline, ''UserOnline''), (UserOffline, ''UserOffline''), (NotFound, ''NotFound''),
     (RepeatMessage, ''RepeatMessage''), (MysqlFailed, ''MysqlFailed''),
     (FileTypeError, ''FileTypeError''), (InternalError, ''InternalError''),
     (GroupAlreadyExists, ''GroupAlreadyExists''), (GroupNotExists, ''GroupNotExists''),
     (AuthenticationRequired, ''AuthenticationRequired''),
     (MessageOwnershipInvalid, ''MessageOwnershipInvalid''),
     (ResourceExhausted, ''ResourceExhausted''),
     (DependencyUnavailable, ''DependencyUnavailable''),
     (IdempotencyConflict, ''IdempotencyConflict'')]"

fun isRetryableError :: "ErrorCodes \<Rightarrow> bool" where
  "isRetryableError RPCFailed = True"
| "isRetryableError MysqlFailed = True"
| "isRetryableError InternalError = True"
| "isRetryableError ResourceExhausted = True"
| "isRetryableError DependencyUnavailable = True"
| "isRetryableError _ = False"

definition getErrorCodeMsg :: "ErrorCodes \<Rightarrow> string" where
  "getErrorCodeMsg e = (case map_of errorCodesMap e of Some m \<Rightarrow> m | None \<Rightarrow> '''')"

lemma code_inj [simp]: "code a = code b \<longleftrightarrow> a = b"
  by (cases a; cases b; simp)

end
