(* ===== verification/Tcp_Message.thy ===== *)
theory Tcp_Message
  imports Error_Codes
begin

text \<open>
  The client protocol: the messages of \<^verbatim>\<open>common/proto/tcp_message.proto\<close> (a record
  per message, the payload of a packet as a datatype of requests, responses and
  pushes, an absent sub-message as \<open>None\<close>) and the functions of \<^verbatim>\<open>common/include/TcpMessageCodec.h\<close>.  A number
  outside an enumeration is treated like its \<^verbatim>\<open>UNSPECIFIED\<close> value: no function of
  the sources tells them apart.
\<close>

section \<open>Messages\<close>

datatype (plugins only: code size) ReceiptType =
    RECEIPT_TYPE_UNSPECIFIED
  | RECEIPT_TYPE_DELIVERED
  | RECEIPT_TYPE_READ

datatype (plugins only: code size) ConversationType =
    CONVERSATION_TYPE_UNSPECIFIED
  | CONVERSATION_TYPE_DIRECT
  | CONVERSATION_TYPE_GROUP

datatype (plugins only: code size) GroupChangeKind =
    GROUP_CHANGE_KIND_UNSPECIFIED
  | GROUP_CHANGE_KIND_JOINED
  | GROUP_CHANGE_KIND_LEFT
  | GROUP_CHANGE_KIND_KICKED
  | GROUP_CHANGE_KIND_DISSOLVED

datatype (plugins only: code size) Operation =
    OP_UNSPECIFIED
  | OP_PULL_FRIEND_LIST
  | OP_PULL_FRIEND_APPLICATIONS
  | OP_PULL_CONVERSATION_MESSAGES
  | OP_PULL_GROUP_MEMBERS
  | OP_PING
  | OP_LOGIN
  | OP_QUIT
  | OP_UPDATE_USER_INFO
  | OP_SEARCH_USER
  | OP_ADD_FRIEND
  | OP_REPLY_FRIEND
  | OP_REMOVE_FRIEND
  | OP_SEND_TEXT
  | OP_SEND_FILE
  | OP_UPLOAD_FILE
  | OP_ACKNOWLEDGE
  | OP_CREATE_GROUP
  | OP_JOIN_GROUP
  | OP_REPLY_JOIN_GROUP
  | OP_QUIT_GROUP
  | OP_SEND_GROUP_TEXT
  | OP_UPLOAD_FILE_CHUNK
  | OP_COMPLETE_FILE_UPLOAD
  | OP_DOWNLOAD_FILE
  | OP_KICK_GROUP_MEMBER
  | OP_SEND_GROUP_FILE

datatype (plugins only: code size) PushType =
    PUSH_TYPE_UNSPECIFIED
  | PUSH_TYPE_TEXT_MESSAGE
  | PUSH_TYPE_FILE_MESSAGE
  | PUSH_TYPE_FRIEND_REQUEST
  | PUSH_TYPE_FRIEND_REPLY
  | PUSH_TYPE_GROUP_JOIN_REQUEST
  | PUSH_TYPE_GROUP_CHANGE
  | PUSH_TYPE_READ_RECEIPT

record ResponseStatus =
  st_error :: "int option"
  st_message :: "string option"

record protocol_UserInfo =
  pu_uid :: "int"
  pu_name :: "string"
  pu_age :: "int"
  pu_sex :: "string"
  pu_head_image_url :: "string"

record protocol_FriendApply =
  pf_from :: "int"
  pf_status :: "int"
  pf_content :: "string"

record FileInfo =
  fi_file_id :: "string"
  fi_file_name :: "string"
  fi_file_type :: "string"
  fi_file_size :: "int"
  fi_sha256 :: "string"
  fi_expired :: "bool"

record ChatMessage =
  ch_message_id :: "int"
  ch_from :: "int"
  ch_to :: "int"
  ch_type :: "int"
  ch_content :: "string"
  ch_status :: "int"
  ch_send_date_time :: "string"
  ch_read_date_time :: "string"
  ch_conversation_id :: "int"
  ch_conversation_seq :: "int"
  ch_client_message_id :: "string"
  ch_file :: "FileInfo option"

record protocol_GroupMember =
  pm_uid :: "int"
  pm_name :: "string"
  pm_join_time :: "string"

record GroupJoinApplication =
  pj_requestor_uid :: "int"
  pj_request_message :: "string"
  pj_create_time :: "string"

record LoginRequest =
  lq_uid :: "int"
  lq_auth_token :: "string"
  lq_device_id :: "string"
  lq_init_profile :: "bool"
  lq_name :: "string"
  lq_age :: "int"
  lq_sex :: "string"
  lq_head_image_url :: "string"

record LoginResponse =
  lp_uid :: "int"

record UpdateUserInfoRequest =
  uq_name :: "string"
  uq_age :: "int"
  uq_sex :: "string"
  uq_head_image_url :: "string"

record UpdateUserInfoResponse =
  up_user :: "protocol_UserInfo option"

record SearchUserRequest =
  sq_uid :: "int"

record SearchUserResponse =
  se_user :: "protocol_UserInfo option"

record PullFriendListResponse =
  pl_friends :: "protocol_UserInfo list"

record PullFriendApplyListResponse =
  al_applications :: "protocol_FriendApply list"

record AddFriendRequest =
  aq_to :: "int"
  aq_request_message :: "string"

record FriendRequestPush =
  fp_seq :: "int"
  fp_from :: "int"
  fp_to :: "int"
  fp_request_message :: "string"

record ReplyFriendRequest =
  rq_to :: "int"
  rq_accept :: "bool option"
  rq_reply_message :: "string"

record FriendReplyPush =
  ry_seq :: "int"
  ry_from :: "int"
  ry_to :: "int"
  ry_accept :: "bool option"
  ry_reply_message :: "string"

record RemoveFriendRequest =
  xq_to :: "int"

record SendTextRequest =
  tq_to :: "int"
  tq_content :: "string"
  tq_client_message_id :: "string"
  tq_conversation_id :: "int"

record SendGroupTextRequest =
  gq_group_id :: "int"
  gq_content :: "string"
  gq_client_message_id :: "string"
  gq_conversation_id :: "int"

record SendMessageResponse =
  sr_message_id :: "int"
  sr_conversation_id :: "int"
  sr_conversation_seq :: "int"

record TextMessagePush =
  tp_message_id :: "int"
  tp_from :: "int"
  tp_to :: "int"
  tp_content :: "string"
  tp_client_message_id :: "string"
  tp_conversation_id :: "int"
  tp_conversation_seq :: "int"
  tp_send_date_time :: "string"
  tp_group_id :: "int"

record PullConversationMessagesRequest =
  cq_conversation_id :: "int"
  cq_after_seq :: "int"
  cq_limit :: "int"

record PullConversationMessagesResponse =
  cp_conversation_id :: "int"
  cp_next_seq :: "int"
  cp_has_more :: "bool"
  cp_latest_seq :: "int"
  cp_conversation_type :: "ConversationType"
  cp_messages :: "ChatMessage list"

record MessageReceipt =
  mr_seq :: "int"
  mr_receipt_type :: "ReceiptType"
  mr_conversation_id :: "int"
  mr_conversation_seq :: "int"

record ReadReceiptPush =
  rr_message_id :: "int"
  rr_from :: "int"
  rr_to :: "int"
  rr_conversation_id :: "int"
  rr_conversation_seq :: "int"

record FileUploadRequest =
  fw_file :: "FileInfo option"
  fw_offset :: "int"
  fw_data :: "string"
  fw_complete :: "bool"

record FileUploadResponse =
  fv_next_offset :: "int"
  fv_complete :: "bool"

record FileDownloadRequest =
  dq_file :: "FileInfo option"
  dq_offset :: "int"
  dq_limit :: "int"

record FileDownloadResponse =
  dp_data :: "string"
  dp_next_offset :: "int"
  dp_complete :: "bool"
  dp_file :: "FileInfo option"

record SendFileRequest =
  fq_to :: "int"
  fq_file :: "FileInfo option"
  fq_client_message_id :: "string"
  fq_conversation_id :: "int"

record SendGroupFileRequest =
  hq_group_id :: "int"
  hq_file :: "FileInfo option"
  hq_client_message_id :: "string"
  hq_conversation_id :: "int"

record FileMessagePush =
  mp_message_id :: "int"
  mp_from :: "int"
  mp_to :: "int"
  mp_file :: "FileInfo option"
  mp_client_message_id :: "string"
  mp_conversation_id :: "int"
  mp_conversation_seq :: "int"
  mp_group_id :: "int"

record CreateGroupRequest =
  kq_group_name :: "string"

record CreateGroupResponse =
  kp_group_id :: "int"
  kp_conversation_id :: "int"

record JoinGroupRequest =
  jq_group_id :: "int"
  jq_request_message :: "string"

record GroupJoinRequestPush =
  jp_requestor_uid :: "int"
  jp_group_id :: "int"
  jp_request_message :: "string"

record ReplyJoinGroupRequest =
  yq_group_id :: "int"
  yq_requestor_uid :: "int"
  yq_accept :: "bool option"

record GroupChangePush =
  gp_group_id :: "int"
  gp_requestor_uid :: "int"
  gp_replyor_uid :: "int"
  gp_accept :: "bool option"
  gp_change :: "GroupChangeKind"
  gp_group_name :: "string"

record QuitGroupRequest =
  qq_group_id :: "int"

record KickGroupMemberRequest =
  zq_group_id :: "int"
  zq_member_uid :: "int"

record PullGroupMembersRequest =
  nq_group_id :: "int"

record PullGroupMembersResponse =
  np_group_id :: "int"
  np_conversation_id :: "int"
  np_master_uid :: "int"
  np_group_name :: "string"
  np_members :: "protocol_GroupMember list"
  np_applications :: "GroupJoinApplication list"

datatype (plugins only: code size) request =
    Login_request LoginRequest
  | Ping_request
  | Quit_request
  | Update_user_info_request UpdateUserInfoRequest
  | Search_user_request SearchUserRequest
  | Pull_friend_list_request
  | Pull_friend_apply_list_request
  | Add_friend_request AddFriendRequest
  | Reply_friend_request ReplyFriendRequest
  | Remove_friend_request RemoveFriendRequest
  | Send_text_request SendTextRequest
  | Send_group_text_request SendGroupTextRequest
  | Pull_conversation_messages_request PullConversationMessagesRequest
  | Receipt MessageReceipt
  | File_upload_request FileUploadRequest
  | File_upload_chunk_request FileUploadRequest
  | File_upload_complete_request FileUploadRequest
  | File_download_request FileDownloadRequest
  | Send_file_request SendFileRequest
  | Send_group_file_request SendGroupFileRequest
  | Create_group_request CreateGroupRequest
  | Join_group_request JoinGroupRequest
  | Reply_join_group_request ReplyJoinGroupRequest
  | Quit_group_request QuitGroupRequest
  | Kick_group_member_request KickGroupMemberRequest
  | Pull_group_members_request PullGroupMembersRequest

datatype (plugins only: code size) response =
    Login_response LoginResponse
  | Ping_response
  | Quit_response
  | Update_user_info_response UpdateUserInfoResponse
  | Search_user_response SearchUserResponse
  | Pull_friend_list_response PullFriendListResponse
  | Pull_friend_apply_list_response PullFriendApplyListResponse
  | Add_friend_response
  | Reply_friend_response
  | Remove_friend_response
  | Send_message_response SendMessageResponse
  | Pull_conversation_messages_response PullConversationMessagesResponse
  | File_upload_response FileUploadResponse
  | File_upload_chunk_response FileUploadResponse
  | File_upload_complete_response FileUploadResponse
  | File_download_response FileDownloadResponse
  | Create_group_response CreateGroupResponse
  | Join_group_response
  | Reply_join_group_response
  | Quit_group_response
  | Kick_group_member_response
  | Pull_group_members_response PullGroupMembersResponse

datatype (plugins only: code size) push =
    Friend_request_push FriendRequestPush
  | Friend_reply_push FriendReplyPush
  | Text_message_push TextMessagePush
  | Read_receipt_push ReadReceiptPush
  | File_message_push FileMessagePush
  | Group_join_request_push GroupJoinRequestPush
  | Group_change_push GroupChangePush

datatype payload = No_payload | Request request | Response response | Push push

record Packet =
  pk_status :: "ResponseStatus option"
  pk_payload :: payload

record ClientRequest =
  cr_request_id :: "string"
  cr_packet :: "Packet option"
  cr_operation :: "Operation"

record ClientResponse =
  ce_request_id :: "string"
  ce_packet :: "Packet option"
  ce_operation :: "Operation"

record ClientPush =
  cu_delivery_id :: "int"
  cu_packet :: "Packet option"
  cu_type :: "PushType"

datatype ClientEnvelope = No_body | Env_request ClientRequest | Env_response ClientResponse | Env_push ClientPush
section \<open>Codec\<close>

definition new_packet :: "payload \<Rightarrow> Packet" where
  "new_packet p = \<lparr>pk_status = None, pk_payload = p\<rparr>"

text \<open>An empty message leaves an earlier one in place.\<close>

definition SetTcpPacketStatus :: "int \<Rightarrow> string \<Rightarrow> Packet \<Rightarrow> Packet" where
  "SetTcpPacketStatus error message packet =
     packet\<lparr>pk_status := Some \<lparr>st_error = Some error,
       st_message = (if message = '''' then (case pk_status packet of None \<Rightarrow> None | Some s \<Rightarrow> st_message s)
                     else Some message)\<rparr>\<rparr>"

definition MakeErrorPacket :: "int \<Rightarrow> string \<Rightarrow> Packet" where
  "MakeErrorPacket error message = SetTcpPacketStatus error message (new_packet No_payload)"

definition TcpPacketError :: "Packet \<Rightarrow> int" where
  "TcpPacketError packet =
     (case pk_status packet of
        None \<Rightarrow> code Success
      | Some s \<Rightarrow> (case st_error s of None \<Rightarrow> 0 | Some e \<Rightarrow> e))"

definition TcpPacketRequestOperation :: "Packet \<Rightarrow> Operation" where
  "TcpPacketRequestOperation packet =
     (case pk_payload packet of
        Request r \<Rightarrow> (case r of
        Pull_friend_list_request \<Rightarrow> OP_PULL_FRIEND_LIST
      | Pull_friend_apply_list_request \<Rightarrow> OP_PULL_FRIEND_APPLICATIONS
      | Pull_conversation_messages_request _ \<Rightarrow> OP_PULL_CONVERSATION_MESSAGES
      | Pull_group_members_request _ \<Rightarrow> OP_PULL_GROUP_MEMBERS
      | Ping_request \<Rightarrow> OP_PING
      | Login_request _ \<Rightarrow> OP_LOGIN
      | Quit_request \<Rightarrow> OP_QUIT
      | Update_user_info_request _ \<Rightarrow> OP_UPDATE_USER_INFO
      | Search_user_request _ \<Rightarrow> OP_SEARCH_USER
      | Add_friend_request _ \<Rightarrow> OP_ADD_FRIEND
      | Reply_friend_request _ \<Rightarrow> OP_REPLY_FRIEND
      | Remove_friend_request _ \<Rightarrow> OP_REMOVE_FRIEND
      | Send_text_request _ \<Rightarrow> OP_SEND_TEXT
      | Send_file_request _ \<Rightarrow> OP_SEND_FILE
      | File_upload_request _ \<Rightarrow> OP_UPLOAD_FILE
      | Receipt _ \<Rightarrow> OP_ACKNOWLEDGE
      | Create_group_request _ \<Rightarrow> OP_CREATE_GROUP
      | Join_group_request _ \<Rightarrow> OP_JOIN_GROUP
      | Reply_join_group_request _ \<Rightarrow> OP_REPLY_JOIN_GROUP
      | Quit_group_request _ \<Rightarrow> OP_QUIT_GROUP
      | Send_group_text_request _ \<Rightarrow> OP_SEND_GROUP_TEXT
      | File_upload_chunk_request _ \<Rightarrow> OP_UPLOAD_FILE_CHUNK
      | File_upload_complete_request _ \<Rightarrow> OP_COMPLETE_FILE_UPLOAD
      | File_download_request _ \<Rightarrow> OP_DOWNLOAD_FILE
      | Kick_group_member_request _ \<Rightarrow> OP_KICK_GROUP_MEMBER
      | Send_group_file_request _ \<Rightarrow> OP_SEND_GROUP_FILE)
      | _ \<Rightarrow> OP_UNSPECIFIED)"

definition TcpRequestMatchesOperation :: "Operation \<Rightarrow> Packet \<Rightarrow> bool" where
  "TcpRequestMatchesOperation operation packet =
     (operation \<noteq> OP_UNSPECIFIED \<and> operation = TcpPacketRequestOperation packet)"

definition TcpPacketPushType :: "Packet \<Rightarrow> PushType" where
  "TcpPacketPushType packet =
     (case pk_payload packet of
        Push p \<Rightarrow> (case p of
        Text_message_push _ \<Rightarrow> PUSH_TYPE_TEXT_MESSAGE
      | File_message_push _ \<Rightarrow> PUSH_TYPE_FILE_MESSAGE
      | Friend_request_push _ \<Rightarrow> PUSH_TYPE_FRIEND_REQUEST
      | Friend_reply_push _ \<Rightarrow> PUSH_TYPE_FRIEND_REPLY
      | Group_join_request_push _ \<Rightarrow> PUSH_TYPE_GROUP_JOIN_REQUEST
      | Group_change_push _ \<Rightarrow> PUSH_TYPE_GROUP_CHANGE
      | Read_receipt_push _ \<Rightarrow> PUSH_TYPE_READ_RECEIPT)
      | _ \<Rightarrow> PUSH_TYPE_UNSPECIFIED)"

definition TcpPacketConversationId :: "Packet \<Rightarrow> int" where
  "TcpPacketConversationId packet =
     (case pk_payload packet of
        Request (Send_text_request r) \<Rightarrow> tq_conversation_id r
      | Request (Send_group_text_request r) \<Rightarrow> gq_conversation_id r
      | Request (Send_file_request r) \<Rightarrow> fq_conversation_id r
      | Request (Send_group_file_request r) \<Rightarrow> hq_conversation_id r
      | Request (Pull_conversation_messages_request r) \<Rightarrow> cq_conversation_id r
      | Request (Receipt r) \<Rightarrow> mr_conversation_id r
      | _ \<Rightarrow> 0)"

definition TcpPacketReliableSequence :: "Packet \<Rightarrow> int" where
  "TcpPacketReliableSequence packet =
     (case pk_payload packet of
        Push (Friend_request_push p) \<Rightarrow> fp_seq p
      | Push (Friend_reply_push p) \<Rightarrow> ry_seq p
      | Push (Text_message_push p) \<Rightarrow> tp_message_id p
      | Push (File_message_push p) \<Rightarrow> mp_message_id p
      | Push (Read_receipt_push p) \<Rightarrow> rr_message_id p
      | _ \<Rightarrow> 0)"

lemma status_simps [simp]:
  "pk_payload (SetTcpPacketStatus e m p) = pk_payload p"
  "TcpPacketError (SetTcpPacketStatus e m p) = e"
  "TcpPacketError (MakeErrorPacket e m) = e"
  "TcpPacketError (new_packet q) = 0"
  "pk_payload (new_packet q) = q"
  "pk_payload (MakeErrorPacket e m) = No_payload"
  by (simp_all add: SetTcpPacketStatus_def MakeErrorPacket_def TcpPacketError_def new_packet_def)

lemma matches_request:
  "TcpRequestMatchesOperation op p \<Longrightarrow> TcpPacketRequestOperation p = op \<and> (\<exists>r. pk_payload p = Request r)"
  by (auto simp: TcpRequestMatchesOperation_def TcpPacketRequestOperation_def split: payload.splits)

end
