(* ===== verification/Gateway_Frames.thy ===== *)
theory Gateway_Frames
  imports Tcp_Message
begin

text \<open>
  The frames between the Gateway and the Message node
  (\<^verbatim>\<open>common/proto/gateway_message.proto\<close>), the requests of the File service
  (\<^verbatim>\<open>common/proto/file.proto\<close>), and the hash that assigns a gateway to a shard
  (\<^verbatim>\<open>common/include/message_route.hh\<close>).  A packet inside a frame is the byte string
  it was serialized to.
\<close>

section \<open>Frames\<close>

record RegisterGateway =
  rg_protocol_version :: int
  rg_gateway_id :: string
  rg_instance_id :: string
  rg_stream_epoch :: int
  rg_shard_id :: int
  rg_capacity :: int

record RegisterResult =
  rs_accepted :: bool
  rs_message_node_id :: string
  rs_stream_epoch :: int
  rs_reason :: string

record CommandEnvelope =
  cmd_request_id :: string
  cmd_actor_uid :: int
  cmd_connection_id :: string
  cmd_connection_generation :: int
  cmd_operation :: Operation
  cmd_conversation_id :: int
  cmd_packet :: string
  cmd_actor_device_id :: string

record CommandResult =
  res_request_id :: string
  res_error :: int
  res_retryable :: bool
  res_packet :: string

record ClientForwardEnvelope =
  fwd_forward_id :: string
  fwd_recipient_uid :: int
  fwd_expected_connection_id :: string
  fwd_expected_connection_generation :: int
  fwd_message_id :: int
  fwd_conversation_id :: int
  fwd_conversation_seq :: int
  fwd_packet :: string
  fwd_recipient_device_id :: string

datatype ClientForwardStatus =
    CLIENT_FORWARD_STATUS_UNSPECIFIED
  | CLIENT_FORWARD_STATUS_QUEUED
  | CLIENT_FORWARD_STATUS_OFFLINE
  | CLIENT_FORWARD_STATUS_STALE_ROUTE
  | CLIENT_FORWARD_STATUS_BACKPRESSURED

record ClientForwardAck =
  ca_forward_id :: string
  ca_status :: ClientForwardStatus
  ca_gateway_id :: string
  ca_instance_id :: string
  ca_recipient_device_id :: string

record StreamHeartbeat =
  hb_sent_at_unix_ms :: int
  hb_sequence :: int

datatype GatewayToMessageFrame =
    No_frame
  | Register_gateway RegisterGateway
  | Command CommandEnvelope
  | Client_forward_ack ClientForwardAck
  | Heartbeat StreamHeartbeat

datatype MessageToGatewayFrame =
    Register_result RegisterResult
  | Command_result CommandResult
  | Client_forward ClientForwardEnvelope
  | Heartbeat_ack StreamHeartbeat
  | Drain_notice string string

record SessionLease =
  ls_device_id :: string
  ls_gateway_id :: string
  ls_instance_id :: string
  ls_connection_id :: string
  ls_generation :: int
  ls_shard_id :: int

definition empty_lease :: SessionLease where
  "empty_lease = \<lparr>ls_device_id = '''', ls_gateway_id = '''', ls_instance_id = '''', ls_connection_id = '''',
                   ls_generation = 0, ls_shard_id = 0\<rparr>"

section \<open>File service\<close>

datatype TransferStatus = SUCCESS | FAILED | PARTIAL | PENDING

record file_FileInfo =
  ff_file_id :: string
  ff_file_name :: string
  ff_file_type :: string
  ff_file_size :: int
  ff_sha256 :: string

record UploadRequest =
  ur_file :: "file_FileInfo option"
  ur_user_id :: int
  ur_offset :: int
  ur_data :: string
  ur_complete :: bool

record UploadResponse =
  us_user_id :: int
  us_status :: TransferStatus
  us_next_offset :: int
  us_message :: string

record DownloadRequest =
  dr_file :: "file_FileInfo option"
  dr_user_id :: int
  dr_offset :: int
  dr_limit :: int

record DownloadResponse =
  ds_data :: string
  ds_next_offset :: int
  ds_complete :: bool
  ds_status :: TransferStatus
  ds_message :: string

section \<open>Shard of a gateway\<close>

unbundle bit_operations_syntax

fun fnv_hash :: "64 word \<Rightarrow> string \<Rightarrow> 64 word" where
  "fnv_hash hash [] = hash"
| "fnv_hash hash (c # cs) = fnv_hash ((hash XOR of_nat (of_char c)) * 1099511628211) cs"

definition owner_shard :: "string \<Rightarrow> nat \<Rightarrow> nat" where
  "owner_shard gateway_id shard_count = unat (fnv_hash 14695981039346656037 gateway_id) mod shard_count"

lemma owner_shard_less [simp]: "0 < n \<Longrightarrow> owner_shard g n < n"
  by (simp add: owner_shard_def)

end
