(* ===== verification/Message_Transport.thy ===== *)
theory Message_Transport
  imports Io_Queue Gateway_Frames
begin

text \<open>
  The gateway streams of a Message shard (\<^verbatim>\<open>message/transport/server.cc\<close>): the stream
  objects, the index of registered streams, the write budget, and the callbacks
  gRPC invokes.  \<open>transport_step\<close> interleaves them with what the transaction layer
  calls (\<^verbatim>\<open>reply\<close>, \<^verbatim>\<open>forward\<close>); its guards are what gRPC promises (a read or write
  completes only after it was started, \<^verbatim>\<open>OnDone\<close> is last and comes after
  \<^verbatim>\<open>Finish\<close>).  The parameter \<open>byte_size\<close> is the protobuf \<^verbatim>\<open>ByteSizeLong\<close>.
\<close>

section \<open>Streams\<close>

record stream_route =
  rt_gateway_id :: string
  rt_instance_id :: string
  rt_shard_id :: int
  rt_token :: nat

type_synonym stream_key = "string \<times> string \<times> int"

definition route_key :: "stream_route \<Rightarrow> stream_key" where
  "route_key r = (rt_gateway_id r, rt_instance_id r, rt_shard_id r)"

text \<open>
  \<open>sm_pending\<close> are the \<^verbatim>\<open>write\<close> coroutines in the order they reserved the write slot,
  \<open>sm_writing\<close> the frame of \<^verbatim>\<open>_write_done\<close>; \<open>sm_accepted\<close> and \<open>sm_written\<close> record the
  frames taken by \<^verbatim>\<open>enqueue\<close> and handed to \<^verbatim>\<open>StartWrite\<close>.
\<close>

record stream =
  sm_route :: stream_route
  sm_peer_identities :: "string list"
  sm_registered :: bool
  sm_stopping :: bool
  sm_finishing :: bool
  sm_finished :: bool
  sm_reading :: bool
  sm_frame :: "GatewayToMessageFrame option"
  sm_pending :: "(MessageToGatewayFrame \<times> capacity_units) list"
  sm_writing :: "(MessageToGatewayFrame \<times> capacity_units) option"
  sm_accepted :: "MessageToGatewayFrame list"
  sm_written :: "MessageToGatewayFrame list"

definition new_stream :: "string list \<Rightarrow> nat \<Rightarrow> stream" where
  "new_stream peers token =
     \<lparr>sm_route = \<lparr>rt_gateway_id = '''', rt_instance_id = '''', rt_shard_id = 0, rt_token = token\<rparr>,
      sm_peer_identities = peers, sm_registered = False, sm_stopping = False, sm_finishing = False,
      sm_finished = False, sm_reading = False, sm_frame = None, sm_pending = [], sm_writing = None,
      sm_accepted = [], sm_written = []\<rparr>"

definition stream_finish :: "stream \<Rightarrow> stream" where
  "stream_finish st =
     (if \<not> sm_finishing st \<and> \<not> sm_finished st \<and> sm_writing st = None then st\<lparr>sm_finishing := True\<rparr> else st)"

definition stream_stop :: "stream \<Rightarrow> stream" where
  "stream_stop st =
     (if sm_stopping st \<or> sm_finished st then st else stream_finish (st\<lparr>sm_stopping := True\<rparr>))"

section \<open>Server\<close>

record transport_options =
  to_node_id :: string
  to_shards :: nat
  to_self :: nat
  to_mtls :: bool
  to_max_writes :: nat
  to_max_write_bytes :: nat

record server =
  sv_options :: transport_options
  sv_objects :: "nat \<Rightarrow> stream"
  sv_streams :: "nat list"
  sv_registered :: "stream_key \<Rightarrow> nat option"
  sv_next_token :: nat
  sv_stopping :: bool
  sv_writes :: budget
  sv_commands :: "(stream_route \<times> CommandEnvelope) list"

definition new_server :: "transport_options \<Rightarrow> server" where
  "new_server options =
     \<lparr>sv_options = options, sv_objects = new_stream [], sv_streams = [], sv_registered = (\<lambda>_. None),
      sv_next_token = 0, sv_stopping = False,
      sv_writes = \<lparr>b_count = int (to_max_writes options), b_bytes = int (to_max_write_bytes options)\<rparr>,
      sv_commands = []\<rparr>"

definition at_stream :: "nat \<Rightarrow> (stream \<Rightarrow> stream) \<Rightarrow> server \<Rightarrow> server" where
  "at_stream t f sv = sv\<lparr>sv_objects := (sv_objects sv)(t := f (sv_objects sv t))\<rparr>"

definition stop_stream :: "nat \<Rightarrow> server \<Rightarrow> server" where
  "stop_stream t sv = at_stream t stream_stop sv"

definition enqueue ::
  "(MessageToGatewayFrame \<Rightarrow> nat) \<Rightarrow> nat \<Rightarrow> MessageToGatewayFrame \<Rightarrow> (server, unit) prog" where
  "enqueue byte_size t frame sv =
     (if sm_stopping (sv_objects sv t) then (Inl Stopped, sv)
      else case acquire (int (byte_size frame)) (sv_writes sv) of
        (Inl e, b) \<Rightarrow> (Inl e, sv)
      | (Inr units, b) \<Rightarrow>
          (Inr (), at_stream t (\<lambda>st. st\<lparr>sm_pending := sm_pending st @ [(frame, units)],
                                       sm_accepted := sm_accepted st @ [frame]\<rparr>) (sv\<lparr>sv_writes := b\<rparr>)))"

text \<open>\<^verbatim>\<open>_streams.at(token)\<close> throws when there is no such stream.\<close>

definition stream_at :: "nat \<Rightarrow> (server, nat) prog" where
  "stream_at t sv = (if t \<in> set (sv_streams sv) then (Inr t, sv) else (Inl (LogicError ''map::at''), sv))"

definition Connect :: "string list \<Rightarrow> server \<Rightarrow> server" where
  "Connect peers sv =
     (let t = Suc (sv_next_token sv);
          sv1 = sv\<lparr>sv_next_token := t, sv_objects := (sv_objects sv)(t := new_stream peers t),
                   sv_streams := sv_streams sv @ [t]\<rparr>
      in if sv_stopping sv then stop_stream t sv1 else at_stream t (\<lambda>st. st\<lparr>sm_reading := True\<rparr>) sv1)"

definition registration_valid :: "nat \<Rightarrow> RegisterGateway \<Rightarrow> server \<Rightarrow> bool" where
  "registration_valid t registration sv =
     (\<not> sv_stopping sv \<and> \<not> sm_registered (sv_objects sv t) \<and> rg_protocol_version registration = 1 \<and>
      rg_gateway_id registration \<noteq> '''' \<and> rg_instance_id registration \<noteq> '''' \<and>
      owner_shard (rg_gateway_id registration) (to_shards (sv_options sv)) = to_self (sv_options sv) \<and>
      (\<not> to_mtls (sv_options sv) \<or>
       rg_gateway_id registration \<in> set (sm_peer_identities (sv_objects sv t))))"

definition register_stream ::
  "(MessageToGatewayFrame \<Rightarrow> nat) \<Rightarrow> nat \<Rightarrow> RegisterGateway \<Rightarrow> (server, unit) prog" where
  "register_stream byte_size t registration sv =
     (if \<not> registration_valid t registration sv then (Inr (), stop_stream t sv)
      else
        let key = (rg_gateway_id registration, rg_instance_id registration, rg_shard_id registration);
            sv1 = at_stream t (\<lambda>st. st\<lparr>sm_route := \<lparr>rt_gateway_id = rg_gateway_id registration,
                    rt_instance_id = rg_instance_id registration, rt_shard_id = rg_shard_id registration,
                    rt_token = rt_token (sm_route st)\<rparr>\<rparr>) sv;
            replace = (case sv_registered sv1 key of
                Some old \<Rightarrow> bind (\<lambda>s. (Inr (), s\<lparr>sv_registered := (sv_registered s)(key \<mapsto> t)\<rparr>))
                              (\<lambda>_. bind (stream_at old) (\<lambda>u s. (Inr (), stop_stream u s)))
              | None \<Rightarrow> (\<lambda>s. (Inr (), s\<lparr>sv_registered := (sv_registered s)(key \<mapsto> t)\<rparr>)))
        in bind replace
             (\<lambda>_ s. enqueue byte_size t
                (Register_result \<lparr>rs_accepted = True, rs_message_node_id = to_node_id (sv_options s),
                   rs_stream_epoch = rg_stream_epoch registration, rs_reason = ''''\<rparr>)
                (at_stream t (\<lambda>st. st\<lparr>sm_registered := True\<rparr>) s)) sv1)"

definition process_frame ::
  "(MessageToGatewayFrame \<Rightarrow> nat) \<Rightarrow> nat \<Rightarrow> GatewayToMessageFrame \<Rightarrow> (server, unit) prog" where
  "process_frame byte_size t frame sv =
     (if sm_stopping (sv_objects sv t) \<or> sv_stopping sv then (Inr (), stop_stream t sv)
      else bind
        (case frame of
           Register_gateway registration \<Rightarrow> register_stream byte_size t registration
         | _ \<Rightarrow>
           if \<not> sm_registered (sv_objects sv t) then (\<lambda>s. (Inr (), stop_stream t s))
           else (case frame of
               Heartbeat h \<Rightarrow> enqueue byte_size t
                 (Heartbeat_ack \<lparr>hb_sent_at_unix_ms = hb_sent_at_unix_ms h, hb_sequence = hb_sequence h\<rparr>)
             | Command command \<Rightarrow>
                 (\<lambda>s. (Inr (), s\<lparr>sv_commands := sv_commands s @ [(sm_route (sv_objects s t), command)]\<rparr>))
             | Client_forward_ack _ \<Rightarrow> ret ()
             | _ \<Rightarrow> (\<lambda>s. (Inr (), stop_stream t s))))
        (\<lambda>_ s. (Inr (), if sm_stopping (sv_objects s t) then s
                        else at_stream t (\<lambda>st. st\<lparr>sm_reading := True\<rparr>) s)) sv)"

section \<open>Callbacks\<close>

definition OnReadDone :: "nat \<Rightarrow> bool \<Rightarrow> GatewayToMessageFrame \<Rightarrow> server \<Rightarrow> server" where
  "OnReadDone t ok frame sv =
     (let sv1 = at_stream t (\<lambda>st. st\<lparr>sm_reading := False\<rparr>) sv in
      if \<not> ok \<or> sm_stopping (sv_objects sv t) then stop_stream t sv1
      else at_stream t (\<lambda>st. st\<lparr>sm_frame := Some frame\<rparr>) sv1)"

text \<open>The handed-over frame is processed in the protocol group; an exception stops the stream.\<close>

definition run_frame :: "(MessageToGatewayFrame \<Rightarrow> nat) \<Rightarrow> nat \<Rightarrow> server \<Rightarrow> server" where
  "run_frame byte_size t sv =
     (case sm_frame (sv_objects sv t) of
        None \<Rightarrow> sv
      | Some frame \<Rightarrow>
          (case process_frame byte_size t frame (at_stream t (\<lambda>st. st\<lparr>sm_frame := None\<rparr>) sv) of
             (Inr _, sv') \<Rightarrow> sv'
           | (Inl _, sv') \<Rightarrow> stop_stream t sv'))"

text \<open>The next \<^verbatim>\<open>write\<close> coroutine with the slot: it writes, or gives up on a stopping stream.\<close>

definition write_next :: "nat \<Rightarrow> server \<Rightarrow> server" where
  "write_next t sv =
     (let st = sv_objects sv t in
      case sm_pending st of
        [] \<Rightarrow> sv
      | (frame, units) # rest \<Rightarrow>
          if sm_stopping st
          then at_stream t (\<lambda>st. st\<lparr>sm_pending := rest\<rparr>) (sv\<lparr>sv_writes := release units (sv_writes sv)\<rparr>)
          else at_stream t (\<lambda>st. st\<lparr>sm_pending := rest, sm_writing := Some (frame, units),
                                   sm_written := sm_written st @ [frame]\<rparr>) sv)"

definition OnWriteDone :: "nat \<Rightarrow> bool \<Rightarrow> server \<Rightarrow> server" where
  "OnWriteDone t ok sv =
     (case sm_writing (sv_objects sv t) of
        None \<Rightarrow> sv
      | Some (frame, units) \<Rightarrow>
          at_stream t (\<lambda>st. let st1 = st\<lparr>sm_writing := None\<rparr>;
                                st2 = (if ok then st1 else stream_stop st1)
                            in if sm_stopping st2 then stream_finish st2 else st2)
            (sv\<lparr>sv_writes := release units (sv_writes sv)\<rparr>))"

definition on_grpc_done :: "nat \<Rightarrow> server \<Rightarrow> server" where
  "on_grpc_done t sv =
     (let st = sv_objects sv t; key = route_key (sm_route st);
          sv1 = (if sm_registered st \<and> sv_registered sv key = Some (rt_token (sm_route st))
                 then sv\<lparr>sv_registered := (sv_registered sv)(key := None)\<rparr> else sv)
      in sv1\<lparr>sv_streams := removeAll (rt_token (sm_route st)) (sv_streams sv1)\<rparr>)"

definition OnDone :: "nat \<Rightarrow> server \<Rightarrow> server" where
  "OnDone t sv = on_grpc_done t (at_stream t (\<lambda>st. st\<lparr>sm_finished := True\<rparr>) sv)"

section \<open>Calls of the transaction layer\<close>

definition transport_reply ::
  "(MessageToGatewayFrame \<Rightarrow> nat) \<Rightarrow> stream_route \<Rightarrow> MessageToGatewayFrame \<Rightarrow> (server, bool) prog" where
  "transport_reply byte_size route frame sv =
     (if sv_stopping sv then (Inr False, sv)
      else case sv_registered sv (route_key route) of
        None \<Rightarrow> (Inr False, sv)
      | Some t \<Rightarrow>
          if t \<noteq> rt_token route then (Inr False, sv)
          else catch (bind (bind (stream_at t) (\<lambda>u. enqueue byte_size u frame)) (\<lambda>_. ret True))
            (\<lambda>e. case e of
                   Overloaded \<Rightarrow> bind (stream_at t) (\<lambda>u s. (Inr False, stop_stream u s))
                 | Stopped \<Rightarrow> ret False
                 | _ \<Rightarrow> raise e) sv)"

definition transport_forward ::
  "(MessageToGatewayFrame \<Rightarrow> nat) \<Rightarrow> SessionLease \<Rightarrow> ClientForwardEnvelope \<Rightarrow>
   (server, ClientForwardStatus) prog" where
  "transport_forward byte_size lease envelope sv =
     (if sv_stopping sv then (Inr CLIENT_FORWARD_STATUS_OFFLINE, sv)
      else case sv_registered sv (ls_gateway_id lease, ls_instance_id lease, ls_shard_id lease) of
        None \<Rightarrow> (Inr CLIENT_FORWARD_STATUS_OFFLINE, sv)
      | Some t \<Rightarrow>
          catch (bind (bind (stream_at t) (\<lambda>u. enqueue byte_size u (Client_forward envelope)))
                  (\<lambda>_. ret CLIENT_FORWARD_STATUS_QUEUED))
            (\<lambda>e. case e of
                   Overloaded \<Rightarrow> ret CLIENT_FORWARD_STATUS_BACKPRESSURED
                 | Stopped \<Rightarrow> ret CLIENT_FORWARD_STATUS_OFFLINE
                 | _ \<Rightarrow> raise e) sv)"

definition transport_begin_stop :: "server \<Rightarrow> server" where
  "transport_begin_stop sv = fold stop_stream (sv_streams sv) (sv\<lparr>sv_stopping := True\<rparr>)"

section \<open>Interleavings\<close>

inductive transport_step :: "(MessageToGatewayFrame \<Rightarrow> nat) \<Rightarrow> server \<Rightarrow> server \<Rightarrow> bool" for byte_size where
  connect: "transport_step byte_size sv (Connect peers sv)"
| cancel: "t \<in> set (sv_streams sv) \<Longrightarrow> transport_step byte_size sv (stop_stream t sv)"
| read_done: "t \<in> set (sv_streams sv) \<Longrightarrow> sm_reading (sv_objects sv t) \<Longrightarrow>
    transport_step byte_size sv (OnReadDone t ok frame sv)"
| process: "1 \<le> t \<Longrightarrow> t \<le> sv_next_token sv \<Longrightarrow> transport_step byte_size sv (run_frame byte_size t sv)"
| write_frame: "1 \<le> t \<Longrightarrow> t \<le> sv_next_token sv \<Longrightarrow>
    sm_stopping (sv_objects sv t) \<or> sm_writing (sv_objects sv t) = None \<Longrightarrow>
    transport_step byte_size sv (write_next t sv)"
| write_done: "t \<in> set (sv_streams sv) \<Longrightarrow> sm_writing (sv_objects sv t) \<noteq> None \<Longrightarrow>
    transport_step byte_size sv (OnWriteDone t ok sv)"
| finished: "t \<in> set (sv_streams sv) \<Longrightarrow> sm_finishing (sv_objects sv t) \<Longrightarrow>
    transport_step byte_size sv (OnDone t sv)"
| reply: "transport_reply byte_size route frame sv = (r, sv') \<Longrightarrow> transport_step byte_size sv sv'"
| forward: "transport_forward byte_size lease envelope sv = (r, sv') \<Longrightarrow> transport_step byte_size sv sv'"
| stopping: "transport_step byte_size sv (transport_begin_stop sv)"

inductive transport_reachable ::
  "(MessageToGatewayFrame \<Rightarrow> nat) \<Rightarrow> transport_options \<Rightarrow> server \<Rightarrow> bool" for byte_size options where
  initial: "transport_reachable byte_size options (new_server options)"
| step: "transport_reachable byte_size options sv \<Longrightarrow> transport_step byte_size sv sv' \<Longrightarrow>
    transport_reachable byte_size options sv'"

section \<open>Invariant\<close>

definition held :: "stream \<Rightarrow> capacity_units list" where
  "held st = map snd (sm_pending st) @ (case sm_writing st of None \<Rightarrow> [] | Some (f, u) \<Rightarrow> [u])"

definition held_count :: "stream \<Rightarrow> int" where
  "held_count st = sum_list (map u_count (held st))"

definition held_bytes :: "stream \<Rightarrow> int" where
  "held_bytes st = sum_list (map u_bytes (held st))"

definition stream_ok :: "transport_options \<Rightarrow> nat \<Rightarrow> stream \<Rightarrow> bool" where
  "stream_ok options t st =
     (rt_token (sm_route st) = t \<and>
      (sm_finished st \<longrightarrow> sm_finishing st) \<and> (sm_finishing st \<longrightarrow> sm_stopping st) \<and>
      (sm_writing st \<noteq> None \<longrightarrow> \<not> sm_finishing st) \<and>
      (sm_stopping st \<and> sm_writing st = None \<longrightarrow> sm_finishing st) \<and>
      (sm_registered st \<longrightarrow> owner_shard (rt_gateway_id (sm_route st)) (to_shards options) = to_self options \<and>
         (to_mtls options \<longrightarrow> rt_gateway_id (sm_route st) \<in> set (sm_peer_identities st))) \<and>
      (\<not> sm_stopping st \<longrightarrow> sm_accepted st = sm_written st @ map fst (sm_pending st)) \<and>
      (\<exists>rest. sm_accepted st = sm_written st @ rest))"

definition index_ok :: "server \<Rightarrow> bool" where
  "index_ok sv =
     (\<forall>k t. sv_registered sv k = Some t \<longrightarrow>
        t \<in> set (sv_streams sv) \<and> sm_registered (sv_objects sv t) \<and> route_key (sm_route (sv_objects sv t)) = k)"

definition budget_ok :: "server \<Rightarrow> bool" where
  "budget_ok sv =
     (b_count (sv_writes sv) + (\<Sum>t = 1..sv_next_token sv. held_count (sv_objects sv t)) =
        int (to_max_writes (sv_options sv)) \<and>
      b_bytes (sv_writes sv) + (\<Sum>t = 1..sv_next_token sv. held_bytes (sv_objects sv t)) =
        int (to_max_write_bytes (sv_options sv)) \<and>
      0 \<le> b_count (sv_writes sv) \<and> 0 \<le> b_bytes (sv_writes sv) \<and>
      (\<forall>t \<in> {1..sv_next_token sv}. \<forall>u \<in> set (held (sv_objects sv t)). u_count u = 1 \<and> 0 \<le> u_bytes u))"

definition commands_ok :: "server \<Rightarrow> bool" where
  "commands_ok sv =
     (\<forall>(route, command) \<in> set (sv_commands sv).
        rt_token route \<in> {1..sv_next_token sv} \<and>
        owner_shard (rt_gateway_id route) (to_shards (sv_options sv)) = to_self (sv_options sv) \<and>
        (to_mtls (sv_options sv) \<longrightarrow>
           rt_gateway_id route \<in> set (sm_peer_identities (sv_objects sv (rt_token route)))))"

definition transport_inv :: "server \<Rightarrow> bool" where
  "transport_inv sv =
     (distinct (sv_streams sv) \<and>
      set (sv_streams sv) = {t \<in> {1..sv_next_token sv}. \<not> sm_finished (sv_objects sv t)} \<and>
      (\<forall>t \<in> {1..sv_next_token sv}. stream_ok (sv_options sv) t (sv_objects sv t)) \<and>
      index_ok sv \<and> budget_ok sv \<and> commands_ok sv)"

lemma at_stream_simps [simp]:
  "sv_options (at_stream t f sv) = sv_options sv" "sv_streams (at_stream t f sv) = sv_streams sv"
  "sv_registered (at_stream t f sv) = sv_registered sv" "sv_next_token (at_stream t f sv) = sv_next_token sv"
  "sv_stopping (at_stream t f sv) = sv_stopping sv" "sv_writes (at_stream t f sv) = sv_writes sv"
  "sv_commands (at_stream t f sv) = sv_commands sv"
  "sv_objects (at_stream t f sv) = (sv_objects sv)(t := f (sv_objects sv t))"
  by (simp_all add: at_stream_def)

lemma held_fields [simp]:
  "held (st\<lparr>sm_route := x\<rparr>) = held st" "held (st\<lparr>sm_registered := b\<rparr>) = held st"
  "held (st\<lparr>sm_stopping := b\<rparr>) = held st" "held (st\<lparr>sm_finishing := b\<rparr>) = held st"
  "held (st\<lparr>sm_finished := b\<rparr>) = held st" "held (st\<lparr>sm_reading := b\<rparr>) = held st"
  "held (st\<lparr>sm_frame := f\<rparr>) = held st" "held (st\<lparr>sm_accepted := a\<rparr>) = held st"
  "held (st\<lparr>sm_written := a\<rparr>) = held st" "held (new_stream p t) = []"
  by (simp_all add: held_def new_stream_def)

lemma stream_stop_same [simp]:
  "sm_route (stream_stop st) = sm_route st" "sm_registered (stream_stop st) = sm_registered st"
  "sm_finished (stream_stop st) = sm_finished st" "sm_peer_identities (stream_stop st) = sm_peer_identities st"
  "held (stream_stop st) = held st" "sm_stopping (stream_stop st) \<longleftrightarrow> sm_stopping st \<or> \<not> sm_finished st"
  "sm_frame (stream_stop st) = sm_frame st" "sm_pending (stream_stop st) = sm_pending st"
  "sm_writing (stream_stop st) = sm_writing st" "sm_accepted (stream_stop st) = sm_accepted st"
  "sm_written (stream_stop st) = sm_written st"
  by (simp_all add: stream_stop_def stream_finish_def)

lemma stream_stop_ok: "stream_ok options t st \<Longrightarrow> stream_ok options t (stream_stop st)"
  by (auto simp: stream_ok_def stream_stop_def stream_finish_def)

lemma sum_at:
  fixes g :: "'s \<Rightarrow> int"
  assumes "t \<in> {1..n::nat}"
  shows "(\<Sum>i = 1..n. g ((f(t := s)) i)) + g (f t) = (\<Sum>i = 1..n. g (f i)) + g s"
proof -
  have fin: "finite {1..n}" by simp
  have "(\<Sum>i \<in> {1..n} - {t}. g ((f(t := s)) i)) = (\<Sum>i \<in> {1..n} - {t}. g (f i))"
    by (rule sum.cong) auto
  then show ?thesis
    using sum.remove [OF fin assms, of "\<lambda>i. g ((f(t := s)) i)"] sum.remove [OF fin assms, of "\<lambda>i. g (f i)"] by simp
qed

text \<open>A change of one stream, together with the units it takes from the budget or returns.\<close>

lemma transport_inv_at:
  assumes inv: "transport_inv sv" and t: "t \<in> {1..sv_next_token sv}"
    and f: "stream_ok (sv_options sv) t (f (sv_objects sv t))"
      "sm_finished (f (sv_objects sv t)) = sm_finished (sv_objects sv t)"
      "sm_peer_identities (f (sv_objects sv t)) = sm_peer_identities (sv_objects sv t)"
      "sm_registered (sv_objects sv t) \<Longrightarrow> sm_registered (f (sv_objects sv t)) \<and>
         route_key (sm_route (f (sv_objects sv t))) = route_key (sm_route (sv_objects sv t))"
    and b: "b_count b + held_count (f (sv_objects sv t)) = b_count (sv_writes sv) + held_count (sv_objects sv t)"
      "b_bytes b + held_bytes (f (sv_objects sv t)) = b_bytes (sv_writes sv) + held_bytes (sv_objects sv t)"
      "0 \<le> b_count b" "0 \<le> b_bytes b"
      "\<forall>u \<in> set (held (f (sv_objects sv t))). u_count u = 1 \<and> 0 \<le> u_bytes u"
  shows "transport_inv (at_stream t f (sv\<lparr>sv_writes := b\<rparr>))"
proof -
  let ?sv = "at_stream t f (sv\<lparr>sv_writes := b\<rparr>)"
  have "budget_ok ?sv"
    using inv b t sum_at [OF t, of held_count "sv_objects sv" "f (sv_objects sv t)"]
      sum_at [OF t, of held_bytes "sv_objects sv" "f (sv_objects sv t)"]
    by (auto simp: transport_inv_def budget_ok_def)
  moreover have "index_ok ?sv" using inv f(4) by (auto simp: transport_inv_def index_ok_def)
  moreover have "commands_ok ?sv" using inv f(3) by (fastforce simp: transport_inv_def commands_ok_def)
  moreover have "set (sv_streams ?sv) = {t \<in> {1..sv_next_token ?sv}. \<not> sm_finished (sv_objects ?sv t)}"
    using inv f(2) by (auto simp: transport_inv_def)
  ultimately show ?thesis using inv f(1) by (simp add: transport_inv_def)
qed

lemma transport_inv_local:
  assumes "transport_inv sv" "t \<in> {1..sv_next_token sv}"
    "stream_ok (sv_options sv) t (f (sv_objects sv t))"
    "sm_finished (f (sv_objects sv t)) = sm_finished (sv_objects sv t)"
    "sm_peer_identities (f (sv_objects sv t)) = sm_peer_identities (sv_objects sv t)"
    "sm_registered (sv_objects sv t) \<Longrightarrow> sm_registered (f (sv_objects sv t)) \<and>
         route_key (sm_route (f (sv_objects sv t))) = route_key (sm_route (sv_objects sv t))"
    "held (f (sv_objects sv t)) = held (sv_objects sv t)"
  shows "transport_inv (at_stream t f sv)"
  using transport_inv_at [of sv t f "sv_writes sv"] assms
  by (simp add: held_count_def held_bytes_def) (auto simp: transport_inv_def budget_ok_def)

lemma transport_inv_stop:
  assumes "transport_inv sv" "t \<in> {1..sv_next_token sv}"
  shows "transport_inv (stop_stream t sv)"
  unfolding stop_stream_def using assms
  by (intro transport_inv_local) (auto simp: transport_inv_def stream_stop_ok)

lemma inv_stream: "transport_inv sv \<Longrightarrow> t \<in> {1..sv_next_token sv} \<Longrightarrow> stream_ok (sv_options sv) t (sv_objects sv t)"
  by (simp add: transport_inv_def)

lemma stream_ok_fields [simp]:
  "stream_ok options t (st\<lparr>sm_reading := r\<rparr>) = stream_ok options t st"
  "stream_ok options t (st\<lparr>sm_frame := x\<rparr>) = stream_ok options t st"
  by (simp_all add: stream_ok_def)

lemma transport_inv_reading:
  assumes "transport_inv sv" "t \<in> {1..sv_next_token sv}"
  shows "transport_inv (at_stream t (\<lambda>st. st\<lparr>sm_reading := r\<rparr>) sv)"
    "transport_inv (at_stream t (\<lambda>st. st\<lparr>sm_frame := x\<rparr>) sv)"
  by (rule transport_inv_local [OF assms]; simp add: inv_stream [OF assms])+

lemma inv_units:
  "transport_inv sv \<Longrightarrow> t \<in> {1..sv_next_token sv} \<Longrightarrow> u \<in> set (held (sv_objects sv t)) \<Longrightarrow>
   u_count u = 1 \<and> 0 \<le> u_bytes u"
  by (auto simp: transport_inv_def budget_ok_def)

lemma inv_budget: "transport_inv sv \<Longrightarrow> 0 \<le> b_count (sv_writes sv) \<and> 0 \<le> b_bytes (sv_writes sv)"
  by (simp add: transport_inv_def budget_ok_def)

lemma held_push:
  "held_count (st\<lparr>sm_pending := sm_pending st @ [(frame, u)], sm_accepted := a\<rparr>) = held_count st + u_count u"
  "held_bytes (st\<lparr>sm_pending := sm_pending st @ [(frame, u)], sm_accepted := a\<rparr>) = held_bytes st + u_bytes u"
  "set (held (st\<lparr>sm_pending := sm_pending st @ [(frame, u)]\<rparr>)) = insert u (set (held st))"
  by (auto simp: held_count_def held_bytes_def held_def)

lemma held_drop:
  assumes "sm_pending st = (frame, u) # rest"
  shows "held st = u # held (st\<lparr>sm_pending := rest\<rparr>)"
  using assms by (simp add: held_def)

lemma held_start:
  assumes "sm_pending st = (frame, u) # rest" "sm_writing st = None"
  shows "mset (held (st\<lparr>sm_pending := rest, sm_writing := Some (frame, u), sm_written := w\<rparr>)) = mset (held st)"
  using assms by (simp add: held_def)

lemma held_done:
  assumes "sm_writing st = Some (frame, u)"
  shows "held st = held (st\<lparr>sm_writing := None\<rparr>) @ [u]"
  using assms by (simp add: held_def)

lemma held_mset:
  assumes "mset (held a) = mset (held b)"
  shows "held_count a = held_count b" "held_bytes a = held_bytes b" "set (held a) = set (held b)"
proof -
  show "held_count a = held_count b" "held_bytes a = held_bytes b"
    using assms by (simp_all add: held_count_def held_bytes_def) (metis mset_map sum_mset_sum_list)+
  show "set (held a) = set (held b)" using assms by (rule mset_eq_setD)
qed

lemma enqueue_cases:
  assumes "enqueue byte_size t frame sv = (r, sv')"
  obtains (refused) e where "sv' = sv" "r = Inl e" "e = Overloaded \<or> e = Stopped"
  | (accepted) "r = Inr ()" "\<not> sm_stopping (sv_objects sv t)" "1 \<le> b_count (sv_writes sv)"
      "int (byte_size frame) \<le> b_bytes (sv_writes sv)"
      "sv' = at_stream t (\<lambda>st. st\<lparr>sm_pending := sm_pending st @ [(frame, \<lparr>u_count = 1, u_bytes = int (byte_size frame)\<rparr>)],
           sm_accepted := sm_accepted st @ [frame]\<rparr>)
         (sv\<lparr>sv_writes := sv_writes sv\<lparr>b_count := b_count (sv_writes sv) - 1,
               b_bytes := b_bytes (sv_writes sv) - int (byte_size frame)\<rparr>\<rparr>)"
proof (cases "sm_stopping (sv_objects sv t) \<or> b_count (sv_writes sv) < 1 \<or>
    b_bytes (sv_writes sv) < int (byte_size frame)")
  case True
  then have "sv' = sv \<and> (r = Inl Overloaded \<or> r = Inl Stopped)"
    using assms by (cases "sm_stopping (sv_objects sv t)") (simp_all add: enqueue_def acquire_def)
  with refused show thesis by blast
next
  case False
  with assms have "r = Inr ()" "sv' = at_stream t (\<lambda>st. st\<lparr>sm_pending := sm_pending st @
           [(frame, \<lparr>u_count = 1, u_bytes = int (byte_size frame)\<rparr>)], sm_accepted := sm_accepted st @ [frame]\<rparr>)
         (sv\<lparr>sv_writes := sv_writes sv\<lparr>b_count := b_count (sv_writes sv) - 1,
               b_bytes := b_bytes (sv_writes sv) - int (byte_size frame)\<rparr>\<rparr>)"
    by (simp_all add: enqueue_def acquire_def)
  with False show thesis by (intro accepted) simp_all
qed

lemma enqueue_inv:
  assumes "transport_inv sv" "t \<in> {1..sv_next_token sv}" "enqueue byte_size t frame sv = (r, sv')"
  shows "transport_inv sv' \<and> sv_next_token sv' = sv_next_token sv \<and> sv_options sv' = sv_options sv"
  using assms(3)
proof (cases rule: enqueue_cases)
  case refused
  with assms(1) show ?thesis by simp
next
  case accepted
  have "stream_ok (sv_options sv) t ((sv_objects sv t)\<lparr>sm_pending := sm_pending (sv_objects sv t) @
      [(frame, \<lparr>u_count = 1, u_bytes = int (byte_size frame)\<rparr>)], sm_accepted := sm_accepted (sv_objects sv t) @ [frame]\<rparr>)"
    using inv_stream [OF assms(1,2)] accepted(2) by (simp add: stream_ok_def) blast
  with accepted(3,4) inv_units [OF assms(1,2)] have "transport_inv sv'"
    unfolding accepted(5) by (intro transport_inv_at [OF assms(1,2)]) (simp_all add: held_push)
  with accepted(5) show ?thesis by simp
qed

lemma held_sums_cons:
  "held st = u # held st' \<Longrightarrow> held_count st = u_count u + held_count st' \<and> held_bytes st = u_bytes u + held_bytes st'"
  "held st = held st' @ [u] \<Longrightarrow> held_count st = u_count u + held_count st' \<and> held_bytes st = u_bytes u + held_bytes st'"
  by (simp_all add: held_count_def held_bytes_def)

lemma index_stream:
  "transport_inv sv \<Longrightarrow> sv_registered sv k = Some t \<Longrightarrow>
   t \<in> set (sv_streams sv) \<and> t \<in> {1..sv_next_token sv} \<and> sm_registered (sv_objects sv t) \<and>
   route_key (sm_route (sv_objects sv t)) = k"
  by (cases k) (auto simp: transport_inv_def index_ok_def)

lemma write_next_inv:
  assumes "transport_inv sv" "t \<in> {1..sv_next_token sv}"
    "sm_stopping (sv_objects sv t) \<or> sm_writing (sv_objects sv t) = None"
  shows "transport_inv (write_next t sv)"
proof (cases "sm_pending (sv_objects sv t)")
  case Nil
  with assms(1) show ?thesis by (simp add: write_next_def)
next
  case (Cons p rest)
  obtain frame u where p: "p = (frame, u)" by fastforce
  let ?st = "sv_objects sv t"
  have pend: "sm_pending ?st = (frame, u) # rest" using Cons p by simp
  note ok = inv_stream [OF assms(1,2)] and units = inv_units [OF assms(1,2)] and budget = inv_budget [OF assms(1)]
  show ?thesis
  proof (cases "sm_stopping ?st")
    case True
    have u: "u \<in> set (held ?st)" using held_drop [OF pend] by simp
    have "stream_ok (sv_options sv) t (?st\<lparr>sm_pending := rest\<rparr>)" using ok True by (simp add: stream_ok_def)
    then have "transport_inv (at_stream t (\<lambda>st. st\<lparr>sm_pending := rest\<rparr>) (sv\<lparr>sv_writes := release u (sv_writes sv)\<rparr>))"
      using held_drop [OF pend] held_sums_cons(1) [OF held_drop [OF pend]] units units [OF u] budget
      by (intro transport_inv_at [OF assms(1,2)]) (simp_all add: release_def)
    with True pend show ?thesis by (simp add: write_next_def)
  next
    case False
    with assms(3) have none: "sm_writing ?st = None" by simp
    let ?st' = "?st\<lparr>sm_pending := rest, sm_writing := Some (frame, u), sm_written := sm_written ?st @ [frame]\<rparr>"
    note same = held_mset [OF held_start [OF pend none, of "sm_written ?st @ [frame]"]]
    have "stream_ok (sv_options sv) t ?st'" using ok False none pend by (simp add: stream_ok_def) blast
    then have "transport_inv (at_stream t (\<lambda>st. st\<lparr>sm_pending := rest, sm_writing := Some (frame, u),
        sm_written := sm_written st @ [frame]\<rparr>) (sv\<lparr>sv_writes := sv_writes sv\<rparr>))"
      using same budget
      by (intro transport_inv_at [OF assms(1,2)] ballI) (simp_all only: units, simp_all)
    with False pend show ?thesis by (simp add: write_next_def)
  qed
qed

lemma OnWriteDone_inv:
  assumes "transport_inv sv" "t \<in> {1..sv_next_token sv}"
  shows "transport_inv (OnWriteDone t ok sv)"
proof (cases "sm_writing (sv_objects sv t)")
  case None
  with assms(1) show ?thesis by (simp add: OnWriteDone_def)
next
  case (Some p)
  obtain frame u where p: "p = (frame, u)" by fastforce
  let ?st = "sv_objects sv t"
  define f :: "stream \<Rightarrow> stream" where "f = (\<lambda>st. let st1 = st\<lparr>sm_writing := None\<rparr>;
    st2 = (if ok then st1 else stream_stop st1) in if sm_stopping st2 then stream_finish st2 else st2)"
  have wr: "sm_writing ?st = Some (frame, u)" using Some p by simp
  have held: "held (f ?st) = held (?st\<lparr>sm_writing := None\<rparr>)"
    by (simp add: f_def Let_def stream_finish_def)
  have same: "sm_finished (f ?st) = sm_finished ?st" "sm_peer_identities (f ?st) = sm_peer_identities ?st"
    "sm_registered (f ?st) = sm_registered ?st" "sm_route (f ?st) = sm_route ?st"
    by (simp_all add: f_def Let_def stream_finish_def)
  have ok: "stream_ok (sv_options sv) t (f ?st)"
    using inv_stream [OF assms(1,2)] wr
    by (cases ok; cases "sm_stopping ?st") (simp_all add: stream_ok_def f_def Let_def stream_stop_def stream_finish_def)
  note sums = held_sums_cons(2) [OF held_done [OF wr]]
  have u: "u \<in> set (held ?st)" using held_done [OF wr] by simp
  have sub: "set (held (f ?st)) \<subseteq> set (held ?st)" using held held_done [OF wr] by auto
  have "transport_inv (at_stream t f (sv\<lparr>sv_writes := release u (sv_writes sv)\<rparr>))"
    using ok same sums sub inv_units [OF assms(1,2)] inv_units [OF assms(1,2) u] inv_budget [OF assms(1)]
    by (intro transport_inv_at [OF assms(1,2)] ballI)
      (simp_all add: release_def held held_count_def held_bytes_def subset_iff)
  moreover have "OnWriteDone t ok sv = at_stream t f (sv\<lparr>sv_writes := release u (sv_writes sv)\<rparr>)"
    using wr by (simp add: OnWriteDone_def f_def)
  ultimately show ?thesis by simp
qed

lemma OnDone_inv:
  assumes "transport_inv sv" "t \<in> set (sv_streams sv)" "sm_finishing (sv_objects sv t)"
  shows "transport_inv (OnDone t sv)"
proof -
  let ?st = "sv_objects sv t" and ?sv = "OnDone t sv"
  have t: "t \<in> {1..sv_next_token sv}" using assms by (auto simp: transport_inv_def)
  have tok: "rt_token (sm_route ?st) = t" using inv_stream [OF assms(1) t] by (simp add: stream_ok_def)
  have objs: "sv_objects ?sv = (sv_objects sv)(t := ?st\<lparr>sm_finished := True\<rparr>)"
    and rest: "sv_options ?sv = sv_options sv" "sv_next_token ?sv = sv_next_token sv" "sv_writes ?sv = sv_writes sv"
      "sv_commands ?sv = sv_commands sv" "sv_streams ?sv = removeAll t (sv_streams sv)"
    by (simp_all add: OnDone_def on_grpc_done_def Let_def tok)
  have reg: "sv_registered ?sv k = (if k = route_key (sm_route ?st) \<and> sm_registered ?st \<and> sv_registered sv k = Some t
      then None else sv_registered sv k)" for k
    by (auto simp: OnDone_def on_grpc_done_def Let_def tok)
  have "index_ok ?sv" using assms(1) objs rest(5)
    by (auto simp: transport_inv_def index_ok_def reg split: if_splits)
  moreover have "budget_ok ?sv"
  proof -
    have "held_count (sv_objects ?sv i) = held_count (sv_objects sv i)"
      "held_bytes (sv_objects ?sv i) = held_bytes (sv_objects sv i)" "held (sv_objects ?sv i) = held (sv_objects sv i)" for i
      by (simp_all add: objs held_count_def held_bytes_def)
    then show ?thesis using assms(1) rest by (simp add: transport_inv_def budget_ok_def)
  qed
  moreover have "commands_ok ?sv" using assms(1) objs rest by (fastforce simp: transport_inv_def commands_ok_def)
  moreover have "stream_ok (sv_options sv) i (sv_objects ?sv i)" if "i \<in> {1..sv_next_token sv}" for i
    using inv_stream [OF assms(1) that] assms(3) by (cases "i = t") (simp_all add: objs stream_ok_def)
  ultimately show ?thesis using assms(1) rest objs by (auto simp: transport_inv_def distinct_removeAll)
qed

lemma Connect_inv:
  assumes "transport_inv sv"
  shows "transport_inv (Connect peers sv)"
proof -
  let ?t = "Suc (sv_next_token sv)"
  let ?sv = "sv\<lparr>sv_next_token := ?t, sv_objects := (sv_objects sv)(?t := new_stream peers ?t),
                sv_streams := sv_streams sv @ [?t]\<rparr>"
  have zero: "held_count (new_stream peers ?t) = 0" "held_bytes (new_stream peers ?t) = 0"
    by (simp_all add: held_count_def held_bytes_def)
  have old: "(\<Sum>i = 1..sv_next_token sv. g (((sv_objects sv)(?t := new_stream peers ?t)) i)) =
      (\<Sum>i = 1..sv_next_token sv. g (sv_objects sv i))" for g :: "stream \<Rightarrow> int"
    by (rule sum.cong) auto
  have "budget_ok ?sv" using assms zero old [of held_count] old [of held_bytes]
    by (auto simp: transport_inv_def budget_ok_def le_Suc_eq)
  moreover have "index_ok ?sv" unfolding index_ok_def
  proof (intro allI impI)
    fix k t assume "sv_registered ?sv k = Some t"
    with index_stream [OF assms] show "t \<in> set (sv_streams ?sv) \<and> sm_registered (sv_objects ?sv t) \<and>
      route_key (sm_route (sv_objects ?sv t)) = k" by fastforce
  qed
  moreover have "commands_ok ?sv" using assms by (fastforce simp: transport_inv_def commands_ok_def)
  moreover have "stream_ok (sv_options sv) ?t (new_stream peers ?t)" by (simp add: stream_ok_def new_stream_def)
  moreover have "\<not> sm_finished (new_stream peers ?t)" by (simp add: new_stream_def)
  ultimately have inv: "transport_inv ?sv" using assms by (auto simp: transport_inv_def le_Suc_eq)
  have t: "?t \<in> {1..sv_next_token ?sv}" by simp
  show ?thesis unfolding Connect_def Let_def
    using transport_inv_stop [OF inv t] transport_inv_reading(1) [OF inv t] by simp
qed

lemma stop_streams_inv:
  assumes "transport_inv sv" "set ts \<subseteq> {1..sv_next_token sv}"
  shows "transport_inv (fold stop_stream ts sv)"
  using assms
proof (induction ts arbitrary: sv)
  case (Cons t ts)
  then have "transport_inv (stop_stream t sv)" using transport_inv_stop by simp
  with Cons show ?case by (simp add: stop_stream_def)
qed simp

lemma begin_stop_inv:
  assumes "transport_inv sv"
  shows "transport_inv (transport_begin_stop sv)"
proof -
  have "index_ok (sv\<lparr>sv_stopping := True\<rparr>) = index_ok sv" "budget_ok (sv\<lparr>sv_stopping := True\<rparr>) = budget_ok sv"
    "commands_ok (sv\<lparr>sv_stopping := True\<rparr>) = commands_ok sv"
    by (simp_all add: index_ok_def budget_ok_def commands_ok_def)
  with assms have "transport_inv (sv\<lparr>sv_stopping := True\<rparr>)" by (simp add: transport_inv_def)
  then show ?thesis unfolding transport_begin_stop_def using assms
    by (intro stop_streams_inv) (auto simp: transport_inv_def)
qed

text \<open>Registration: the index is replaced first, then the old stream is stopped.\<close>

lemma replace_inv:
  assumes "transport_inv sv" "t \<in> {1..sv_next_token sv}" "\<not> sm_finished (sv_objects sv t)"
    "\<not> sm_registered (sv_objects sv t)"
    and r: "rt_token r = t" "route_key r = k"
      "owner_shard (rt_gateway_id r) (to_shards (sv_options sv)) = to_self (sv_options sv)"
      "to_mtls (sv_options sv) \<Longrightarrow> rt_gateway_id r \<in> set (sm_peer_identities (sv_objects sv t))"
  shows "transport_inv (at_stream t (\<lambda>st. st\<lparr>sm_route := r, sm_registered := True\<rparr>)
    (sv\<lparr>sv_registered := (sv_registered sv)(k \<mapsto> t)\<rparr>))"
proof -
  let ?f = "\<lambda>st. st\<lparr>sm_route := r, sm_registered := True\<rparr>"
  let ?sv = "at_stream t ?f (sv\<lparr>sv_registered := (sv_registered sv)(k \<mapsto> t)\<rparr>)"
  have "stream_ok (sv_options sv) t (?f (sv_objects sv t))"
    using inv_stream [OF assms(1,2)] r by (simp add: stream_ok_def)
  then have one: "transport_inv (at_stream t ?f sv)"
    using assms(4) by (intro transport_inv_local [OF assms(1,2)]) simp_all
  have "index_ok ?sv" unfolding index_ok_def
  proof (intro allI impI)
    fix k' u assume u: "sv_registered ?sv k' = Some u"
    show "u \<in> set (sv_streams ?sv) \<and> sm_registered (sv_objects ?sv u) \<and> route_key (sm_route (sv_objects ?sv u)) = k'"
    proof (cases "k' = k")
      case True
      with u assms(1-3) r show ?thesis by (auto simp: transport_inv_def)
    next
      case False
      with u have "sv_registered sv k' = Some u" by simp
      from index_stream [OF assms(1) this] assms(4) show ?thesis by auto
    qed
  qed
  moreover have "budget_ok ?sv = budget_ok (at_stream t ?f sv)" "commands_ok ?sv = commands_ok (at_stream t ?f sv)"
    by (simp_all add: budget_ok_def commands_ok_def)
  ultimately show ?thesis using one by (simp add: transport_inv_def)
qed

lemma stream_live: "transport_inv sv \<Longrightarrow> t \<in> {1..sv_next_token sv} \<Longrightarrow> \<not> sm_stopping (sv_objects sv t) \<Longrightarrow>
    \<not> sm_finished (sv_objects sv t)"
  using inv_stream [of sv t] by (auto simp: stream_ok_def)

definition registered_route :: "RegisterGateway \<Rightarrow> nat \<Rightarrow> stream_route" where
  "registered_route g t = \<lparr>rt_gateway_id = rg_gateway_id g, rt_instance_id = rg_instance_id g,
     rt_shard_id = rg_shard_id g, rt_token = t\<rparr>"

definition registered_key :: "RegisterGateway \<Rightarrow> stream_key" where
  "registered_key g = (rg_gateway_id g, rg_instance_id g, rg_shard_id g)"

lemma register_stream_eq:
  assumes "transport_inv sv" "t \<in> {1..sv_next_token sv}" "registration_valid t g sv"
  shows "register_stream byte_size t g sv =
    (let s1 = at_stream t (\<lambda>st. st\<lparr>sm_route := registered_route g t, sm_registered := True\<rparr>)
           (sv\<lparr>sv_registered := (sv_registered sv)(registered_key g \<mapsto> t)\<rparr>);
         s2 = (case sv_registered sv (registered_key g) of Some old \<Rightarrow> stop_stream old s1 | None \<Rightarrow> s1)
     in enqueue byte_size t (Register_result \<lparr>rs_accepted = True, rs_message_node_id = to_node_id (sv_options sv),
          rs_stream_epoch = rg_stream_epoch g, rs_reason = ''''\<rparr>) s2)"
proof -
  have tok: "rt_token (sm_route (sv_objects sv t)) = t" using inv_stream [OF assms(1,2)] by (simp add: stream_ok_def)
  have old: "old \<in> set (sv_streams sv) \<and> old \<noteq> t" if "sv_registered sv (registered_key g) = Some old" for old
    using index_stream [OF assms(1) that] assms(3) by (auto simp: registration_valid_def)
  show ?thesis
  proof (cases "sv_registered sv (registered_key g)")
    case None
    with assms(3) tok show ?thesis
      by (simp add: register_stream_def bind_def Let_def registered_key_def registered_route_def at_stream_def)
  next
    case (Some u)
    with assms(3) tok old [OF Some] show ?thesis
      by (simp add: register_stream_def bind_def Let_def registered_key_def registered_route_def at_stream_def
          stream_at_def stop_stream_def fun_upd_twist)
  qed
qed

lemma register_inv:
  assumes "transport_inv sv" "t \<in> {1..sv_next_token sv}" "\<not> sm_stopping (sv_objects sv t)"
    "register_stream byte_size t g sv = (r, sv')"
  shows "transport_inv sv' \<and> sv_next_token sv' = sv_next_token sv \<and> sv_options sv' = sv_options sv"
proof (cases "registration_valid t g sv")
  case False
  with assms transport_inv_stop [OF assms(1,2)] show ?thesis
    by (simp add: register_stream_def stop_stream_def) auto
next
  case True
  let ?s1 = "at_stream t (\<lambda>st. st\<lparr>sm_route := registered_route g t, sm_registered := True\<rparr>)
           (sv\<lparr>sv_registered := (sv_registered sv)(registered_key g \<mapsto> t)\<rparr>)"
  let ?s2 = "case sv_registered sv (registered_key g) of Some old \<Rightarrow> stop_stream old ?s1 | None \<Rightarrow> ?s1"
  have s1: "transport_inv ?s1"
    using True stream_live [OF assms(1-3)]
    by (intro replace_inv [OF assms(1,2)])
      (auto simp: registration_valid_def registered_route_def registered_key_def route_key_def)
  have s2: "transport_inv ?s2"
  proof (cases "sv_registered sv (registered_key g)")
    case (Some old)
    with index_stream [OF assms(1) Some] transport_inv_stop [OF s1, of old] show ?thesis by simp
  qed (simp add: s1)
  have same: "sv_next_token ?s2 = sv_next_token sv" "sv_options ?s2 = sv_options sv"
    by (simp_all add: stop_stream_def split: option.splits)
  have "transport_inv sv' \<and> sv_next_token sv' = sv_next_token ?s2 \<and> sv_options sv' = sv_options ?s2"
    by (rule enqueue_inv [OF s2 _ assms(4) [unfolded register_stream_eq [OF assms(1,2) True] Let_def]])
      (simp only: same assms(2))
  with same show ?thesis by simp
qed

lemma command_inv:
  assumes "transport_inv sv" "t \<in> {1..sv_next_token sv}" "sm_registered (sv_objects sv t)"
  shows "transport_inv (sv\<lparr>sv_commands := sv_commands sv @ [(sm_route (sv_objects sv t), command)]\<rparr>)"
proof -
  let ?sv = "sv\<lparr>sv_commands := sv_commands sv @ [(sm_route (sv_objects sv t), command)]\<rparr>"
  have "index_ok ?sv = index_ok sv" "budget_ok ?sv = budget_ok sv" by (simp_all add: index_ok_def budget_ok_def)
  moreover have "commands_ok ?sv" using assms inv_stream [OF assms(1,2)]
    by (auto simp: commands_ok_def transport_inv_def stream_ok_def)
  ultimately show ?thesis using assms(1) by (simp add: transport_inv_def)
qed

lemma process_frame_inv:
  assumes "transport_inv sv" "t \<in> {1..sv_next_token sv}" "process_frame byte_size t frame sv = (r, sv')"
  shows "transport_inv sv' \<and> sv_next_token sv' = sv_next_token sv"
proof (cases "sm_stopping (sv_objects sv t) \<or> sv_stopping sv")
  case True
  with assms transport_inv_stop [OF assms(1,2)] show ?thesis
    by (auto simp: process_frame_def stop_stream_def)
next
  case False
  define p where "p = (case frame of
           Register_gateway registration \<Rightarrow> register_stream byte_size t registration
         | _ \<Rightarrow>
           if \<not> sm_registered (sv_objects sv t) then (\<lambda>s. (Inr (), stop_stream t s))
           else (case frame of
               Heartbeat h \<Rightarrow> enqueue byte_size t
                 (Heartbeat_ack \<lparr>hb_sent_at_unix_ms = hb_sent_at_unix_ms h, hb_sequence = hb_sequence h\<rparr>)
             | Command command \<Rightarrow>
                 (\<lambda>s. (Inr (), s\<lparr>sv_commands := sv_commands s @ [(sm_route (sv_objects s t), command)]\<rparr>))
             | Client_forward_ack _ \<Rightarrow> ret ()
             | _ \<Rightarrow> (\<lambda>s. (Inr (), stop_stream t s))))"
  obtain r1 s1 where p1: "p sv = (r1, s1)" by fastforce
  have stop: "sv_next_token (stop_stream t sv) = sv_next_token sv" by (simp add: stop_stream_def)
  have "transport_inv s1 \<and> sv_next_token s1 = sv_next_token sv"
  proof (cases frame)
    case (Register_gateway g)
    with p1 have "register_stream byte_size t g sv = (r1, s1)" by (simp add: p_def)
    from register_inv [OF assms(1,2) _ this] False show ?thesis by simp
  next
    case (Heartbeat h)
    with p1 enqueue_inv [OF assms(1,2), of byte_size] transport_inv_stop [OF assms(1,2)] stop show ?thesis
      by (cases "sm_registered (sv_objects sv t)") (auto simp: p_def)
  next
    case (Command c)
    with p1 command_inv [OF assms(1,2), of c] transport_inv_stop [OF assms(1,2)] stop show ?thesis
      by (cases "sm_registered (sv_objects sv t)") (auto simp: p_def)
  next
    case (Client_forward_ack a)
    with p1 assms(1) transport_inv_stop [OF assms(1,2)] stop show ?thesis
      by (cases "sm_registered (sv_objects sv t)") (auto simp: p_def ret_def)
  next
    case No_frame
    with p1 transport_inv_stop [OF assms(1,2)] stop show ?thesis
      by (cases "sm_registered (sv_objects sv t)") (auto simp: p_def)
  qed
  then have s1: "transport_inv s1" "t \<in> {1..sv_next_token s1}" "sv_next_token s1 = sv_next_token sv"
    using assms(2) by simp_all
  have "process_frame byte_size t frame sv = bind p (\<lambda>_ s. (Inr (), if sm_stopping (sv_objects s t) then s
      else at_stream t (\<lambda>st. st\<lparr>sm_reading := True\<rparr>) s)) sv"
    using False by (simp add: process_frame_def p_def)
  with assms(3) p1 have "sv' = s1 \<or> sv' = at_stream t (\<lambda>st. st\<lparr>sm_reading := True\<rparr>) s1"
    by (cases r1) (auto simp: bind_def split: if_splits)
  with s1 transport_inv_reading(1) [OF s1(1,2)] show ?thesis by auto
qed

lemma run_frame_inv:
  assumes "transport_inv sv" "t \<in> {1..sv_next_token sv}"
  shows "transport_inv (run_frame byte_size t sv)"
proof (cases "sm_frame (sv_objects sv t)")
  case None
  with assms(1) show ?thesis by (simp add: run_frame_def)
next
  case (Some frame)
  let ?sv = "at_stream t (\<lambda>st. st\<lparr>sm_frame := None\<rparr>) sv"
  have start: "transport_inv ?sv" "t \<in> {1..sv_next_token ?sv}"
    using transport_inv_reading(2) [OF assms] assms(2) by simp_all
  obtain r s where p: "process_frame byte_size t frame ?sv = (r, s)" by fastforce
  from process_frame_inv [OF start p] have s: "transport_inv s" "t \<in> {1..sv_next_token s}" using start(2) by simp_all
  from s transport_inv_stop [OF s] Some p show ?thesis by (cases r) (simp_all add: run_frame_def)
qed

lemma OnReadDone_inv:
  assumes "transport_inv sv" "t \<in> {1..sv_next_token sv}"
  shows "transport_inv (OnReadDone t ok frame sv)"
proof -
  let ?sv = "at_stream t (\<lambda>st. st\<lparr>sm_reading := False\<rparr>) sv"
  have s: "transport_inv ?sv" "t \<in> {1..sv_next_token ?sv}"
    using transport_inv_reading(1) [OF assms] assms(2) by simp_all
  from transport_inv_stop [OF s] transport_inv_reading(2) [OF s] show ?thesis
    by (simp add: OnReadDone_def Let_def)
qed

text \<open>An answer finds its stream, and goes to no other.\<close>

lemma reply_cases:
  assumes "transport_inv sv" "transport_reply byte_size route frame sv = (r, sv')"
  obtains (dropped) "r = Inr False" "sv' = sv"
  | (full) "r = Inr False" "sv' = stop_stream (rt_token route) sv"
      "sv_registered sv (route_key route) = Some (rt_token route)"
  | (sent) "r = Inr True" "sv_registered sv (route_key route) = Some (rt_token route)"
      "enqueue byte_size (rt_token route) frame sv = (Inr (), sv')" "\<not> sv_stopping sv"
proof (cases "\<not> sv_stopping sv \<and> sv_registered sv (route_key route) = Some (rt_token route)")
  case False
  with assms(2) have "r = Inr False \<and> sv' = sv"
    by (auto simp: transport_reply_def split: option.splits if_splits)
  with dropped show thesis by blast
next
  case True
  then have at: "stream_at (rt_token route) sv = (Inr (rt_token route), sv)"
    using index_stream [OF assms(1), of "route_key route"] by (simp add: stream_at_def)
  obtain r1 s1 where e: "enqueue byte_size (rt_token route) frame sv = (r1, s1)" by fastforce
  from e show thesis
  proof (cases rule: enqueue_cases)
    case (refused x)
    with assms(2) True at e have "r = Inr False \<and> (sv' = sv \<or> sv' = stop_stream (rt_token route) sv)"
      by (auto simp: transport_reply_def bind_def catch_def ret_def)
    with True dropped full show thesis by blast
  next
    case accepted
    with assms(2) True at e have "r = Inr True \<and> sv' = s1"
      by (simp add: transport_reply_def bind_def catch_def ret_def)
    with True e accepted(1) sent show thesis by simp
  qed
qed

lemma forward_cases:
  assumes "transport_inv sv" "transport_forward byte_size lease envelope sv = (r, sv')"
  obtains (dropped) s where "r = Inr s" "s \<noteq> CLIENT_FORWARD_STATUS_QUEUED" "sv' = sv"
  | (sent) t where "r = Inr CLIENT_FORWARD_STATUS_QUEUED"
      "sv_registered sv (ls_gateway_id lease, ls_instance_id lease, ls_shard_id lease) = Some t"
      "enqueue byte_size t (Client_forward envelope) sv = (Inr (), sv')" "\<not> sv_stopping sv"
proof (cases "sv_stopping sv \<or> sv_registered sv (ls_gateway_id lease, ls_instance_id lease, ls_shard_id lease) = None")
  case True
  with assms(2) have "r = Inr CLIENT_FORWARD_STATUS_OFFLINE \<and> sv' = sv"
    by (auto simp: transport_forward_def split: if_splits)
  with dropped show thesis by blast
next
  case False
  then obtain t where t: "sv_registered sv (ls_gateway_id lease, ls_instance_id lease, ls_shard_id lease) = Some t" by auto
  then have at: "stream_at t sv = (Inr t, sv)" using index_stream [OF assms(1) t] by (simp add: stream_at_def)
  obtain r1 s1 where e: "enqueue byte_size t (Client_forward envelope) sv = (r1, s1)" by fastforce
  from e show thesis
  proof (cases rule: enqueue_cases)
    case (refused x)
    with assms(2) False t at e have "sv' = sv \<and> (r = Inr CLIENT_FORWARD_STATUS_BACKPRESSURED \<or>
        r = Inr CLIENT_FORWARD_STATUS_OFFLINE)"
      by (auto simp: transport_forward_def bind_def catch_def ret_def)
    with dropped show thesis by blast
  next
    case accepted
    with assms(2) False t at e have "r = Inr CLIENT_FORWARD_STATUS_QUEUED \<and> sv' = s1"
      by (simp add: transport_forward_def bind_def catch_def ret_def)
    with False t e accepted(1) sent show thesis by simp
  qed
qed

lemma stop_streams_options [simp]: "sv_options (fold stop_stream ts sv) = sv_options sv"
  by (induction ts arbitrary: sv) (simp_all add: stop_stream_def)

lemma enqueue_options: "enqueue byte_size t frame sv = (r, sv') \<Longrightarrow> sv_options sv' = sv_options sv"
  by (erule enqueue_cases) simp_all

lemma register_options: "register_stream byte_size t g sv = (r, sv') \<Longrightarrow> sv_options sv' = sv_options sv"
  by (auto simp: register_stream_def Let_def bind_def stop_stream_def stream_at_def
      split: if_splits option.splits prod.splits sum.splits dest!: enqueue_options)

lemma process_options: "process_frame byte_size t frame sv = (r, sv') \<Longrightarrow> sv_options sv' = sv_options sv"
  by (cases frame)
    (auto simp: process_frame_def bind_def stop_stream_def ret_def
      split: if_splits prod.splits sum.splits dest!: enqueue_options register_options)

lemma transport_step_options:
  assumes "transport_step byte_size sv sv'" "transport_inv sv"
  shows "sv_options sv' = sv_options sv"
  using assms(1)
proof cases
  case (reply route frame r)
  from assms(2) reply show ?thesis
    by (cases rule: reply_cases) (simp_all add: stop_stream_def enqueue_options)
next
  case (forward lease envelope r)
  from assms(2) forward show ?thesis
    by (cases rule: forward_cases) (simp_all add: enqueue_options)
next
  case (process t)
  then show ?thesis
    by (auto simp: run_frame_def stop_stream_def split: option.splits prod.splits sum.splits dest!: process_options)
qed (auto simp: Connect_def Let_def stop_stream_def OnReadDone_def write_next_def OnWriteDone_def OnDone_def
    on_grpc_done_def transport_begin_stop_def split: list.splits option.splits)

lemma transport_step_inv:
  assumes "transport_step byte_size sv sv'" "transport_inv sv"
  shows "transport_inv sv'"
proof -
  have live: "t \<in> {1..sv_next_token sv}" if "t \<in> set (sv_streams sv)" for t
    using that assms(2) by (auto simp: transport_inv_def)
  from assms(1) show ?thesis
  proof cases
    case (reply route frame r)
    from assms(2) reply show ?thesis
    proof (cases rule: reply_cases)
      case full
      with index_stream [OF assms(2) full(3)] transport_inv_stop [OF assms(2)] show ?thesis by simp
    next
      case sent
      with index_stream [OF assms(2) sent(2)] enqueue_inv [OF assms(2) _ sent(3)] show ?thesis by blast
    qed (simp add: assms(2))
  next
    case (forward lease envelope r)
    from assms(2) forward show ?thesis
    proof (cases rule: forward_cases)
      case (sent t)
      with index_stream [OF assms(2) sent(2)] enqueue_inv [OF assms(2) _ sent(3)] show ?thesis by blast
    qed (simp add: assms(2))
  qed (use assms(2) live in \<open>simp_all add: Connect_inv transport_inv_stop OnReadDone_inv run_frame_inv write_next_inv
      OnWriteDone_inv OnDone_inv begin_stop_inv\<close>)
qed

lemma transport_reachable_inv:
  assumes "transport_reachable byte_size options sv"
  shows "transport_inv sv \<and> sv_options sv = options"
  using assms
proof induction
  case initial
  show ?case
    by (simp add: new_server_def transport_inv_def index_ok_def budget_ok_def commands_ok_def)
next
  case (step sv sv')
  then show ?case using transport_step_inv transport_step_options by fastforce
qed

section \<open>Properties\<close>

text \<open>Two connections of the same gateway shard, the second replacing the first.\<close>

definition sample_transport :: transport_options where
  "sample_transport = \<lparr>to_node_id = ''m1'', to_shards = 1, to_self = 0, to_mtls = True,
     to_max_writes = 8, to_max_write_bytes = 1000\<rparr>"

definition sample_registration :: RegisterGateway where
  "sample_registration = \<lparr>rg_protocol_version = 1, rg_gateway_id = ''g'', rg_instance_id = ''i'',
     rg_stream_epoch = 3, rg_shard_id = 0, rg_capacity = 16\<rparr>"

definition sample_registering :: "nat \<Rightarrow> server \<Rightarrow> server" where
  "sample_registering t sv = OnReadDone t True (Register_gateway sample_registration) (Connect [''g''] sv)"

definition sample_server1 :: server where
  "sample_server1 = run_frame (\<lambda>_. 10) 1 (sample_registering 1 (new_server sample_transport))"


lemma reachable_intros:
  assumes "transport_reachable bs options sv"
  shows "transport_reachable bs options (Connect peers sv)"
    "t \<in> set (sv_streams sv) \<Longrightarrow> sm_reading (sv_objects sv t) \<Longrightarrow> transport_reachable bs options (OnReadDone t ok frame sv)"
    "1 \<le> t \<Longrightarrow> t \<le> sv_next_token sv \<Longrightarrow> transport_reachable bs options (run_frame bs t sv)"
  using assms by (blast intro: transport_reachable.step transport_step.intros)+

lemmas sample_transport_defs = sample_transport_def sample_registration_def sample_registering_def
  new_server_def Connect_def OnReadDone_def run_frame_def process_frame_def register_stream_def
  registration_valid_def Let_def bind_def enqueue_def acquire_def at_stream_def new_stream_def owner_shard_def

lemma sample_server1_eq:
  "sv_streams sample_server1 = [1]" "sv_next_token sample_server1 = 1" "\<not> sv_stopping sample_server1"
  "sv_options sample_server1 = sample_transport"
  "sv_registered sample_server1 = [(''g'', ''i'', 0) \<mapsto> 1]"
  "sv_writes sample_server1 = \<lparr>b_count = 7, b_bytes = 990\<rparr>"
  by (simp_all add: sample_server1_def sample_transport_defs)

lemma sample_server1_reachable: "transport_reachable (\<lambda>_. 10) sample_transport sample_server1"
  unfolding sample_server1_def sample_registering_def
  by (intro reachable_intros transport_reachable.initial) (simp_all add: sample_transport_defs)



text \<open>C5: A command result is queued on the stream its request came from and on no other: a reply whose
  stream is gone or replaced is dropped, never handed to a later stream of the same gateway, and the
  lookup of the stream never fails.\<close>

theorem reply_only_to_origin:
  assumes "transport_reachable byte_size options sv" "transport_reply byte_size route frame sv = (r, sv')"
  shows "(r = Inr False \<and> (\<forall>t. sm_accepted (sv_objects sv' t) = sm_accepted (sv_objects sv t))) \<or>
    (r = Inr True \<and> route_key (sm_route (sv_objects sv (rt_token route))) = route_key route \<and>
     sm_accepted (sv_objects sv' (rt_token route)) = sm_accepted (sv_objects sv (rt_token route)) @ [frame] \<and>
     (\<forall>t. t \<noteq> rt_token route \<longrightarrow> sv_objects sv' t = sv_objects sv t))"
proof -
  have inv: "transport_inv sv" using transport_reachable_inv [OF assms(1)] by blast
  from inv assms(2) show ?thesis
  proof (cases rule: reply_cases)
    case sent
    have "route_key (sm_route (sv_objects sv (rt_token route))) = route_key route"
      using index_stream [OF inv sent(2)] by blast
    with sent(1) sent(3) show ?thesis by (elim enqueue_cases) auto
  qed (simp_all add: stop_stream_def)
qed

theorem reply_only_to_origin_witness:
  "\<exists>r sv'. transport_reply (\<lambda>_. 10) \<lparr>rt_gateway_id = ''g'', rt_instance_id = ''i'', rt_shard_id = 0, rt_token = 2\<rparr>
       (Drain_notice [] []) sample_server1 = (r, sv') \<and> r = Inr False \<and>
     (\<forall>t. sm_accepted (sv_objects sv' t) = sm_accepted (sv_objects sample_server1 t))"
proof -
  obtain r sv' where run: "transport_reply (\<lambda>_. 10)
      \<lparr>rt_gateway_id = ''g'', rt_instance_id = ''i'', rt_shard_id = 0, rt_token = 2\<rparr> (Drain_notice [] [])
      sample_server1 = (r, sv')" by fastforce
  then have "r = Inr False" by (simp add: transport_reply_def sample_server1_eq route_key_def)
  with reply_only_to_origin [OF sample_server1_reachable run] run show ?thesis by auto
qed



text \<open>C24: On every stream frames are handed to gRPC in the order in which they were accepted and, while the
  stream is open, none is lost; the stream is never finished while a write is in flight, and a stopping
  stream without a write in flight is being finished.\<close>

theorem stream_write_order:
  assumes "transport_reachable byte_size options sv" "t \<in> {1..sv_next_token sv}"
  shows "(\<exists>rest. sm_accepted (sv_objects sv t) = sm_written (sv_objects sv t) @ rest) \<and>
    (\<not> sm_stopping (sv_objects sv t) \<longrightarrow>
       sm_accepted (sv_objects sv t) = sm_written (sv_objects sv t) @ map fst (sm_pending (sv_objects sv t))) \<and>
    (sm_writing (sv_objects sv t) \<noteq> None \<longrightarrow> \<not> sm_finishing (sv_objects sv t)) \<and>
    (sm_stopping (sv_objects sv t) \<and> sm_writing (sv_objects sv t) = None \<longrightarrow> sm_finishing (sv_objects sv t))"
  using inv_stream [of sv t] transport_reachable_inv [OF assms(1)] assms(2) by (auto simp: stream_ok_def)

theorem stream_write_order_witness:
  "transport_reachable (\<lambda>_. 10) sample_transport sample_server1 \<and>
   sm_accepted (sv_objects sample_server1 1) \<noteq> [] \<and>
   (\<exists>rest. sm_accepted (sv_objects sample_server1 1) = sm_written (sv_objects sample_server1 1) @ rest)"
  using stream_write_order [OF sample_server1_reachable, of 1] sample_server1_reachable
  by (simp add: sample_server1_eq) (simp add: sample_server1_def sample_transport_defs)

text \<open>C32: The write budget of the shard is conserved: what is available plus what the queued and in-flight
  frames of all streams hold is the configured number of frames and bytes, and neither goes negative.\<close>

theorem write_budget_conserved:
  assumes "transport_reachable byte_size options sv"
  shows "b_count (sv_writes sv) + (\<Sum>t = 1..sv_next_token sv. held_count (sv_objects sv t)) =
      int (to_max_writes options) \<and>
    b_bytes (sv_writes sv) + (\<Sum>t = 1..sv_next_token sv. held_bytes (sv_objects sv t)) =
      int (to_max_write_bytes options) \<and>
    0 \<le> b_count (sv_writes sv) \<and> 0 \<le> b_bytes (sv_writes sv)"
  using transport_reachable_inv [OF assms] by (simp add: transport_inv_def budget_ok_def)

theorem write_budget_conserved_witness:
  "transport_reachable (\<lambda>_. 10) sample_transport sample_server1 \<and>
   b_bytes (sv_writes sample_server1) + (\<Sum>t = 1..1. held_bytes (sv_objects sample_server1 t)) = 1000"
  using write_budget_conserved [OF sample_server1_reachable] sample_server1_reachable
  by (simp add: sample_server1_eq sample_transport_def)

text \<open>C33: Every command that reaches the transaction layer came over a stream whose gateway belongs to this
  shard and, with mutual TLS, whose certificate carries the gateway identity of the route.\<close>

theorem commands_authenticated:
  assumes "transport_reachable byte_size options sv" "(route, command) \<in> set (sv_commands sv)"
  shows "owner_shard (rt_gateway_id route) (to_shards options) = to_self options \<and>
    (to_mtls options \<longrightarrow>
       rt_gateway_id route \<in> set (sm_peer_identities (sv_objects sv (rt_token route))))"
  using transport_reachable_inv [OF assms(1)] assms(2) by (auto simp: transport_inv_def commands_ok_def)

definition sample_command :: CommandEnvelope where
  "sample_command = \<lparr>cmd_request_id = ''q'', cmd_actor_uid = 7, cmd_connection_id = ''c'',
     cmd_connection_generation = 1, cmd_operation = OP_PULL_FRIEND_LIST, cmd_conversation_id = 0,
     cmd_packet = [], cmd_actor_device_id = ''d''\<rparr>"

definition sample_server3 :: server where
  "sample_server3 = run_frame (\<lambda>_. 10) 1 (OnReadDone 1 True (Command sample_command) sample_server1)"

lemma sample_server3_reachable: "transport_reachable (\<lambda>_. 10) sample_transport sample_server3"
  unfolding sample_server3_def
  by (intro reachable_intros sample_server1_reachable)
    (simp_all add: sample_server1_eq OnReadDone_def at_stream_def Let_def, simp_all add: sample_server1_def sample_transport_defs)

theorem commands_authenticated_witness:
  "\<exists>route. (route, sample_command) \<in> set (sv_commands sample_server3) \<and>
     rt_gateway_id route \<in> set (sm_peer_identities (sv_objects sample_server3 (rt_token route)))"
proof -
  have "(\<lparr>rt_gateway_id = ''g'', rt_instance_id = ''i'', rt_shard_id = 0, rt_token = 1\<rparr>, sample_command) \<in> set (sv_commands sample_server3)"
    by (simp add: sample_server3_def sample_server1_def sample_transport_defs)
  with commands_authenticated [OF sample_server3_reachable this] show ?thesis
    by (auto simp: sample_transport_def)
qed

end
