(* ===== verification/Mysql_Session.thy ===== *)
theory Mysql_Session
  imports Prelude
begin

text \<open>
  A MySQL session as \<^verbatim>\<open>common/reactor/mysql_connection.cc\<close> and
  \<^verbatim>\<open>message/io/driver.hh\<close> use it.  A store operation is a \<open>script\<close>: a tree of
  statements, each with the value of the local result variable at that point
  (what a \<^verbatim>\<open>catch\<close> block would see), the effect of the statement on the rows and
  the rest of the operation.  Every statement may be answered, refused, or
  carried out with its answer lost: the \<open>faults\<close> of the session decide.  The
  main lemma, \<open>transaction_cases\<close>, says once and for all what a transaction
  leaves behind under every fault schedule.
\<close>

section \<open>Sessions and scripts\<close>

datatype fault = Fine | Refused string | Lost string

datatype ending = Commit | Rollback

datatype ('d, 'a) script =
    Return 'a
  | Finish ending 'a 'a
  | Step 'a "'d \<times> int \<Rightarrow> string + ('d \<times> int)" "'d \<times> int \<Rightarrow> ('d, 'a) script"

record 'd conn =
  rows :: 'd
  auto_id :: int
  saved :: "'d option"
  aborted :: bool
  faults :: "fault list"

definition committed :: "'d conn \<Rightarrow> 'd" where
  "committed c = (case saved c of None \<Rightarrow> rows c | Some d \<Rightarrow> d)"

definition next_fault :: "'d conn \<Rightarrow> fault \<times> 'd conn" where
  "next_fault c = (case faults c of [] \<Rightarrow> (Fine, c) | f # fs \<Rightarrow> (f, c\<lparr>faults := fs\<rparr>))"

definition abort :: "'d conn \<Rightarrow> 'd conn" where
  "abort c = c\<lparr>rows := committed c, saved := None, aborted := True\<rparr>"

fun end_tx :: "ending \<Rightarrow> 'd conn \<Rightarrow> 'd conn" where
  "end_tx Commit c = c\<lparr>saved := None\<rparr>"
| "end_tx Rollback c = c\<lparr>rows := committed c, saved := None\<rparr>"

definition aborted_error :: exn where
  "aborted_error = RuntimeError ''MySQL operation aborted''"

text \<open>One statement: its effect, its result for the continuation.\<close>

definition query ::
  "'a \<Rightarrow> ('d \<times> int \<Rightarrow> string + ('r \<times> 'd \<times> int)) \<Rightarrow> ('r \<Rightarrow> ('d, 'a) script) \<Rightarrow> ('d, 'a) script" where
  "query l f k =
     Step l (\<lambda>s. case f s of Inl m \<Rightarrow> Inl m | Inr (_, s') \<Rightarrow> Inr s')
            (\<lambda>s. case f s of Inl m \<Rightarrow> Return l | Inr (x, _) \<Rightarrow> k x)"

definition select :: "'a \<Rightarrow> ('d \<Rightarrow> 'r) \<Rightarrow> ('r \<Rightarrow> ('d, 'a) script) \<Rightarrow> ('d, 'a) script" where
  "select l f k = Step l Inr (\<lambda>(d, n). k (f d))"

definition exec :: "'a \<Rightarrow> ('d \<Rightarrow> string + 'd) \<Rightarrow> ('d, 'a) script \<Rightarrow> ('d, 'a) script" where
  "exec l f k = Step l (\<lambda>(d, n). case f d of Inl m \<Rightarrow> Inl m | Inr d' \<Rightarrow> Inr (d', n)) (\<lambda>_. k)"

text \<open>\<^verbatim>\<open>mysql_store::query\<close> and \<^verbatim>\<open>mysql_connection::command\<close> on a session.\<close>

primrec run :: "('d, 'a) script \<Rightarrow> 'd conn \<Rightarrow> ((exn \<times> 'a) + 'a) \<times> 'd conn" where
  "run (Return a) c = (Inr a, c)"
| "run (Finish e l a) c =
     (if aborted c then (Inl (aborted_error, l), c)
      else let (flt, c1) = next_fault c in
        case flt of
          Fine \<Rightarrow> (Inr a, end_tx e c1)
        | Refused m \<Rightarrow> (Inl (RuntimeError m, l), c1)
        | Lost m \<Rightarrow> (Inl (RuntimeError m, l), end_tx e c1))"
| "run (Step l f k) c =
     (if aborted c then (Inl (aborted_error, l), c)
      else let (flt, c1) = next_fault c; s = (rows c1, auto_id c1) in
        case flt of
          Refused m \<Rightarrow> (Inl (RuntimeError m, l), c1)
        | Fine \<Rightarrow>
            (case f s of
               Inl m \<Rightarrow> (Inl (RuntimeError m, l), c1)
             | Inr s' \<Rightarrow> run (k s) (c1\<lparr>rows := fst s', auto_id := snd s'\<rparr>))
        | Lost m \<Rightarrow>
            (case f s of
               Inl m' \<Rightarrow> (Inl (RuntimeError m', l), c1)
             | Inr s' \<Rightarrow> (Inl (RuntimeError m, l), c1\<lparr>rows := fst s', auto_id := snd s'\<rparr>)))"

text \<open>
  The shape every transactional \<^verbatim>\<open>execute\<close> of \<^verbatim>\<open>mysql_store.cc\<close> has: start a
  transaction, run the body, and on an exception abort the connection and
  leave the outcome to the handler.
\<close>

definition transaction ::
  "('d, 'a) script \<Rightarrow> (exn \<Rightarrow> 'a \<Rightarrow> exn + 'a) \<Rightarrow> ('d conn, 'a) prog" where
  "transaction body handler c =
     (if aborted c then (Inl aborted_error, c)
      else let (flt, c1) = next_fault c; c2 = c1\<lparr>saved := Some (rows c1)\<rparr> in
        case flt of
          Refused m \<Rightarrow> (Inl (RuntimeError m), c1)
        | Lost m \<Rightarrow> (Inl (RuntimeError m), c2)
        | Fine \<Rightarrow>
            (case run body c2 of
               (Inr a, c3) \<Rightarrow> (Inr a, c3)
             | (Inl (e, l), c3) \<Rightarrow> (handler e l, abort c3)))"

definition rethrow :: "exn \<Rightarrow> 'a \<Rightarrow> exn + 'a" where
  "rethrow e l = Inl e"

definition autocommit :: "('d, 'a) script \<Rightarrow> ('d conn, 'a) prog" where
  "autocommit body c =
     (case run body c of
        (Inr a, c1) \<Rightarrow> (Inr a, c1)
      | (Inl (e, _), c1) \<Rightarrow> (Inl e, c1))"

text \<open>\<^verbatim>\<open>driver::execute\<close>: reconnect an aborted session, run, abort on an exception.\<close>

definition connect_mysql :: "('d conn, unit) prog" where
  "connect_mysql c =
     (let (flt, c1) = next_fault c in
        case flt of
          Fine \<Rightarrow> (Inr (), c1\<lparr>aborted := False\<rparr>)
        | Refused m \<Rightarrow> (Inl (RuntimeError m), abort c1)
        | Lost m \<Rightarrow> (Inl (RuntimeError m), abort c1))"

definition driver_execute :: "bool \<Rightarrow> ('d conn, 'a) prog \<Rightarrow> ('d conn, 'a) prog" where
  "driver_execute stopping operation =
     (\<lambda>c. if stopping then (Inl Stopped, c)
          else bind (if aborted c then connect_mysql else ret ())
            (\<lambda>_ c1. case operation c1 of
                      (Inr a, c2) \<Rightarrow> (Inr a, c2)
                    | (Inl e, c2) \<Rightarrow> (Inl e, abort c2)) c)"

section \<open>Runs without faults\<close>

primrec clean :: "('d, 'a) script \<Rightarrow> 'd \<times> int \<Rightarrow> string + (ending option \<times> 'a \<times> 'd \<times> int)" where
  "clean (Return a) s = Inr (None, a, s)"
| "clean (Finish e l a) s = Inr (Some e, a, s)"
| "clean (Step l f k) s = (case f s of Inl m \<Rightarrow> Inl m | Inr s' \<Rightarrow> clean (k s) s')"

primrec closes :: "('d, 'a) script \<Rightarrow> bool" where
  "closes (Return a) = False"
| "closes (Finish e l a) = True"
| "closes (Step l f k) = (\<forall>s. (\<exists>s'. f s = Inr s') \<longrightarrow> closes (k s))"

primrec plain :: "('d, 'a) script \<Rightarrow> bool" where
  "plain (Return a) = True"
| "plain (Finish e l a) = False"
| "plain (Step l f k) = (\<forall>s. (\<exists>s'. f s = Inr s') \<longrightarrow> plain (k s))"

text \<open>Every statement of a script moves the rows within a relation.\<close>

primrec steps_in :: "('d \<times> int \<Rightarrow> 'd \<times> int \<Rightarrow> bool) \<Rightarrow> ('d, 'a) script \<Rightarrow> bool" where
  "steps_in R (Return a) = True"
| "steps_in R (Finish e l a) = True"
| "steps_in R (Step l f k) = (\<forall>s s'. f s = Inr s' \<longrightarrow> R s s' \<and> steps_in R (k s))"

definition ids_grow :: "('d, 'a) script \<Rightarrow> bool" where
  "ids_grow b = steps_in (\<lambda>s t. snd s \<le> snd t) b"

text \<open>The outcome of a transaction when no statement fails.\<close>

definition tx_result :: "('d, 'a) script \<Rightarrow> 'd \<times> int \<Rightarrow> string + 'a" where
  "tx_result b s = (case clean b s of Inl m \<Rightarrow> Inl m | Inr (_, a, _) \<Rightarrow> Inr a)"

definition tx_rows :: "('d, 'a) script \<Rightarrow> 'd \<times> int \<Rightarrow> 'd" where
  "tx_rows b s = (case clean b s of Inr (Some Commit, _, d, _) \<Rightarrow> d | _ \<Rightarrow> fst s)"

definition tx_auto :: "('d, 'a) script \<Rightarrow> 'd \<times> int \<Rightarrow> int" where
  "tx_auto b s = (case clean b s of Inr (_, _, _, n) \<Rightarrow> n | Inl _ \<Rightarrow> snd s)"

text \<open>
  An operation keeps a property of the committed rows and the id counter under
  every fault schedule, and leaves no transaction open when it returns.
\<close>

definition keeps :: "('d \<Rightarrow> int \<Rightarrow> bool) \<Rightarrow> ('d conn, 'a) prog \<Rightarrow> bool" where
  "keeps P operation =
     (\<forall>c r c'. saved c = None \<longrightarrow> \<not> aborted c \<longrightarrow> P (rows c) (auto_id c) \<longrightarrow> operation c = (r, c') \<longrightarrow>
        P (committed c') (auto_id c') \<and> (\<forall>a. r = Inr a \<longrightarrow> saved c' = None))"

section \<open>Lemmas\<close>

lemma clean_select [script_simps, simp]: "clean (select l f k) s = clean (k (f (fst s))) s"
  by (cases s) (simp add: select_def)

lemma clean_exec [script_simps, simp]:
  "clean (exec l f k) s = (case f (fst s) of Inl m \<Rightarrow> Inl m | Inr d \<Rightarrow> clean k (d, snd s))"
  by (cases s) (simp add: exec_def split: sum.splits)

lemma clean_query [script_simps, simp]:
  "clean (query l f k) s = (case f s of Inl m \<Rightarrow> Inl m | Inr (x, s') \<Rightarrow> clean (k x) s')"
  by (simp add: query_def split: sum.splits prod.splits)

lemma closes_select [script_simps, simp]: "closes (select l f k) \<longleftrightarrow> (\<forall>d. closes (k (f d)))"
  by (auto simp: select_def)

lemma closes_exec [script_simps]: "closes k \<Longrightarrow> closes (exec l f k)"
  by (simp add: exec_def)

lemma closes_query [script_simps]: "(\<And>x. closes (k x)) \<Longrightarrow> closes (query l f k)"
  by (auto simp: query_def split: sum.splits prod.splits)

lemma plain_select [script_simps, simp]: "plain (select l f k) \<longleftrightarrow> (\<forall>d. plain (k (f d)))"
  by (auto simp: select_def)

lemma plain_exec [script_simps]: "plain k \<Longrightarrow> plain (exec l f k)"
  by (simp add: exec_def)

lemma steps_in_select [script_simps]:
  "(\<And>s. R s s) \<Longrightarrow> (\<And>d. steps_in R (k (f d))) \<Longrightarrow> steps_in R (select l f k)"
  by (auto simp: select_def)

lemma steps_in_exec [script_simps]:
  "(\<And>d d' n. f d = Inr d' \<Longrightarrow> R (d, n) (d', n)) \<Longrightarrow> steps_in R k \<Longrightarrow> steps_in R (exec l f k)"
  by (auto simp: exec_def split: sum.splits)

lemma next_fault_same:
  assumes "next_fault c = (f, c1)"
  shows "rows c1 = rows c" "auto_id c1 = auto_id c" "saved c1 = saved c" "aborted c1 = aborted c"
    "committed c1 = committed c"
  using assms by (auto simp: next_fault_def committed_def split: list.splits option.splits)

lemma next_fault_none [simp]: "faults c = [] \<Longrightarrow> next_fault c = (Fine, c)"
  by (simp add: next_fault_def)

lemma abort_simps [simp]:
  "rows (abort c) = committed c" "saved (abort c) = None" "aborted (abort c)"
  "committed (abort c) = committed c" "auto_id (abort c) = auto_id c"
  by (simp_all add: abort_def committed_def)

text \<open>The body of a transaction, under every fault schedule.\<close>

lemma run_cases:
  assumes "closes b" "saved c = Some d0" "\<not> aborted c" "run b c = (r, c')"
  shows "(\<exists>e a s. clean b (rows c, auto_id c) = Inr (Some e, a, s) \<and> r = Inr a \<and> saved c' = None \<and>
            \<not> aborted c' \<and> rows c' = (case e of Commit \<Rightarrow> fst s | Rollback \<Rightarrow> d0) \<and> auto_id c' = snd s) \<or>
         (\<exists>m l. r = Inl (RuntimeError m, l) \<and>
            (committed c' = d0 \<or>
             (\<exists>a s. clean b (rows c, auto_id c) = Inr (Some Commit, a, s) \<and> committed c' = fst s \<and>
                auto_id c' = snd s)))"
  using assms
proof (induction b arbitrary: c)
  case (Return a)
  then show ?case by simp
next
  case (Finish e l a)
  obtain flt c1 where nf: "next_fault c = (flt, c1)" by fastforce
  show ?case
  proof (cases e)
    case Commit
    with Finish nf show ?thesis
      by (cases flt) (auto simp: committed_def dest: next_fault_same)
  next
    case Rollback
    with Finish nf show ?thesis
      by (cases flt) (auto simp: committed_def dest: next_fault_same)
  qed
next
  case (Step l f k)
  obtain flt c1 where nf: "next_fault c = (flt, c1)" by fastforce
  note same = next_fault_same [OF nf]
  let ?s = "(rows c, auto_id c)"
  show ?case
  proof (cases "flt = Fine \<and> (\<exists>s'. f ?s = Inr s')")
    case True
    then obtain s' where f: "f ?s = Inr s'" by blast
    let ?c = "c1\<lparr>rows := fst s', auto_id := snd s'\<rparr>"
    have "run (k ?s) ?c = (r, c')" using Step.prems nf True f same by simp
    moreover have "saved ?c = Some d0" "\<not> aborted ?c" using Step.prems same by simp_all
    moreover have "closes (k ?s)" using Step.prems f by auto
    ultimately show ?thesis using Step.IH [of "k ?s" ?c] f by auto
  next
    case False
    with Step.prems nf same show ?thesis
      by (cases flt; cases "f ?s") (auto simp: committed_def)
  qed
qed

text \<open>
  What a transaction leaves behind: it returned after its COMMIT or ROLLBACK
  (\<open>tx_result\<close>, \<open>tx_rows\<close>), or it failed and the committed rows are the old
  ones, or it failed and COMMIT had already taken effect.
\<close>

lemma transaction_cases:
  assumes "closes b" "saved c = None" "\<not> aborted c" "transaction b h c = (r, c')"
  obtains
    (returned) a where "tx_result b (rows c, auto_id c) = Inr a" "r = Inr a"
      "committed c' = tx_rows b (rows c, auto_id c)" "saved c' = None" "\<not> aborted c'"
      "auto_id c' = tx_auto b (rows c, auto_id c)"
  | (not_started) m where "r = Inl (RuntimeError m)" "committed c' = rows c"
  | (failed) m l where "r = h (RuntimeError m) l" "committed c' = rows c" "saved c' = None" "aborted c'"
  | (unknown) m l where "r = h (RuntimeError m) l"
      "committed c' = tx_rows b (rows c, auto_id c)" "saved c' = None" "aborted c'"
      "auto_id c' = tx_auto b (rows c, auto_id c)"
proof -
  obtain flt c1 where nf: "next_fault c = (flt, c1)" by fastforce
  note same = next_fault_same [OF nf]
  let ?c2 = "c1\<lparr>saved := Some (rows c1)\<rparr>"
  show thesis
  proof (cases flt)
    case (Refused m)
    with assms nf same show thesis
      by (intro not_started [of m]) (auto simp: transaction_def committed_def)
  next
    case (Lost m)
    with assms nf same show thesis
      by (intro not_started [of m]) (auto simp: transaction_def committed_def)
  next
    case Fine
    obtain r3 c3 where run: "run b ?c2 = (r3, c3)" by fastforce
    have cases: "(\<exists>e a s. clean b (rows c, auto_id c) = Inr (Some e, a, s) \<and> r3 = Inr a \<and> saved c3 = None \<and>
            \<not> aborted c3 \<and> rows c3 = (case e of Commit \<Rightarrow> fst s | Rollback \<Rightarrow> rows c) \<and> auto_id c3 = snd s) \<or>
         (\<exists>m l. r3 = Inl (RuntimeError m, l) \<and>
            (committed c3 = rows c \<or>
             (\<exists>a s. clean b (rows c, auto_id c) = Inr (Some Commit, a, s) \<and> committed c3 = fst s \<and>
                auto_id c3 = snd s)))"
      using run_cases [OF assms(1) _ _ run, of "rows c"] assms(3) same by simp
    have tr: "(r, c') = (case (r3, c3) of (Inr a, c3) \<Rightarrow> (Inr a, c3) | (Inl (e, l), c3) \<Rightarrow> (h e l, abort c3))"
      using assms(3,4) nf Fine run by (simp add: transaction_def)
    from cases show thesis
    proof (elim disjE exE conjE)
      fix e a s
      assume "clean b (rows c, auto_id c) = Inr (Some e, a, s)" "r3 = Inr a" "saved c3 = None"
        "\<not> aborted c3" "rows c3 = (case e of Commit \<Rightarrow> fst s | Rollback \<Rightarrow> rows c)"
        "auto_id c3 = snd s"
      with tr show thesis
        by (intro returned [of a]; cases e; cases s)
          (auto simp: tx_result_def tx_rows_def tx_auto_def committed_def)
    next
      fix m l
      assume "r3 = Inl (RuntimeError m, l)" "committed c3 = rows c"
      with tr show thesis by (intro failed [of m l]) simp_all
    next
      fix m l a s
      assume "r3 = Inl (RuntimeError m, l)" "clean b (rows c, auto_id c) = Inr (Some Commit, a, s)"
        "committed c3 = fst s" "auto_id c3 = snd s"
      with tr show thesis by (intro unknown [of m l]; cases s) (simp_all add: tx_rows_def tx_auto_def)
    qed
  qed
qed

text \<open>Without faults a transaction returns the result of its script.\<close>

lemma run_no_faults:
  assumes "faults c = []" "\<not> aborted c" "clean b (rows c, auto_id c) = Inr (e, a, d, n)"
  shows "\<exists>c'. run b c = (Inr a, c') \<and> faults c' = []"
  using assms
proof (induction b arbitrary: c)
  case (Finish e' l a')
  then show ?case by (cases e') auto
next
  case (Step l f k)
  then obtain s' where "f (rows c, auto_id c) = Inr s'" by (auto split: sum.splits)
  with Step show ?case by simp
qed simp

lemma transaction_no_faults:
  assumes "closes b" "saved c = None" "\<not> aborted c" "faults c = []"
    and "tx_result b (rows c, auto_id c) = Inr a"
  shows "\<exists>c'. transaction b h c = (Inr a, c') \<and> committed c' = tx_rows b (rows c, auto_id c) \<and>
           saved c' = None \<and> \<not> aborted c'"
proof -
  let ?c2 = "c\<lparr>saved := Some (rows c)\<rparr>"
  obtain e d n where cl: "clean b (rows c, auto_id c) = Inr (e, a, d, n)"
    using assms(5) by (auto simp: tx_result_def split: sum.splits prod.splits)
  then obtain c' where run: "run b ?c2 = (Inr a, c')"
    using run_no_faults [of ?c2 b e a d n] assms(3,4) by auto
  have "transaction b h c = (Inr a, c')"
    using assms(3,4) run by (simp add: transaction_def)
  moreover have "saved c' = None \<and> \<not> aborted c' \<and> committed c' = tx_rows b (rows c, auto_id c)"
  proof -
    obtain e' where "e = Some e'" "saved c' = None" "\<not> aborted c'"
        "rows c' = (case e' of Commit \<Rightarrow> fst (d, n) | Rollback \<Rightarrow> rows c)"
      using run_cases [OF assms(1) _ _ run, of "rows c"] assms(3) cl by auto
    then show ?thesis using cl by (cases e') (auto simp: tx_rows_def committed_def)
  qed
  ultimately show ?thesis by blast
qed

text \<open>Autocommitted statements: every statement stands on its own.\<close>

lemma run_plain:
  assumes "plain b" "saved c = None" "steps_in R b" "\<And>s. R s s" "\<And>s t u. R s t \<Longrightarrow> R t u \<Longrightarrow> R s u"
    and "run b c = (r, c')"
  shows "saved c' = None \<and> R (rows c, auto_id c) (rows c', auto_id c')"
  using assms(1-3,6)
proof (induction b arbitrary: c)
  case (Return a)
  then show ?case using assms(4) by simp
next
  case (Finish e l a)
  then show ?case by simp
next
  case (Step l f k)
  obtain flt c1 where nf: "next_fault c = (flt, c1)" by fastforce
  note same = next_fault_same [OF nf]
  let ?s = "(rows c, auto_id c)"
  show ?case
  proof (cases "\<not> aborted c \<and> flt = Fine \<and> (\<exists>s'. f ?s = Inr s')")
    case True
    then obtain s' where f: "f ?s = Inr s'" by blast
    let ?c = "c1\<lparr>rows := fst s', auto_id := snd s'\<rparr>"
    have "run (k ?s) ?c = (r, c')" using Step.prems nf True f same by simp
    moreover have "saved ?c = None" using Step.prems same by simp
    moreover have "plain (k ?s)" using Step.prems(1) f by (metis plain.simps(3))
    moreover have "steps_in R (k ?s)" "R ?s s'" using Step.prems(3) f by (metis steps_in.simps(3))+
    ultimately show ?thesis using Step.IH [of "k ?s" ?c] assms(5) by fastforce
  next
    case False
    with Step.prems nf same assms(4) show ?thesis
      by (cases "aborted c"; cases flt; cases "f ?s") auto
  qed
qed

lemma autocommit_steps:
  assumes "autocommit b c = (r, c')" "plain b" "saved c = None" "steps_in R b"
    and "\<And>s. R s s" "\<And>s t u. R s t \<Longrightarrow> R t u \<Longrightarrow> R s u"
  shows "saved c' = None" "R (rows c, auto_id c) (rows c', auto_id c')"
proof -
  obtain r1 where "run b c = (r1, c')"
    using assms(1) by (auto simp: autocommit_def split: prod.splits sum.splits)
  from run_plain [OF assms(2,3,4) assms(5,6) this]
  show "saved c' = None" "R (rows c, auto_id c) (rows c', auto_id c')" by auto
qed

text \<open>The id counter only grows, whatever fails.\<close>

lemma ids_grow_simps [script_simps]:
  "ids_grow (Return a)" "ids_grow (Finish e l a)"
  "(\<And>d. ids_grow (k (f d))) \<Longrightarrow> ids_grow (select l f k)"
  "ids_grow j \<Longrightarrow> ids_grow (exec l g j)"
  by (auto simp: ids_grow_def select_def exec_def split: sum.splits)

lemma ids_grow_query [script_simps]:
  "(\<And>x. ids_grow (k x)) \<Longrightarrow> (\<And>s x s'. f s = Inr (x, s') \<Longrightarrow> snd s \<le> snd s') \<Longrightarrow> ids_grow (query l f k)"
  by (auto simp: ids_grow_def query_def split: sum.splits prod.splits)

lemma end_tx_auto [simp]: "auto_id (end_tx e c) = auto_id c"
  by (cases e) simp_all

lemma run_ids_grow:
  assumes "ids_grow b" "run b c = (r, c')"
  shows "auto_id c \<le> auto_id c'"
  using assms
proof (induction b arbitrary: c)
  case (Return a)
  then show ?case by simp
next
  case (Finish e l a)
  obtain flt c1 where nf: "next_fault c = (flt, c1)" by fastforce
  with Finish next_fault_same [OF nf] show ?case by (cases "aborted c"; cases flt) auto
next
  case (Step l f k)
  obtain flt c1 where nf: "next_fault c = (flt, c1)" by fastforce
  note same = next_fault_same [OF nf]
  let ?s = "(rows c, auto_id c)"
  show ?case
  proof (cases "f ?s")
    case (Inl m)
    with Step.prems nf same show ?thesis by (cases "aborted c"; cases flt) auto
  next
    case (Inr s')
    then have "snd ?s \<le> snd s' \<and> ids_grow (k ?s)"
      using Step.prems(1) unfolding ids_grow_def steps_in.simps by blast
    then have le: "auto_id c \<le> snd s'" and grow: "ids_grow (k ?s)" by simp_all
    let ?c = "c1\<lparr>rows := fst s', auto_id := snd s'\<rparr>"
    show ?thesis
    proof (cases "\<not> aborted c \<and> flt = Fine")
      case True
      then have "run (k ?s) ?c = (r, c')" using Step.prems(2) nf same Inr by simp
      from Step.IH [OF _ grow this] le show ?thesis by fastforce
    next
      case False
      with Step.prems(2) nf same Inr le show ?thesis by (cases "aborted c"; cases flt) auto
    qed
  qed
qed

lemma transaction_ids_grow:
  assumes "ids_grow b" "transaction b h c = (r, c')"
  shows "auto_id c \<le> auto_id c'"
proof -
  obtain flt c1 where nf: "next_fault c = (flt, c1)" by fastforce
  note same = next_fault_same [OF nf]
  let ?c2 = "c1\<lparr>saved := Some (rows c1)\<rparr>"
  obtain r3 c3 where run: "run b ?c2 = (r3, c3)" by fastforce
  have "auto_id c \<le> auto_id c3" using run_ids_grow [OF assms(1) run] same by simp
  with assms(2) nf same run show ?thesis
    by (cases "aborted c"; cases flt; cases r3) (auto simp: transaction_def)
qed

text \<open>What makes an operation keep a property.\<close>

lemma keeps_transaction:
  assumes "closes b" "ids_grow b"
    and mono: "\<And>d n n'. P d n \<Longrightarrow> n \<le> n' \<Longrightarrow> P d n'"
    and commit: "\<And>d n a d' n'. P d n \<Longrightarrow> clean b (d, n) = Inr (Some Commit, a, d', n') \<Longrightarrow> P d' n'"
  shows "keeps P (transaction b h)"
  unfolding keeps_def
proof (intro allI impI)
  fix c :: "'a conn" and r c'
  assume c: "saved c = None" "\<not> aborted c" "P (rows c) (auto_id c)"
    and run: "transaction b h c = (r, c')"
  have grow: "auto_id c \<le> auto_id c'" by (rule transaction_ids_grow [OF assms(2) run])
  then have same: "P (rows c) (auto_id c')" by (rule mono [OF c(3)])
  have new: "P (tx_rows b (rows c, auto_id c)) (auto_id c')"
    if auto: "auto_id c' = tx_auto b (rows c, auto_id c)"
  proof (cases "\<exists>a d' n'. clean b (rows c, auto_id c) = Inr (Some Commit, a, d', n')")
    case True
    then show ?thesis using commit [OF c(3)] auto by (auto simp: tx_rows_def tx_auto_def)
  next
    case False
    then have "tx_rows b (rows c, auto_id c) = rows c"
      by (auto simp: tx_rows_def split: sum.splits option.splits ending.splits prod.splits)
    with same show ?thesis by simp
  qed
  from assms(1) c(1,2) run show "P (committed c') (auto_id c') \<and> (\<forall>a. r = Inr a \<longrightarrow> saved c' = None)"
  proof (cases rule: transaction_cases)
    case (returned a)
    then show ?thesis using new by simp
  next
    case (not_started m)
    then show ?thesis using same by simp
  next
    case (failed m l)
    then show ?thesis using same by simp
  next
    case (unknown m l)
    then show ?thesis using new by simp
  qed
qed

lemma keeps_autocommit:
  assumes "plain b" "steps_in (\<lambda>s t. P (fst s) (snd s) \<longrightarrow> P (fst t) (snd t)) b"
  shows "keeps P (autocommit b)"
  unfolding keeps_def
proof (intro allI impI)
  fix c :: "'a conn" and r c'
  assume c: "saved c = None" "P (rows c) (auto_id c)" and run: "autocommit b c = (r, c')"
  from autocommit_steps [OF run assms(1) c(1) assms(2)]
  have "saved c' = None" "P (rows c) (auto_id c) \<longrightarrow> P (rows c') (auto_id c')" by auto
  with c(2) show "P (committed c') (auto_id c') \<and> (\<forall>a. r = Inr a \<longrightarrow> saved c' = None)"
    by (simp add: committed_def)
qed

lemma keeps_ret [simp]: "keeps P (ret a)"
  by (auto simp: keeps_def ret_def committed_def)

text \<open>
  The contract between the driver and a store: every operation of the store
  keeps the property.  Then every sequence of driver calls keeps it too, with
  reconnects and aborted operations in between, and the session is idle
  between two calls.
\<close>

fun driver_run :: "('op \<Rightarrow> ('d conn, 'a) prog) \<Rightarrow> 'op list \<Rightarrow> 'd conn \<Rightarrow> 'd conn" where
  "driver_run execute [] c = c"
| "driver_run execute (op # ops) c = driver_run execute ops (snd (driver_execute False (execute op) c))"

lemma driver_execute_cases:
  assumes "driver_execute stopping operation c = (r, c')" "saved c = None"
  obtains (refused) e where "r = Inl e" "saved c' = None" "rows c' = rows c" "auto_id c' = auto_id c"
  | (connected) c1 r1 c2 where "saved c1 = None" "\<not> aborted c1" "rows c1 = rows c" "auto_id c1 = auto_id c"
      "faults c = [] \<Longrightarrow> faults c1 = []" "operation c1 = (r1, c2)" "\<not> stopping"
      "r = r1" "c' = (case r1 of Inr a \<Rightarrow> c2 | Inl e \<Rightarrow> abort c2)"
proof -
  obtain flt c0 where nf: "next_fault c = (flt, c0)" by fastforce
  have c0: "rows c0 = rows c" "auto_id c0 = auto_id c" "saved c0 = saved c" "faults c = [] \<Longrightarrow> faults c0 = []"
    using nf by (auto simp: next_fault_def split: list.splits)
  define c1 where "c1 = (if aborted c then c0\<lparr>aborted := False\<rparr> else c)"
  show thesis
  proof (cases "stopping \<or> (aborted c \<and> flt \<noteq> Fine)")
    case True
    then show thesis using refused assms nf c0
      by (cases stopping; cases flt) (auto simp: driver_execute_def connect_mysql_def bind_def committed_def)
  next
    case False
    have c1: "saved c1 = None" "\<not> aborted c1" "rows c1 = rows c" "auto_id c1 = auto_id c"
      "faults c = [] \<Longrightarrow> faults c1 = []"
      using assms(2) c0 by (simp_all add: c1_def)
    obtain r1 c2 where op: "operation c1 = (r1, c2)" by fastforce
    have "r = r1 \<and> c' = (case r1 of Inr a \<Rightarrow> c2 | Inl e \<Rightarrow> abort c2)"
      using assms(1) False nf op
      by (cases "aborted c"; cases r1) (auto simp: driver_execute_def connect_mysql_def bind_def c1_def ret_def)
    with connected [OF c1 op] False show thesis by blast
  qed
qed

lemma driver_transaction:
  assumes "closes b" "ids_grow b" "saved c = None"
    and run: "driver_execute stopping (transaction b h) c = (r, c')"
  obtains (unchanged) "saved c' = None" "auto_id c \<le> auto_id c'" "rows c' = rows c"
      "\<And>a. r = Inr a \<Longrightarrow> \<exists>m l. h (RuntimeError m) l = Inr a"
  | (carried_out) "saved c' = None" "auto_id c \<le> auto_id c'" "rows c' = tx_rows b (rows c, auto_id c)"
      "\<And>a. r = Inr a \<Longrightarrow> tx_result b (rows c, auto_id c) = Inr a \<or> (\<exists>m l. h (RuntimeError m) l = Inr a)"
proof (rule driver_execute_cases [OF run assms(3)])
  fix e assume "r = Inl e" "saved c' = None" "rows c' = rows c" "auto_id c' = auto_id c"
  then show thesis using unchanged by simp
next
  fix c1 r1 c2
  assume c1: "saved c1 = None" "\<not> aborted c1" "rows c1 = rows c" "auto_id c1 = auto_id c"
    and tx: "transaction b h c1 = (r1, c2)" and r: "r = r1"
    and c': "c' = (case r1 of Inr a \<Rightarrow> c2 | Inl e \<Rightarrow> abort c2)"
  have ids: "auto_id c \<le> auto_id c'" using transaction_ids_grow [OF assms(2) tx] c1
    by (simp add: c' split: sum.splits)
  have closed: "saved c' = None \<and> rows c' = committed c2" if "saved c2 = None"
    using that by (simp add: c' committed_def split: sum.splits)
  show thesis
  proof (rule transaction_cases [OF assms(1) c1(1,2) tx])
    fix a assume "tx_result b (rows c1, auto_id c1) = Inr a" "r1 = Inr a" "saved c2 = None"
      "committed c2 = tx_rows b (rows c1, auto_id c1)"
    then show thesis using carried_out [OF _ ids] closed c1 r by simp
  next
    fix m assume "r1 = Inl (RuntimeError m)" "committed c2 = rows c1"
    then show thesis using unchanged [OF _ ids] c1 r by (simp add: c')
  next
    fix m l assume "r1 = h (RuntimeError m) l" "committed c2 = rows c1" "saved c2 = None"
    then show thesis using unchanged [OF _ ids] closed c1 r by auto
  next
    fix m l assume "r1 = h (RuntimeError m) l" "committed c2 = tx_rows b (rows c1, auto_id c1)" "saved c2 = None"
    then show thesis using carried_out [OF _ ids] closed c1 r by auto
  qed
qed

lemma driver_transaction_clean:
  assumes "closes b" "saved c = None" "faults c = []"
    and "tx_result b (rows c, auto_id c) = Inr a"
    and run: "driver_execute False (transaction b h) c = (r, c')"
  shows "r = Inr a \<and> rows c' = tx_rows b (rows c, auto_id c)"
proof -
  let ?c1 = "c\<lparr>aborted := False\<rparr>"
  obtain c2 where tx: "transaction b h ?c1 = (Inr a, c2)" "committed c2 = tx_rows b (rows c, auto_id c)" "saved c2 = None"
    using transaction_no_faults [of b ?c1 a h] assms(1-4) by auto
  have "(r, c') = (Inr a, c2)"
  proof (cases "aborted c")
    case True
    with run tx(1) assms(3) show ?thesis by (simp add: driver_execute_def connect_mysql_def bind_def)
  next
    case False
    then have "?c1 = c" by simp
    from run tx(1) [unfolded this] False show ?thesis by (simp add: driver_execute_def bind_def ret_def)
  qed
  with tx show ?thesis by (simp add: committed_def)
qed

lemma driver_keeps:
  assumes "keeps P operation" "saved c = None" "P (rows c) (auto_id c)"
    "driver_execute stopping operation c = (r, c')"
  shows "saved c' = None \<and> P (rows c') (auto_id c')"
proof (rule driver_execute_cases [OF assms(4,2)])
  fix e assume "saved c' = None" "rows c' = rows c" "auto_id c' = auto_id c"
  with assms(3) show ?thesis by simp
next
  fix c1 r1 c2
  assume c1: "saved c1 = None" "\<not> aborted c1" "rows c1 = rows c" "auto_id c1 = auto_id c"
    and run: "operation c1 = (r1, c2)" and c': "c' = (case r1 of Inr a \<Rightarrow> c2 | Inl e \<Rightarrow> abort c2)"
  have "P (rows c1) (auto_id c1)" using assms(3) c1(3,4) by simp
  from assms(1) [unfolded keeps_def, rule_format, OF c1(1,2) this run]
  have "P (committed c2) (auto_id c2)" "\<And>a. r1 = Inr a \<Longrightarrow> saved c2 = None" by auto
  then show ?thesis by (cases r1) (auto simp: c' committed_def)
qed

locale store_backend =
  fixes P :: "'d \<Rightarrow> int \<Rightarrow> bool"
    and ok :: "'op \<Rightarrow> bool"
    and execute :: "'op \<Rightarrow> ('d conn, 'a) prog"
  assumes execute_keeps: "ok op \<Longrightarrow> keeps P (execute op)"
begin

lemma driver_step:
  assumes "saved c = None" "P (rows c) (auto_id c)" "ok op"
    "driver_execute stopping (execute op) c = (r, c')"
  shows "saved c' = None \<and> P (rows c') (auto_id c')"
  by (rule driver_keeps [OF execute_keeps [OF assms(3)] assms(1,2,4)])

lemma driver_run_keeps:
  assumes "saved c = None" "P (rows c) (auto_id c)" "list_all ok ops"
  shows "saved (driver_run execute ops c) = None \<and>
    P (rows (driver_run execute ops c)) (auto_id (driver_run execute ops c))"
  using assms
proof (induction ops arbitrary: c)
  case (Cons op ops)
  obtain r c' where step: "driver_execute False (execute op) c = (r, c')" by fastforce
  from driver_step [OF Cons.prems(1,2) _ step] Cons.IH [of c'] Cons.prems(3) step show ?case by simp
qed simp

end

end
