(* ===== verification/Schema.thy ===== *)
theory Schema
  imports Mysql_Session Error_Codes
begin

text \<open>
  The tables of \<^verbatim>\<open>scripts/sql/init_message_mysql_test.sql\<close>: a record per row, the
  collision test of the primary and unique keys, the INSERT statements, the
  seed data, and the well-formedness invariant \<open>db_inv\<close> of the database that
  the store operations keep.

  The behaviour of the server that the text of the SQL does not fix is a
  parameter \<open>env\<close>: the sort key of the collation \<^verbatim>\<open>utf8mb4_unicode_ci\<close>
  (\<open>collate\<close>, equality of VARCHAR and TEXT columns is equality of sort keys),
  its order (\<open>str_less\<close>), what INSERT IGNORE stores of an over-long value
  (\<open>varchar\<close>), \<^verbatim>\<open>std::hash<std::string>\<close> (\<open>std_hash\<close>) and the clock
  (\<open>current_time\<close>, the text of \<^verbatim>\<open>getCurrentDateTime\<close>).
\<close>

record env =
  collate :: "string \<Rightarrow> string"
  str_less :: "string \<Rightarrow> string \<Rightarrow> bool"
  varchar :: "nat \<Rightarrow> string \<Rightarrow> string"
  std_hash :: "string \<Rightarrow> nat"
  current_time :: string

section \<open>Rows\<close>

record userInfo_row =
  ui_uid :: int
  ui_name :: string
  ui_age :: int
  ui_sex :: string
  ui_headImageURL :: string

record friendApply_row =
  fa_fromUid :: int
  fa_toUid :: int
  fa_content :: string
  fa_status :: int
  fa_createTime :: string

record friend_row =
  fr_friendshipId :: int
  fr_uidA :: int
  fr_uidB :: int
  fr_createTime :: string

record conversation_row =
  cv_conversationId :: int
  cv_type :: int
  cv_businessId :: int
  cv_latestSeq :: int
  cv_createTime :: string

record userState_row =
  us_conversationId :: int
  us_uid :: int
  us_joinedSeq :: int
  us_leftSeq :: "int option"
  us_deliveredSeq :: int
  us_readSeq :: int

record message_row =
  ms_messageId :: int
  ms_senderId :: int
  ms_receiverId :: int
  ms_conversationId :: int
  ms_conversationSeq :: int
  ms_clientMessageId :: "string option"
  ms_commandHash :: "string option"
  ms_type :: int
  ms_content :: string
  ms_status :: int
  ms_sendDateTime :: string
  ms_readDateTime :: string

record groupInfo_row =
  gi_groupId :: int
  gi_masterUid :: int
  gi_name :: string
  gi_conversationId :: int
  gi_createTime :: string

record fileObject_row =
  fo_fileId :: string
  fo_ownerUid :: int
  fo_fileName :: string
  fo_fileType :: string
  fo_fileSize :: int
  fo_sha256 :: string
  fo_state :: int
  fo_createdTime :: string
  fo_expiresTime :: string

record fileUpload_row =
  fu_ownerUid :: int
  fu_fileId :: string
  fu_nextOffset :: int
  fu_complete :: int
  fu_updateTime :: string

record groupMember_row =
  gm_groupId :: int
  gm_uid :: int
  gm_joinTime :: string

record groupApply_row =
  ga_groupId :: int
  ga_requestorUid :: int
  ga_message :: string
  ga_createTime :: string

record device_row =
  dv_deviceId :: string
  dv_uid :: int
  dv_platform :: string
  dv_deviceName :: string

record deviceState_row =
  ds_conversationId :: int
  ds_deviceId :: string
  ds_persistedSeq :: int

record db =
  userInfo :: "userInfo_row list"
  friendApplys :: "friendApply_row list"
  friends :: "friend_row list"
  conversations :: "conversation_row list"
  conversationUserStates :: "userState_row list"
  messages :: "message_row list"
  groupInfo :: "groupInfo_row list"
  fileObjects :: "fileObject_row list"
  fileUploads :: "fileUpload_row list"
  groupMembers :: "groupMember_row list"
  groupApplys :: "groupApply_row list"
  devices :: "device_row list"
  conversationDeviceStates :: "deviceState_row list"

section \<open>Keys\<close>

definition same_text :: "env \<Rightarrow> string \<Rightarrow> string \<Rightarrow> bool" where
  "same_text E a b = (collate E a = collate E b)"

definition friendApply_key :: "friendApply_row \<Rightarrow> int \<times> int" where
  "friendApply_key r = (fa_fromUid r, fa_toUid r)"

definition friend_pair :: "friend_row \<Rightarrow> int \<times> int" where
  "friend_pair r = (fr_uidA r, fr_uidB r)"

definition conversation_business :: "conversation_row \<Rightarrow> int \<times> int" where
  "conversation_business r = (cv_type r, cv_businessId r)"

definition userState_key :: "userState_row \<Rightarrow> int \<times> int" where
  "userState_key r = (us_conversationId r, us_uid r)"

definition message_seq :: "message_row \<Rightarrow> int \<times> int" where
  "message_seq r = (ms_conversationId r, ms_conversationSeq r)"

definition fileUpload_key :: "env \<Rightarrow> fileUpload_row \<Rightarrow> int \<times> string" where
  "fileUpload_key E r = (fu_ownerUid r, collate E (fu_fileId r))"

definition groupMember_key :: "groupMember_row \<Rightarrow> int \<times> int" where
  "groupMember_key r = (gm_groupId r, gm_uid r)"

definition groupApply_key :: "groupApply_row \<Rightarrow> int \<times> int" where
  "groupApply_key r = (ga_groupId r, ga_requestorUid r)"

definition deviceState_key :: "env \<Rightarrow> deviceState_row \<Rightarrow> int \<times> string" where
  "deviceState_key E r = (ds_conversationId r, collate E (ds_deviceId r))"

definition friendApply_clash :: "friendApply_row \<Rightarrow> friendApply_row \<Rightarrow> bool" where
  "friendApply_clash r x = (friendApply_key r = friendApply_key x)"

definition friend_clash :: "friend_row \<Rightarrow> friend_row \<Rightarrow> bool" where
  "friend_clash r x = (fr_friendshipId r = fr_friendshipId x \<or> friend_pair r = friend_pair x)"

definition conversation_clash :: "conversation_row \<Rightarrow> conversation_row \<Rightarrow> bool" where
  "conversation_clash r x =
     (cv_conversationId r = cv_conversationId x \<or> conversation_business r = conversation_business x)"

definition userState_clash :: "userState_row \<Rightarrow> userState_row \<Rightarrow> bool" where
  "userState_clash r x = (userState_key r = userState_key x)"

text \<open>A NULL \<^verbatim>\<open>clientMessageId\<close> collides with nothing.\<close>

definition same_client :: "env \<Rightarrow> int \<Rightarrow> string \<Rightarrow> message_row \<Rightarrow> bool" where
  "same_client E sender client x =
     (ms_senderId x = sender \<and>
      (case ms_clientMessageId x of None \<Rightarrow> False | Some c \<Rightarrow> same_text E c client))"

definition message_clash :: "env \<Rightarrow> message_row \<Rightarrow> message_row \<Rightarrow> bool" where
  "message_clash E r x =
     (ms_messageId r = ms_messageId x \<or> message_seq r = message_seq x \<or>
      (case ms_clientMessageId r of None \<Rightarrow> False | Some c \<Rightarrow> same_client E (ms_senderId r) c x))"

definition groupInfo_clash :: "groupInfo_row \<Rightarrow> groupInfo_row \<Rightarrow> bool" where
  "groupInfo_clash r x =
     (gi_groupId r = gi_groupId x \<or> gi_conversationId r = gi_conversationId x)"

definition fileObject_clash :: "env \<Rightarrow> fileObject_row \<Rightarrow> fileObject_row \<Rightarrow> bool" where
  "fileObject_clash E r x = same_text E (fo_fileId r) (fo_fileId x)"

definition fileUpload_clash :: "env \<Rightarrow> fileUpload_row \<Rightarrow> fileUpload_row \<Rightarrow> bool" where
  "fileUpload_clash E r x = (fileUpload_key E r = fileUpload_key E x)"

definition groupMember_clash :: "groupMember_row \<Rightarrow> groupMember_row \<Rightarrow> bool" where
  "groupMember_clash r x = (groupMember_key r = groupMember_key x)"

definition groupApply_clash :: "groupApply_row \<Rightarrow> groupApply_row \<Rightarrow> bool" where
  "groupApply_clash r x = (groupApply_key r = groupApply_key x)"

definition deviceState_clash :: "env \<Rightarrow> deviceState_row \<Rightarrow> deviceState_row \<Rightarrow> bool" where
  "deviceState_clash E r x = (deviceState_key E r = deviceState_key E x)"

interpretation friendApply_pk: keyed_table friendApply_key friendApply_clash
  by unfold_locales (simp add: friendApply_clash_def)

interpretation friend_pk: keyed_table fr_friendshipId friend_clash
  by unfold_locales (simp add: friend_clash_def)

interpretation friend_uk: keyed_table friend_pair friend_clash
  by unfold_locales (simp add: friend_clash_def)

interpretation conversation_pk: keyed_table cv_conversationId conversation_clash
  by unfold_locales (simp add: conversation_clash_def)

interpretation conversation_uk: keyed_table conversation_business conversation_clash
  by unfold_locales (simp add: conversation_clash_def)

interpretation userState_pk: keyed_table userState_key userState_clash
  by unfold_locales (simp add: userState_clash_def)

interpretation message_pk: keyed_table ms_messageId "message_clash E" for E
  by unfold_locales (simp add: message_clash_def)

interpretation groupInfo_pk: keyed_table gi_groupId groupInfo_clash
  by unfold_locales (simp add: groupInfo_clash_def)

interpretation groupInfo_uk: keyed_table gi_conversationId groupInfo_clash
  by unfold_locales (simp add: groupInfo_clash_def)

interpretation fileObject_pk: keyed_table "\<lambda>r. collate E (fo_fileId r)" "fileObject_clash E" for E
  by unfold_locales (simp add: fileObject_clash_def same_text_def)

interpretation fileUpload_pk: keyed_table "fileUpload_key E" "fileUpload_clash E" for E
  by unfold_locales (simp add: fileUpload_clash_def)

interpretation groupMember_pk: keyed_table groupMember_key groupMember_clash
  by unfold_locales (simp add: groupMember_clash_def)

interpretation groupApply_pk: keyed_table groupApply_key groupApply_clash
  by unfold_locales (simp add: groupApply_clash_def)

interpretation deviceState_pk: keyed_table "deviceState_key E" "deviceState_clash E" for E
  by unfold_locales (simp add: deviceState_clash_def)

section \<open>INSERT statements\<close>

text \<open>
  The key columns are BIGINT UNSIGNED: in MySQL's strict mode a negative value
  is an error of the statement.
\<close>

definition negative :: "int list \<Rightarrow> bool" where
  "negative xs = list_ex (\<lambda>x. x < 0) xs"

definition insert_friendApply :: "friendApply_row \<Rightarrow> db \<Rightarrow> string + db" where
  "insert_friendApply r d =
     (if negative [fa_fromUid r, fa_toUid r] then Inl out_of_range
      else case insert_row friendApply_clash r (friendApplys d) of
             Inl m \<Rightarrow> Inl m | Inr rs \<Rightarrow> Inr (d\<lparr>friendApplys := rs\<rparr>))"

definition insert_friendship :: "friend_row \<Rightarrow> db \<Rightarrow> string + db" where
  "insert_friendship r d =
     (if negative [fr_friendshipId r, fr_uidA r, fr_uidB r] then Inl out_of_range
      else case insert_row friend_clash r (friends d) of
             Inl m \<Rightarrow> Inl m | Inr rs \<Rightarrow> Inr (d\<lparr>friends := rs\<rparr>))"

definition insert_conversation :: "conversation_row \<Rightarrow> db \<Rightarrow> string + db" where
  "insert_conversation r d =
     (if negative [cv_conversationId r, cv_businessId r] then Inl out_of_range
      else case insert_row conversation_clash r (conversations d) of
             Inl m \<Rightarrow> Inl m | Inr rs \<Rightarrow> Inr (d\<lparr>conversations := rs\<rparr>))"

text \<open>A row as \<^verbatim>\<open>INSERT INTO conversationUserStates (conversationId, uid, joinedSeq)\<close> makes it.\<close>

definition new_userState :: "int \<Rightarrow> int \<Rightarrow> int \<Rightarrow> userState_row" where
  "new_userState conversation uid joined =
     \<lparr>us_conversationId = conversation, us_uid = uid, us_joinedSeq = joined, us_leftSeq = None,
      us_deliveredSeq = 0, us_readSeq = 0\<rparr>"

fun insert_userStates :: "userState_row list \<Rightarrow> db \<Rightarrow> string + db" where
  "insert_userStates [] d = Inr d"
| "insert_userStates (r # rs) d =
     (if negative [us_conversationId r, us_uid r, us_joinedSeq r] then Inl out_of_range
      else case insert_row userState_clash r (conversationUserStates d) of
             Inl m \<Rightarrow> Inl m
           | Inr states \<Rightarrow> insert_userStates rs (d\<lparr>conversationUserStates := states\<rparr>))"

definition insert_groupInfo :: "groupInfo_row \<Rightarrow> db \<Rightarrow> string + db" where
  "insert_groupInfo r d =
     (if negative [gi_groupId r, gi_masterUid r, gi_conversationId r] then Inl out_of_range
      else case insert_row groupInfo_clash r (groupInfo d) of
             Inl m \<Rightarrow> Inl m | Inr rs \<Rightarrow> Inr (d\<lparr>groupInfo := rs\<rparr>))"

definition insert_groupMember :: "groupMember_row \<Rightarrow> db \<Rightarrow> string + db" where
  "insert_groupMember r d =
     (if negative [gm_groupId r, gm_uid r] then Inl out_of_range
      else case insert_row groupMember_clash r (groupMembers d) of
             Inl m \<Rightarrow> Inl m | Inr rs \<Rightarrow> Inr (d\<lparr>groupMembers := rs\<rparr>))"

text \<open>\<^verbatim>\<open>INSERT INTO messages\<close>: the AUTO_INCREMENT counter supplies the id and is the result.\<close>

definition insert_message ::
  "env \<Rightarrow> (int \<Rightarrow> message_row) \<Rightarrow> db \<times> int \<Rightarrow> string + (int \<times> db \<times> int)" where
  "insert_message E row = (\<lambda>(d, n).
     case insert_row (message_clash E) (row n) (messages d) of
       Inl m \<Rightarrow> Inl m
     | Inr rs \<Rightarrow> Inr (n, d\<lparr>messages := rs\<rparr>, n + 1))"

section \<open>Seed data\<close>

definition seed_db :: db where
  "seed_db =
     \<lparr>userInfo =
        [\<lparr>ui_uid = 1001, ui_name = ''Zorjen'', ui_age = 24, ui_sex = ''male'',
           ui_headImageURL = ''/images/default-zorjen.png''\<rparr>,
         \<lparr>ui_uid = 1002, ui_name = ''Alice'', ui_age = 23, ui_sex = ''female'',
           ui_headImageURL = ''/images/default-alice.png''\<rparr>,
         \<lparr>ui_uid = 1003, ui_name = ''Bob'', ui_age = 25, ui_sex = ''male'',
           ui_headImageURL = ''/images/default-bob.png''\<rparr>],
      friendApplys =
        [\<lparr>fa_fromUid = 1001, fa_toUid = 1002, fa_content = ''hello'', fa_status = 1,
           fa_createTime = ''2026-05-19 00:00:00''\<rparr>,
         \<lparr>fa_fromUid = 1002, fa_toUid = 1001, fa_content = ''hello'', fa_status = 1,
           fa_createTime = ''2026-05-19 00:00:00''\<rparr>],
      friends =
        [\<lparr>fr_friendshipId = 9001002, fr_uidA = 1001, fr_uidB = 1002,
           fr_createTime = ''2026-05-19 00:00:00''\<rparr>],
      conversations =
        [\<lparr>cv_conversationId = 92001, cv_type = 1, cv_businessId = 9001002, cv_latestSeq = 2,
           cv_createTime = ''2026-05-19 00:00:00''\<rparr>,
         \<lparr>cv_conversationId = 93001, cv_type = 2, cv_businessId = 3001, cv_latestSeq = 0,
           cv_createTime = ''2026-05-19 00:00:00''\<rparr>],
      conversationUserStates =
        [\<lparr>us_conversationId = 92001, us_uid = 1001, us_joinedSeq = 1, us_leftSeq = None,
           us_deliveredSeq = 2, us_readSeq = 2\<rparr>,
         \<lparr>us_conversationId = 92001, us_uid = 1002, us_joinedSeq = 1, us_leftSeq = None,
           us_deliveredSeq = 2, us_readSeq = 2\<rparr>,
         \<lparr>us_conversationId = 93001, us_uid = 1001, us_joinedSeq = 1, us_leftSeq = None,
           us_deliveredSeq = 0, us_readSeq = 0\<rparr>,
         \<lparr>us_conversationId = 93001, us_uid = 1002, us_joinedSeq = 1, us_leftSeq = None,
           us_deliveredSeq = 0, us_readSeq = 0\<rparr>],
      messages =
        [\<lparr>ms_messageId = 1000001, ms_senderId = 1001, ms_receiverId = 1002,
           ms_conversationId = 92001, ms_conversationSeq = 1, ms_clientMessageId = None,
           ms_commandHash = None, ms_type = 1, ms_content = ''Hello Alice'', ms_status = 2,
           ms_sendDateTime = ''2026-05-19 00:00:00'', ms_readDateTime = ''2026-05-19 00:00:01''\<rparr>,
         \<lparr>ms_messageId = 1000002, ms_senderId = 1002, ms_receiverId = 1001,
           ms_conversationId = 92001, ms_conversationSeq = 2, ms_clientMessageId = None,
           ms_commandHash = None, ms_type = 1, ms_content = ''Hello Zorjen'', ms_status = 2,
           ms_sendDateTime = ''2026-05-19 00:00:02'', ms_readDateTime = ''2026-05-19 00:00:03''\<rparr>],
      groupInfo =
        [\<lparr>gi_groupId = 3001, gi_masterUid = 1001, gi_name = ''test-group'',
           gi_conversationId = 93001, gi_createTime = ''2026-05-19 00:00:00''\<rparr>],
      fileObjects = [],
      fileUploads = [],
      groupMembers =
        [\<lparr>gm_groupId = 3001, gm_uid = 1001, gm_joinTime = ''2026-05-19 00:00:00''\<rparr>,
         \<lparr>gm_groupId = 3001, gm_uid = 1002, gm_joinTime = ''2026-05-19 00:00:00''\<rparr>],
      groupApplys =
        [\<lparr>ga_groupId = 3001, ga_requestorUid = 1003, ga_message = ''join test group'',
           ga_createTime = ''2026-05-19 00:00:00''\<rparr>],
      devices = [],
      conversationDeviceStates = []\<rparr>"

section \<open>The invariant of the database\<close>

definition conv_messages :: "int \<Rightarrow> db \<Rightarrow> message_row list" where
  "conv_messages c d = filter (\<lambda>m. ms_conversationId m = c) (messages d)"

definition client_key :: "env \<Rightarrow> message_row \<Rightarrow> int \<times> string option" where
  "client_key E m = (ms_senderId m, map_option (collate E) (ms_clientMessageId m))"

definition named_messages :: "message_row list \<Rightarrow> message_row list" where
  "named_messages ms = filter (\<lambda>m. ms_clientMessageId m \<noteq> None) ms"

definition inv_keys :: "env \<Rightarrow> db \<Rightarrow> bool" where
  "inv_keys E d =
     (unique_key friendApply_key (friendApplys d) \<and>
      unique_key fr_friendshipId (friends d) \<and> unique_key friend_pair (friends d) \<and>
      unique_key cv_conversationId (conversations d) \<and>
      unique_key conversation_business (conversations d) \<and>
      unique_key userState_key (conversationUserStates d) \<and>
      unique_key ms_messageId (messages d) \<and>
      unique_key (client_key E) (named_messages (messages d)) \<and>
      unique_key gi_groupId (groupInfo d) \<and> unique_key gi_conversationId (groupInfo d) \<and>
      unique_key (\<lambda>r. collate E (fo_fileId r)) (fileObjects d) \<and>
      unique_key (fileUpload_key E) (fileUploads d) \<and>
      unique_key groupMember_key (groupMembers d) \<and>
      unique_key groupApply_key (groupApplys d) \<and>
      unique_key (deviceState_key E) (conversationDeviceStates d))"

text \<open>Every conversation is a gap-free log: its messages carry 1, 2, ..., latestSeq in this order.\<close>

definition inv_log :: "db \<Rightarrow> bool" where
  "inv_log d =
     ((\<forall>c \<in> set (conversations d). 0 \<le> cv_latestSeq c \<and>
         map ms_conversationSeq (conv_messages (cv_conversationId c) d) = [1..cv_latestSeq c]) \<and>
      (\<forall>m \<in> set (messages d). ms_conversationId m \<in> cv_conversationId ` set (conversations d)))"

text \<open>Positions of users and devices stay within the log: read up to delivered up to latest.\<close>

definition state_ok :: "conversation_row list \<Rightarrow> userState_row \<Rightarrow> bool" where
  "state_ok cs s =
     (\<exists>c \<in> set cs. cv_conversationId c = us_conversationId s \<and>
        1 \<le> us_joinedSeq s \<and> us_joinedSeq s \<le> cv_latestSeq c + 1 \<and>
        0 \<le> us_readSeq s \<and> us_readSeq s \<le> us_deliveredSeq s \<and>
        us_deliveredSeq s \<le> cv_latestSeq c)"

definition device_state_ok :: "conversation_row list \<Rightarrow> deviceState_row \<Rightarrow> bool" where
  "device_state_ok cs s =
     (\<exists>c \<in> set cs. cv_conversationId c = ds_conversationId s \<and>
        0 \<le> ds_persistedSeq s \<and> ds_persistedSeq s \<le> cv_latestSeq c)"

definition inv_states :: "db \<Rightarrow> bool" where
  "inv_states d =
     ((\<forall>s \<in> set (conversationUserStates d). state_ok (conversations d) s) \<and>
      (\<forall>s \<in> set (conversationDeviceStates d). device_state_ok (conversations d) s))"

definition has_state :: "db \<Rightarrow> int \<Rightarrow> int \<Rightarrow> bool" where
  "has_state d c u = ((c, u) \<in> userState_key ` set (conversationUserStates d))"

definition is_member :: "db \<Rightarrow> int \<Rightarrow> int \<Rightarrow> bool" where
  "is_member d g u = ((g, u) \<in> groupMember_key ` set (groupMembers d))"

text \<open>Every friendship joins two different users and owns a direct conversation they both take part in.\<close>

definition friend_ok :: "db \<Rightarrow> friend_row \<Rightarrow> bool" where
  "friend_ok d f =
     (0 \<le> fr_uidA f \<and> fr_uidA f < fr_uidB f \<and>
      (\<exists>c \<in> set (conversations d). cv_type c = 1 \<and> cv_businessId c = fr_friendshipId f \<and>
         has_state d (cv_conversationId c) (fr_uidA f) \<and> has_state d (cv_conversationId c) (fr_uidB f)))"

definition inv_friends :: "db \<Rightarrow> bool" where
  "inv_friends d = (\<forall>f \<in> set (friends d). friend_ok d f)"

text \<open>
  Every group owns a group conversation and its master is a member; a member
  belongs to a group and takes part in its conversation; whoever takes part in
  a group conversation is a member; an applicant is not.
\<close>

definition group_ok :: "db \<Rightarrow> groupInfo_row \<Rightarrow> bool" where
  "group_ok d g =
     (is_member d (gi_groupId g) (gi_masterUid g) \<and>
      (\<exists>c \<in> set (conversations d). cv_conversationId c = gi_conversationId g \<and>
         cv_type c = 2 \<and> cv_businessId c = gi_groupId g))"

definition member_ok :: "db \<Rightarrow> groupMember_row \<Rightarrow> bool" where
  "member_ok d m =
     (\<exists>g \<in> set (groupInfo d). gi_groupId g = gm_groupId m \<and>
        has_state d (gi_conversationId g) (gm_uid m))"

definition apply_ok :: "db \<Rightarrow> groupApply_row \<Rightarrow> bool" where
  "apply_ok d a =
     (ga_groupId a \<in> gi_groupId ` set (groupInfo d) \<and>
      \<not> is_member d (ga_groupId a) (ga_requestorUid a))"

definition group_state_ok :: "db \<Rightarrow> userState_row \<Rightarrow> bool" where
  "group_state_ok d s =
     (\<forall>c \<in> set (conversations d). cv_conversationId c = us_conversationId s \<longrightarrow> cv_type c = 2 \<longrightarrow>
        (\<exists>g \<in> set (groupInfo d). gi_conversationId g = us_conversationId s \<and>
           is_member d (gi_groupId g) (us_uid s)))"

definition inv_groups :: "db \<Rightarrow> bool" where
  "inv_groups d =
     ((\<forall>g \<in> set (groupInfo d). group_ok d g) \<and>
      (\<forall>m \<in> set (groupMembers d). member_ok d m) \<and>
      (\<forall>a \<in> set (groupApplys d). apply_ok d a) \<and>
      (\<forall>s \<in> set (conversationUserStates d). group_state_ok d s))"

definition db_inv :: "env \<Rightarrow> db \<Rightarrow> bool" where
  "db_inv E d = (inv_keys E d \<and> inv_log d \<and> inv_states d \<and> inv_friends d \<and> inv_groups d)"

definition ids_below :: "db \<Rightarrow> int \<Rightarrow> bool" where
  "ids_below d n = (\<forall>m \<in> set (messages d). ms_messageId m < n)"

end
