(* ===== verification/Store_Ops.thy ===== *)
theory Store_Ops
  imports Schema
begin

text \<open>
  The operations of the message store (\<^verbatim>\<open>message/io/mysql_operations.hh\<close>) and their
  results (\<^verbatim>\<open>common/include/message_records.hh\<close>, \<^verbatim>\<open>DbGlobal.h\<close>), one record per
  struct with the default values of the source.
\<close>

section \<open>Data of DbGlobal.h\<close>

record FriendApply =
  fap_from :: int
  fap_to :: int
  fap_status :: int
  fap_content :: string
  fap_createTime :: string

definition status_Wait :: int where "status_Wait = 0"
definition status_Agree :: int where "status_Agree = 1"
definition status_Refuse :: int where "status_Refuse = 2"

record Friend =
  frd_friendshipId :: int
  frd_conversationId :: int
  frd_uidA :: int
  frd_uidB :: int
  frd_createTime :: string

record UserInfo =
  usr_uid :: int
  usr_name :: string
  usr_age :: int
  usr_sex :: string
  usr_headImageURL :: string

definition type_TEXT :: int where "type_TEXT = 1"
definition type_FILE :: int where "type_FILE = 5"

definition message_WAIT :: int where "message_WAIT = 1"
definition message_DELIVERED :: int where "message_DELIVERED = 2"
definition message_READ :: int where "message_READ = 3"

record GroupManager =
  grp_groupId :: int
  grp_masterUid :: int
  grp_conversationId :: int
  grp_name :: string
  grp_createTime :: string

record GroupMember =
  gmb_groupId :: int
  gmb_uid :: int
  gmb_joinTime :: string
  gmb_memberName :: string

record GroupApply =
  gap_requestor :: int
  gap_groupId :: int
  gap_message :: string
  gap_createTime :: string

text \<open>
  The members of these structs are \<^verbatim>\<open>size_t\<close> and the request fields \<^verbatim>\<open>int64_t\<close>: a
  negative number passes through as a large one, and \<^verbatim>\<open>parameters\<close> casts it back.
\<close>

definition size_t_of :: "int \<Rightarrow> int" where
  "size_t_of i = i mod 2 ^ 64"

definition int64_of :: "int \<Rightarrow> int" where
  "int64_of u = (if 2 ^ 63 \<le> u mod 2 ^ 64 then u mod 2 ^ 64 - 2 ^ 64 else u mod 2 ^ 64)"

section \<open>Results\<close>

record MessageAcceptResult =
  ac_error :: ErrorCodes
  ac_diagnostic :: string
  ac_duplicate :: bool
  ac_messageId :: int
  ac_conversationId :: int
  ac_conversationSeq :: int

record GroupMessageAcceptResult = MessageAcceptResult +
  ac_groupId :: int
  ac_recipientUids :: "int list"

definition new_accept :: MessageAcceptResult where
  "new_accept =
     \<lparr>ac_error = MysqlFailed, ac_diagnostic = '''', ac_duplicate = False, ac_messageId = 0,
      ac_conversationId = 0, ac_conversationSeq = 0\<rparr>"

definition new_group_accept :: "int \<Rightarrow> GroupMessageAcceptResult" where
  "new_group_accept g =
     \<lparr>ac_error = MysqlFailed, ac_diagnostic = '''', ac_duplicate = False, ac_messageId = 0,
      ac_conversationId = 0, ac_conversationSeq = 0, ac_groupId = g, ac_recipientUids = []\<rparr>"

record GroupOperationResult =
  go_error :: ErrorCodes
  go_diagnostic :: string
  go_groupId :: int
  go_conversationId :: int
  go_masterUid :: int
  go_targetUid :: int
  go_actorUid :: int
  go_groupName :: string
  go_targetJoinTime :: string
  go_recipientUids :: "int list"
  go_members :: "GroupMember list"
  go_applies :: "GroupApply list"

definition new_group_result :: GroupOperationResult where
  "new_group_result =
     \<lparr>go_error = MysqlFailed, go_diagnostic = '''', go_groupId = 0, go_conversationId = 0,
      go_masterUid = 0, go_targetUid = 0, go_actorUid = 0, go_groupName = '''',
      go_targetJoinTime = '''', go_recipientUids = [], go_members = [], go_applies = []\<rparr>"

record FileAttachment =
  at_fileId :: string
  at_fileName :: string
  at_fileType :: string
  at_fileSize :: int
  at_sha256 :: string
  at_expired :: bool

record ConversationMessageRecord =
  cm_messageId :: int
  cm_senderId :: int
  cm_receiverId :: int
  cm_conversationId :: int
  cm_conversationSeq :: int
  cm_clientMessageId :: string
  cm_type :: int
  cm_content :: string
  cm_status :: int
  cm_sendDateTime :: string
  cm_readDateTime :: string
  cm_file :: "FileAttachment option"

record FileObjectRecord =
  fl_fileId :: string
  fl_ownerUid :: int
  fl_fileName :: string
  fl_fileType :: string
  fl_fileSize :: int
  fl_sha256 :: string
  fl_expired :: bool

record ConversationSyncResult =
  sy_error :: ErrorCodes
  sy_conversationType :: int
  sy_latestSeq :: int
  sy_nextSeq :: int
  sy_hasMore :: bool
  sy_messages :: "ConversationMessageRecord list"

definition new_sync :: ConversationSyncResult where
  "new_sync =
     \<lparr>sy_error = MysqlFailed, sy_conversationType = 0, sy_latestSeq = 0, sy_nextSeq = 0,
      sy_hasMore = False, sy_messages = []\<rparr>"

record ConversationAckResult =
  ak_updated :: int
  ak_senderUid :: int
  ak_directConversation :: bool
  ak_readStateChanged :: bool

definition new_ack :: ConversationAckResult where
  "new_ack =
     \<lparr>ak_updated = -1, ak_senderUid = 0, ak_directConversation = False,
      ak_readStateChanged = False\<rparr>"

section \<open>Operations\<close>

record accept_direct_text =
  dt_sender_id :: int
  dt_receiver_id :: int
  dt_client_message_id :: string
  dt_content :: string
  dt_send_date_time :: string
  dt_message_type :: int

record upsert_ready_file =
  uf_file :: FileObjectRecord
  uf_created_time :: string
  uf_expires_time :: string

record save_file_upload_progress =
  sp_owner_uid :: int
  sp_file_id :: string
  sp_next_offset :: int
  sp_complete :: bool
  sp_update_time :: string

record accept_group_message =
  gt_sender_id :: int
  gt_group_id :: int
  gt_client_message_id :: string
  gt_content :: string
  gt_message_type :: int
  gt_send_date_time :: string
  gt_require_ready_owned_file :: bool

record sync_conversation =
  sc_uid :: int
  sc_conversation_id :: int
  sc_after_seq :: int
  sc_pull_count :: int

record acknowledge_conversation_message =
  ack_message_id :: int
  ack_uid :: int
  ack_device_id :: string
  ack_conversation_id :: int
  ack_conversation_seq :: int
  ack_status :: int
  ack_read_date_time :: string

record request_group_join =
  rj_group_id :: int
  rj_uid :: int
  rj_message :: string
  rj_now :: string

record reply_group_join =
  rp_group_id :: int
  rp_actor_uid :: int
  rp_requestor_uid :: int
  rp_accept :: bool
  rp_now :: string

record remove_group_member =
  rm_group_id :: int
  rm_actor_uid :: int
  rm_target_uid :: int
  rm_dissolve_if_master :: bool

lemma int64_of_size_t [simp]:
  assumes "- (2 ^ 63) \<le> i" "i < 2 ^ 63"
  shows "int64_of (size_t_of i) = i"
proof (cases "i < 0")
  case True
  have "i mod 2 ^ 64 = (i + 2 ^ 64) mod 2 ^ 64" by simp
  also have "\<dots> = i + 2 ^ 64" using True assms(1) by (intro mod_pos_pos_trivial) auto
  finally show ?thesis using assms(1) by (simp add: int64_of_def size_t_of_def)
next
  case False
  then have "i mod 2 ^ 64 = i" using assms(2) by (intro mod_pos_pos_trivial) auto
  with assms(2) show ?thesis by (simp add: int64_of_def size_t_of_def)
qed

lemma size_t_of_id [simp]: "0 \<le> i \<Longrightarrow> i < 2 ^ 64 \<Longrightarrow> size_t_of i = i"
  by (simp add: size_t_of_def)

end
