(* ===== verification/Db_Invariant.thy ===== *)
theory Db_Invariant
  imports Store_Ops
begin

text \<open>
  The invariant of the database over the relations that its tables stand for
  (\<open>convs\<close>, \<open>states\<close>, \<open>groups\<close>, \<open>members\<close>, \<open>applies\<close>, \<open>friendships\<close>), and the
  lemmas that say which part of the invariant which statement can touch.
\<close>

definition conv_sig :: "conversation_row \<Rightarrow> int \<times> int \<times> int" where
  "conv_sig c = (cv_conversationId c, cv_type c, cv_businessId c)"

definition group_sig :: "groupInfo_row \<Rightarrow> int \<times> int \<times> int" where
  "group_sig g = (gi_groupId g, gi_conversationId g, gi_masterUid g)"

definition friend_sig :: "friend_row \<Rightarrow> int \<times> int \<times> int" where
  "friend_sig f = (fr_friendshipId f, fr_uidA f, fr_uidB f)"

definition convs :: "db \<Rightarrow> (int \<times> int \<times> int) set" where
  "convs d = conv_sig ` set (conversations d)"

definition states :: "db \<Rightarrow> (int \<times> int) set" where
  "states d = userState_key ` set (conversationUserStates d)"

definition groups :: "db \<Rightarrow> (int \<times> int \<times> int) set" where
  "groups d = group_sig ` set (groupInfo d)"

definition members :: "db \<Rightarrow> (int \<times> int) set" where
  "members d = groupMember_key ` set (groupMembers d)"

definition applies :: "db \<Rightarrow> (int \<times> int) set" where
  "applies d = groupApply_key ` set (groupApplys d)"

definition friendships :: "db \<Rightarrow> (int \<times> int \<times> int) set" where
  "friendships d = friend_sig ` set (friends d)"

text \<open>The latest sequence number of every conversation.\<close>

definition latest_of :: "db \<Rightarrow> (int \<times> int) set" where
  "latest_of d = (\<lambda>c. (cv_conversationId c, cv_latestSeq c)) ` set (conversations d)"

lemmas rel_defs = convs_def states_def groups_def members_def applies_def friendships_def

lemma has_state_iff [simp]: "has_state d c u \<longleftrightarrow> (c, u) \<in> states d"
  by (simp add: has_state_def states_def)

lemma is_member_iff [simp]: "is_member d g u \<longleftrightarrow> (g, u) \<in> members d"
  by (simp add: is_member_def members_def)

lemma conv_in_convs:
  "(c, t, b) \<in> convs d \<longleftrightarrow>
     (\<exists>r \<in> set (conversations d). cv_conversationId r = c \<and> cv_type r = t \<and> cv_businessId r = b)"
  by (auto simp: convs_def conv_sig_def image_iff)

lemma group_in_groups:
  "(g, c, u) \<in> groups d \<longleftrightarrow>
     (\<exists>r \<in> set (groupInfo d). gi_groupId r = g \<and> gi_conversationId r = c \<and> gi_masterUid r = u)"
  by (auto simp: groups_def group_sig_def image_iff)

lemma state_in_states:
  "(c, u) \<in> states d \<longleftrightarrow>
     (\<exists>r \<in> set (conversationUserStates d). us_conversationId r = c \<and> us_uid r = u)"
  by (auto simp: states_def userState_key_def image_iff)

lemma member_in_members:
  "(g, u) \<in> members d \<longleftrightarrow> (\<exists>r \<in> set (groupMembers d). gm_groupId r = g \<and> gm_uid r = u)"
  by (auto simp: members_def groupMember_key_def image_iff)

lemma apply_in_applies:
  "(g, u) \<in> applies d \<longleftrightarrow> (\<exists>r \<in> set (groupApplys d). ga_groupId r = g \<and> ga_requestorUid r = u)"
  by (auto simp: applies_def groupApply_key_def image_iff)

lemma friend_in_friendships:
  "(f, a, b) \<in> friendships d \<longleftrightarrow>
     (\<exists>r \<in> set (friends d). fr_friendshipId r = f \<and> fr_uidA r = a \<and> fr_uidB r = b)"
  by (auto simp: friendships_def friend_sig_def image_iff)

lemma group_exists: "(\<exists>c w. (g, c, w) \<in> groups d) \<longleftrightarrow> g \<in> gi_groupId ` set (groupInfo d)"
  by (auto simp: group_in_groups)

lemmas rel_iffs =
  conv_in_convs group_in_groups state_in_states member_in_members apply_in_applies
  friend_in_friendships

lemma inv_friends_iff:
  "inv_friends d \<longleftrightarrow>
     (\<forall>f a b. (f, a, b) \<in> friendships d \<longrightarrow> 0 \<le> a \<and> a < b \<and>
        (\<exists>c. (c, 1, f) \<in> convs d \<and> (c, a) \<in> states d \<and> (c, b) \<in> states d))"
  unfolding inv_friends_def friend_ok_def has_state_iff friend_in_friendships conv_in_convs
  by fast

lemma inv_groups_iff:
  "inv_groups d \<longleftrightarrow>
     (\<forall>g c u. (g, c, u) \<in> groups d \<longrightarrow> (g, u) \<in> members d \<and> (c, 2, g) \<in> convs d) \<and>
     (\<forall>g u. (g, u) \<in> members d \<longrightarrow> (\<exists>c w. (g, c, w) \<in> groups d \<and> (c, u) \<in> states d)) \<and>
     (\<forall>g u. (g, u) \<in> applies d \<longrightarrow> (\<exists>c w. (g, c, w) \<in> groups d) \<and> (g, u) \<notin> members d) \<and>
     (\<forall>c u b. (c, u) \<in> states d \<longrightarrow> (c, 2, b) \<in> convs d \<longrightarrow>
        (\<exists>g w. (g, c, w) \<in> groups d \<and> (g, u) \<in> members d))"
proof -
  have 1: "(\<forall>g \<in> set (groupInfo d). group_ok d g) \<longleftrightarrow>
      (\<forall>g c u. (g, c, u) \<in> groups d \<longrightarrow> (g, u) \<in> members d \<and> (c, 2, g) \<in> convs d)"
    unfolding group_ok_def is_member_iff group_in_groups conv_in_convs by fast
  have 2: "(\<forall>m \<in> set (groupMembers d). member_ok d m) \<longleftrightarrow>
      (\<forall>g u. (g, u) \<in> members d \<longrightarrow> (\<exists>c w. (g, c, w) \<in> groups d \<and> (c, u) \<in> states d))"
    unfolding member_ok_def has_state_iff group_in_groups member_in_members by fast
  have 3: "(\<forall>a \<in> set (groupApplys d). apply_ok d a) \<longleftrightarrow>
      (\<forall>g u. (g, u) \<in> applies d \<longrightarrow> (\<exists>c w. (g, c, w) \<in> groups d) \<and> (g, u) \<notin> members d)"
    unfolding apply_ok_def is_member_iff group_exists apply_in_applies by fast
  have 4: "(\<forall>s \<in> set (conversationUserStates d). group_state_ok d s) \<longleftrightarrow>
      (\<forall>c u b. (c, u) \<in> states d \<longrightarrow> (c, 2, b) \<in> convs d \<longrightarrow>
        (\<exists>g w. (g, c, w) \<in> groups d \<and> (g, u) \<in> members d))"
    unfolding group_state_ok_def is_member_iff group_in_groups state_in_states conv_in_convs by fast
  show ?thesis unfolding inv_groups_def 1 2 3 4 ..
qed

lemma inv_groupsI:
  assumes "\<And>g c u. (g, c, u) \<in> groups d \<Longrightarrow> (g, u) \<in> members d \<and> (c, 2, g) \<in> convs d"
    and "\<And>g u. (g, u) \<in> members d \<Longrightarrow> \<exists>c w. (g, c, w) \<in> groups d \<and> (c, u) \<in> states d"
    and "\<And>g u. (g, u) \<in> applies d \<Longrightarrow> (\<exists>c w. (g, c, w) \<in> groups d) \<and> (g, u) \<notin> members d"
    and "\<And>c u b. (c, u) \<in> states d \<Longrightarrow> (c, 2, b) \<in> convs d \<Longrightarrow>
        \<exists>g w. (g, c, w) \<in> groups d \<and> (g, u) \<in> members d"
  shows "inv_groups d"
  unfolding inv_groups_iff using assms by simp

lemma inv_groupsD:
  assumes "inv_groups d"
  shows "(g, c, u) \<in> groups d \<Longrightarrow> (g, u) \<in> members d"
    and "(g, c, u) \<in> groups d \<Longrightarrow> (c, 2, g) \<in> convs d"
    and "(g, u) \<in> members d \<Longrightarrow> \<exists>c w. (g, c, w) \<in> groups d \<and> (c, u) \<in> states d"
    and "(g, u) \<in> applies d \<Longrightarrow> \<exists>c w. (g, c, w) \<in> groups d"
    and "(g, u) \<in> applies d \<Longrightarrow> (g, u) \<notin> members d"
    and "(c, u) \<in> states d \<Longrightarrow> (c, 2, b) \<in> convs d \<Longrightarrow>
        \<exists>g w. (g, c, w) \<in> groups d \<and> (g, u) \<in> members d"
  using assms unfolding inv_groups_iff by (simp_all, blast)

lemma inv_friendsD:
  assumes "inv_friends d" "(f, a, b) \<in> friendships d"
  shows "0 \<le> a" "a < b" "\<exists>c. (c, 1, f) \<in> convs d \<and> (c, a) \<in> states d \<and> (c, b) \<in> states d"
  using assms unfolding inv_friends_iff by blast+

lemma inv_friendsI:
  assumes "\<And>f a b. (f, a, b) \<in> friendships d \<Longrightarrow> 0 \<le> a \<and> a < b \<and>
        (\<exists>c. (c, 1, f) \<in> convs d \<and> (c, a) \<in> states d \<and> (c, b) \<in> states d)"
  shows "inv_friends d"
  unfolding inv_friends_iff using assms by blast

lemma latest_in:
  "(c, l) \<in> latest_of d \<longleftrightarrow> (\<exists>r \<in> set (conversations d). cv_conversationId r = c \<and> cv_latestSeq r = l)"
  by (auto simp: latest_of_def image_iff)

text \<open>Positions survive whatever only lets conversations grow.\<close>

definition grows :: "db \<Rightarrow> db \<Rightarrow> bool" where
  "grows d d' = (\<forall>c l. (c, l) \<in> latest_of d \<longrightarrow> (\<exists>l' \<ge> l. (c, l') \<in> latest_of d'))"

lemma state_ok_iff:
  "state_ok (conversations d) s \<longleftrightarrow>
     (\<exists>l. (us_conversationId s, l) \<in> latest_of d \<and> 1 \<le> us_joinedSeq s \<and> us_joinedSeq s \<le> l + 1 \<and>
        0 \<le> us_readSeq s \<and> us_readSeq s \<le> us_deliveredSeq s \<and> us_deliveredSeq s \<le> l)"
  by (auto simp: state_ok_def latest_in)

lemma device_state_ok_iff:
  "device_state_ok (conversations d) s \<longleftrightarrow>
     (\<exists>l. (ds_conversationId s, l) \<in> latest_of d \<and> 0 \<le> ds_persistedSeq s \<and> ds_persistedSeq s \<le> l)"
  by (auto simp: device_state_ok_def latest_in)

lemma state_ok_grows:
  "grows d d' \<Longrightarrow> state_ok (conversations d) s \<Longrightarrow> state_ok (conversations d') s"
  unfolding state_ok_iff grows_def by fastforce

lemma device_state_ok_grows:
  "grows d d' \<Longrightarrow> device_state_ok (conversations d) s \<Longrightarrow> device_state_ok (conversations d') s"
  unfolding device_state_ok_iff grows_def by fastforce

lemma grows_refl [simp]: "conversations d' = conversations d \<Longrightarrow> grows d d'"
  by (auto simp: grows_def latest_of_def)

text \<open>A conversation id determines its row.\<close>

lemma inv_keys_conversation:
  "inv_keys E d \<Longrightarrow> r \<in> set (conversations d) \<Longrightarrow> s \<in> set (conversations d) \<Longrightarrow>
     cv_conversationId r = cv_conversationId s \<Longrightarrow> r = s"
  by (auto simp: inv_keys_def dest: unique_keyD)

lemma inv_keys_groupInfo:
  "inv_keys E d \<Longrightarrow> r \<in> set (groupInfo d) \<Longrightarrow> s \<in> set (groupInfo d) \<Longrightarrow>
     gi_groupId r = gi_groupId s \<or> gi_conversationId r = gi_conversationId s \<Longrightarrow> r = s"
  by (auto simp: inv_keys_def dest: unique_keyD)

lemma inv_logD:
  assumes "inv_log d" "r \<in> set (conversations d)"
  shows "0 \<le> cv_latestSeq r"
    and "map ms_conversationSeq (conv_messages (cv_conversationId r) d) = [1..cv_latestSeq r]"
  using assms by (auto simp: inv_log_def)

lemma inv_log_seq:
  assumes "inv_log d" "inv_keys E d" "m \<in> set (messages d)"
    and "r \<in> set (conversations d)" "cv_conversationId r = ms_conversationId m"
  shows "1 \<le> ms_conversationSeq m" "ms_conversationSeq m \<le> cv_latestSeq r"
proof -
  have "m \<in> set (conv_messages (cv_conversationId r) d)"
    using assms(3,5) by (simp add: conv_messages_def)
  then have "ms_conversationSeq m \<in> set (map ms_conversationSeq (conv_messages (cv_conversationId r) d))"
    by simp
  then have "ms_conversationSeq m \<in> set [1..cv_latestSeq r]"
    using inv_logD(2) [OF assms(1,4)] by simp
  then show "1 \<le> ms_conversationSeq m" "ms_conversationSeq m \<le> cv_latestSeq r" by simp_all
qed

lemma inv_friends_mono:
  assumes "inv_friends d" "friendships d' \<subseteq> friendships d" "convs d \<subseteq> convs d'" "states d \<subseteq> states d'"
  shows "inv_friends d'"
  using assms unfolding inv_friends_iff by (meson subsetD)

lemma inv_log_iff:
  "inv_log d \<longleftrightarrow>
     (\<forall>c \<in> set (conversations d). 0 \<le> cv_latestSeq c \<and>
         map ms_conversationSeq (conv_messages (cv_conversationId c) d) = [1..cv_latestSeq c]) \<and>
     ms_conversationId ` set (messages d) \<subseteq> cv_conversationId ` set (conversations d)"
  by (auto simp: inv_log_def)

lemma latest_unique: "db_inv E d \<Longrightarrow> (c, l) \<in> latest_of d \<Longrightarrow> (c, l') \<in> latest_of d \<Longrightarrow> l = l'"
  using inv_keys_conversation [of E d] by (auto simp: latest_in db_inv_def)

text \<open>The invariant holds of the seed data.\<close>

lemma seed_keys: "inv_keys E seed_db"
  by (simp add: inv_keys_def seed_db_def unique_key_def named_messages_def friendApply_key_def
      friend_pair_def conversation_business_def userState_key_def groupMember_key_def
      groupApply_key_def)

lemma seed_log: "inv_log seed_db"
  by (simp add: inv_log_def seed_db_def conv_messages_def upto_rec1)

lemma seed_states: "inv_states seed_db"
  by (simp add: inv_states_def seed_db_def state_ok_def)

lemma seed_friends: "inv_friends seed_db"
  by (simp add: inv_friends_def friend_ok_def states_def seed_db_def userState_key_def)

lemma seed_groups: "inv_groups seed_db"
  by (simp add: inv_groups_def group_ok_def member_ok_def apply_ok_def group_state_ok_def
      members_def states_def seed_db_def userState_key_def groupMember_key_def)

lemma seed_inv: "db_inv E seed_db"
  by (simp add: db_inv_def seed_keys seed_log seed_states seed_friends seed_groups)

end
