(* ===== verification/Store_Messages.thy ===== *)
theory Store_Messages
  imports Store_Ops
begin

text \<open>
  The message operations of \<^verbatim>\<open>message/io/mysql_store.cc\<close>: accepting a direct or a
  group message (sequence allocation and idempotency by the client's message
  id), paging through a conversation, and acknowledging a message.
\<close>

section \<open>Statements\<close>

definition direct_conversation :: "int \<Rightarrow> int \<Rightarrow> db \<Rightarrow> int list" where
  "direct_conversation a b d =
     [cv_conversationId c. f \<leftarrow> friends d, fr_uidA f = a \<and> fr_uidB f = b,
        c \<leftarrow> conversations d, cv_type c = 1 \<and> cv_businessId c = fr_friendshipId f]"

definition ignore_userStates :: "userState_row list \<Rightarrow> db \<Rightarrow> db" where
  "ignore_userStates new d =
     d\<lparr>conversationUserStates :=
         fold (insert_ignore userState_clash) new (conversationUserStates d)\<rparr>"

definition latest_seq :: "int \<Rightarrow> db \<Rightarrow> int list" where
  "latest_seq conversation d =
     map cv_latestSeq (filter (\<lambda>c. cv_conversationId c = conversation) (conversations d))"

definition set_latest_seq :: "int \<Rightarrow> int \<Rightarrow> db \<Rightarrow> db" where
  "set_latest_seq conversation seq d =
     d\<lparr>conversations := update_where (\<lambda>c. cv_conversationId c = conversation)
         (\<lambda>c. c\<lparr>cv_latestSeq := seq\<rparr>) (conversations d)\<rparr>"

definition client_messages :: "env \<Rightarrow> int \<Rightarrow> string \<Rightarrow> db \<Rightarrow> message_row list" where
  "client_messages E sender client d = filter (same_client E sender client) (messages d)"

definition command_hash :: "env \<Rightarrow> int \<Rightarrow> int \<Rightarrow> string \<Rightarrow> string" where
  "command_hash E conversation type content =
     to_string (int (std_hash E (to_string conversation @ '':'' @ to_string type @ '':'' @ content)))"

definition new_message ::
  "env \<Rightarrow> int \<Rightarrow> int \<Rightarrow> int \<Rightarrow> int \<Rightarrow> string \<Rightarrow> int \<Rightarrow> string \<Rightarrow> string \<Rightarrow> int \<Rightarrow> message_row" where
  "new_message E sender receiver conversation seq client type content time mid =
     \<lparr>ms_messageId = mid, ms_senderId = sender, ms_receiverId = receiver,
      ms_conversationId = conversation, ms_conversationSeq = seq,
      ms_clientMessageId = Some client,
      ms_commandHash = Some (command_hash E conversation type content),
      ms_type = type, ms_content = content, ms_status = message_WAIT,
      ms_sendDateTime = time, ms_readDateTime = ''''\<rparr>"

definition same_command :: "message_row \<Rightarrow> int \<Rightarrow> int \<Rightarrow> int \<Rightarrow> string \<Rightarrow> bool" where
  "same_command m conversation receiver type content =
     (ms_conversationId m = conversation \<and> ms_receiverId m = receiver \<and>
      ms_type m = type \<and> ms_content m = content)"

section \<open>accept\_direct\_text\<close>

definition accept_handler ::
  "exn \<Rightarrow> 'a MessageAcceptResult_scheme \<Rightarrow> exn + 'a MessageAcceptResult_scheme" where
  "accept_handler e acc = Inr (acc\<lparr>ac_error := MysqlFailed, ac_diagnostic := what e\<rparr>)"

definition accept_direct_text_body ::
  "env \<Rightarrow> accept_direct_text \<Rightarrow> (db, MessageAcceptResult) script" where
  "accept_direct_text_body E op =
    (let sender = dt_sender_id op; receiver = dt_receiver_id op;
         client = dt_client_message_id op; content = dt_content op; type = dt_message_type op;
         acc0 = new_accept in
     select acc0 (direct_conversation (min sender receiver) (max sender receiver)) (\<lambda>friend_result.
     case first_row friend_result of
       None \<Rightarrow> Finish Rollback acc0 (acc0\<lparr>ac_error := UserNotFriend\<rparr>)
     | Some conversation \<Rightarrow>
       let acc = acc0\<lparr>ac_conversationId := conversation\<rparr> in
       exec acc (\<lambda>d. Inr (ignore_userStates
           [new_userState conversation sender 1, new_userState conversation receiver 1] d))
       (select acc (latest_seq conversation) (\<lambda>sequence_result.
       case first_row sequence_result of
         None \<Rightarrow> Finish Rollback acc
           (acc\<lparr>ac_error := MysqlFailed, ac_diagnostic := ''conversation row missing after insert''\<rparr>)
       | Some latest \<Rightarrow>
         select acc (client_messages E sender client) (\<lambda>duplicate_result.
         case first_row duplicate_result of
           Some m \<Rightarrow>
             if \<not> same_command m conversation receiver type content
             then Finish Rollback acc (acc\<lparr>ac_error := IdempotencyConflict\<rparr>)
             else let dup = acc\<lparr>ac_messageId := ms_messageId m,
                        ac_conversationSeq := ms_conversationSeq m,
                        ac_duplicate := True, ac_error := Success\<rparr>
                  in Finish Commit dup dup
         | None \<Rightarrow>
             let acc1 = acc\<lparr>ac_conversationSeq := latest + 1\<rparr> in
             exec acc1 (\<lambda>d. Inr (set_latest_seq conversation (latest + 1) d))
             (query acc1 (insert_message E (new_message E sender receiver conversation (latest + 1)
                 client type content (dt_send_date_time op))) (\<lambda>insert_id.
              let acc2 = acc1\<lparr>ac_messageId := insert_id\<rparr> in
              Finish Commit acc2 (acc2\<lparr>ac_error := Success\<rparr>))))))))"

definition execute_accept_direct_text ::
  "env \<Rightarrow> accept_direct_text \<Rightarrow> (db conn, MessageAcceptResult) prog" where
  "execute_accept_direct_text E op = transaction (accept_direct_text_body E op) accept_handler"

section \<open>accept\_group\_message\<close>

definition group_conversation_of :: "int \<Rightarrow> int \<Rightarrow> db \<Rightarrow> int list" where
  "group_conversation_of gid uid d =
     [gi_conversationId g. g \<leftarrow> groupInfo d, gi_groupId g = gid,
        m \<leftarrow> groupMembers d, gm_groupId m = gi_groupId g \<and> gm_uid m = uid]"

definition ready_owned_files :: "env \<Rightarrow> string \<Rightarrow> int \<Rightarrow> string \<Rightarrow> db \<Rightarrow> fileObject_row list" where
  "ready_owned_files E file owner time d =
     filter (\<lambda>f. same_text E (fo_fileId f) file \<and> fo_ownerUid f = owner \<and> fo_state f = 1 \<and>
               str_less E time (fo_expiresTime f)) (fileObjects d)"

definition other_members :: "int \<Rightarrow> int \<Rightarrow> db \<Rightarrow> int list" where
  "other_members gid uid d =
     map gm_uid (filter (\<lambda>m. gm_groupId m = gid \<and> gm_uid m \<noteq> uid) (groupMembers d))"

text \<open>The part after the sequence lock: reuse the earlier message or append a new one, then list the recipients.\<close>

definition accept_group_finish ::
  "accept_group_message \<Rightarrow> GroupMessageAcceptResult \<Rightarrow> (db, GroupMessageAcceptResult) script" where
  "accept_group_finish op acc =
     select acc (other_members (gt_group_id op) (gt_sender_id op)) (\<lambda>members.
       let acc1 = acc\<lparr>ac_recipientUids := ac_recipientUids acc @ members\<rparr> in
       Finish Commit acc1 (acc1\<lparr>ac_error := Success\<rparr>))"

definition accept_group_sequence ::
  "env \<Rightarrow> accept_group_message \<Rightarrow> GroupMessageAcceptResult \<Rightarrow> (db, GroupMessageAcceptResult) script" where
  "accept_group_sequence E op acc =
    (let sender = gt_sender_id op; gid = gt_group_id op; conversation = ac_conversationId acc;
         client = gt_client_message_id op; content = gt_content op; type = gt_message_type op in
     select acc (latest_seq conversation) (\<lambda>sequence_result.
     case first_row sequence_result of
       None \<Rightarrow> Finish Rollback acc
         (acc\<lparr>ac_error := MysqlFailed,
              ac_diagnostic := ''group conversation row missing after insert''\<rparr>)
     | Some latest \<Rightarrow>
       select acc (client_messages E sender client) (\<lambda>duplicate_result.
       case first_row duplicate_result of
         Some m \<Rightarrow>
           if \<not> same_command m conversation gid type content
           then Finish Rollback acc (acc\<lparr>ac_error := IdempotencyConflict\<rparr>)
           else accept_group_finish op
             (acc\<lparr>ac_messageId := ms_messageId m, ac_conversationSeq := ms_conversationSeq m,
                  ac_duplicate := True\<rparr>)
       | None \<Rightarrow>
           let acc1 = acc\<lparr>ac_conversationSeq := latest + 1\<rparr> in
           exec acc1 (\<lambda>d. Inr (set_latest_seq conversation (latest + 1) d))
           (query acc1 (insert_message E (new_message E sender gid conversation (latest + 1)
               client type content (gt_send_date_time op))) (\<lambda>insert_id.
            accept_group_finish op (acc1\<lparr>ac_messageId := insert_id\<rparr>))))))"

definition accept_group_message_body ::
  "env \<Rightarrow> accept_group_message \<Rightarrow> (db, GroupMessageAcceptResult) script" where
  "accept_group_message_body E op =
    (let acc0 = new_group_accept (gt_group_id op) in
     select acc0 (group_conversation_of (gt_group_id op) (gt_sender_id op)) (\<lambda>group_result.
     case first_row group_result of
       None \<Rightarrow> Finish Rollback acc0 (acc0\<lparr>ac_error := MessageOwnershipInvalid\<rparr>)
     | Some conversation \<Rightarrow>
       let acc = acc0\<lparr>ac_conversationId := conversation\<rparr> in
       if gt_require_ready_owned_file op
       then select acc
         (ready_owned_files E (gt_content op) (gt_sender_id op) (gt_send_date_time op)) (\<lambda>files.
           case first_row files of
             None \<Rightarrow> Finish Rollback acc (acc\<lparr>ac_error := NotFound\<rparr>)
           | Some _ \<Rightarrow> accept_group_sequence E op acc)
       else accept_group_sequence E op acc))"

definition execute_accept_group_message ::
  "env \<Rightarrow> accept_group_message \<Rightarrow> (db conn, GroupMessageAcceptResult) prog" where
  "execute_accept_group_message E op = transaction (accept_group_message_body E op) accept_handler"

section \<open>sync\_conversation\<close>

definition group_member_of_conversation :: "int \<Rightarrow> int \<Rightarrow> db \<Rightarrow> bool" where
  "group_member_of_conversation conversation uid d =
     list_ex (\<lambda>g. gi_conversationId g = conversation \<and>
        list_ex (\<lambda>m. gm_groupId m = gi_groupId g \<and> gm_uid m = uid) (groupMembers d)) (groupInfo d)"

definition membership :: "int \<Rightarrow> int \<Rightarrow> db \<Rightarrow> (int \<times> int \<times> int \<times> int) list" where
  "membership conversation uid d =
     [(cv_latestSeq c, us_joinedSeq s, cv_latestSeq c, cv_type c). c \<leftarrow> conversations d,
        s \<leftarrow> conversationUserStates d,
        us_conversationId s = cv_conversationId c \<and> cv_conversationId c = conversation \<and>
        us_uid s = uid \<and>
        (cv_type c \<noteq> 2 \<or> group_member_of_conversation (cv_conversationId c) uid d)]"

definition attachment :: "env \<Rightarrow> fileObject_row \<Rightarrow> FileAttachment" where
  "attachment E f =
     \<lparr>at_fileId = fo_fileId f, at_fileName = fo_fileName f, at_fileType = fo_fileType f,
      at_fileSize = fo_fileSize f, at_sha256 = fo_sha256 f,
      at_expired = (fo_state f \<noteq> 1 \<or> \<not> str_less E (current_time E) (fo_expiresTime f))\<rparr>"

definition message_record :: "message_row \<Rightarrow> FileAttachment option \<Rightarrow> ConversationMessageRecord" where
  "message_record m file =
     \<lparr>cm_messageId = ms_messageId m, cm_senderId = ms_senderId m, cm_receiverId = ms_receiverId m,
      cm_conversationId = ms_conversationId m, cm_conversationSeq = ms_conversationSeq m,
      cm_clientMessageId = (case ms_clientMessageId m of None \<Rightarrow> '''' | Some c \<Rightarrow> c),
      cm_type = ms_type m, cm_content = ms_content m, cm_status = ms_status m,
      cm_sendDateTime = ms_sendDateTime m, cm_readDateTime = ms_readDateTime m, cm_file = file\<rparr>"

text \<open>The LEFT JOIN with fileObjects: a message without a file object keeps one row.\<close>

definition joined_records :: "env \<Rightarrow> db \<Rightarrow> message_row \<Rightarrow> ConversationMessageRecord list" where
  "joined_records E d m =
     (case filter (\<lambda>f. ms_type m = 5 \<and> same_text E (fo_fileId f) (ms_content m)) (fileObjects d) of
        [] \<Rightarrow> [message_record m None]
      | fs \<Rightarrow> map (\<lambda>f. message_record m
                 (if fo_fileId f = '''' then None else Some (attachment E f))) fs)"

definition history_rows ::
  "env \<Rightarrow> int \<Rightarrow> int \<Rightarrow> int \<Rightarrow> nat \<Rightarrow> db \<Rightarrow> ConversationMessageRecord list" where
  "history_rows E conversation after left limit d =
     take limit (concat (map (joined_records E d)
       (sort_key ms_conversationSeq
         (filter (\<lambda>m. ms_conversationId m = conversation \<and> after < ms_conversationSeq m \<and>
                    ms_conversationSeq m \<le> left) (messages d)))))"

text \<open>The loop over the rows: keep \<open>bound\<close> messages, and note when there is one more.\<close>

fun collect_page ::
  "nat \<Rightarrow> ConversationMessageRecord list \<Rightarrow> ConversationSyncResult \<Rightarrow> ConversationSyncResult" where
  "collect_page bound [] sync = sync"
| "collect_page bound (m # ms) sync =
     (if bound \<le> length (sy_messages sync) then sync\<lparr>sy_hasMore := True\<rparr>
      else collect_page bound ms
        (sync\<lparr>sy_nextSeq := cm_conversationSeq m, sy_messages := sy_messages sync @ [m]\<rparr>))"

definition bounded_count :: "int \<Rightarrow> int" where
  "bounded_count pull_count = max 1 (min 100 (if 0 < pull_count then pull_count else 50))"

definition sync_conversation_script ::
  "env \<Rightarrow> sync_conversation \<Rightarrow> (db, ConversationSyncResult) script" where
  "sync_conversation_script E op =
    (let uid = sc_uid op; conversation = sc_conversation_id op; after = sc_after_seq op;
         bound = nat (bounded_count (sc_pull_count op)); sync = new_sync in
     if uid \<le> 0 \<or> conversation \<le> 0 \<or> after < 0
     then Return (sync\<lparr>sy_error := JsonParser\<rparr>)
     else select sync (membership conversation uid) (\<lambda>rows.
       case first_row rows of
         None \<Rightarrow> Return (sync\<lparr>sy_error := MessageOwnershipInvalid\<rparr>)
       | Some (latest, joined, left, type) \<Rightarrow>
         let effective_after = max after (joined - 1);
             sync1 = sync\<lparr>sy_latestSeq := latest, sy_conversationType := type\<rparr> in
         select sync1 (history_rows E conversation effective_after left (bound + 1)) (\<lambda>result.
           let sync2 = collect_page bound result sync1;
               sync3 = (if sy_messages sync2 = [] then sync2\<lparr>sy_nextSeq := effective_after\<rparr> else sync2)
           in Return (sync3\<lparr>sy_error := Success\<rparr>))))"

definition execute_sync_conversation ::
  "env \<Rightarrow> sync_conversation \<Rightarrow> (db conn, ConversationSyncResult) prog" where
  "execute_sync_conversation E op = autocommit (sync_conversation_script E op)"

section \<open>acknowledge\_conversation\_message\<close>

definition owned_messages ::
  "env \<Rightarrow> int \<Rightarrow> string \<Rightarrow> int \<Rightarrow> int \<Rightarrow> int \<Rightarrow> db \<Rightarrow> (int \<times> int \<times> int \<times> int) list" where
  "owned_messages E uid device message conversation seq d =
     [(cv_type c, ms_receiverId m, ms_senderId m, ms_status m). m \<leftarrow> messages d,
        ms_messageId m = message \<and> ms_conversationId m = conversation \<and> ms_conversationSeq m = seq,
        c \<leftarrow> conversations d, cv_conversationId c = ms_conversationId m,
        s \<leftarrow> conversationUserStates d, us_conversationId s = cv_conversationId c \<and> us_uid s = uid,
        v \<leftarrow> devices d, dv_uid v = us_uid s \<and> same_text E (dv_deviceId v) device]"

definition mark_message :: "env \<Rightarrow> int \<Rightarrow> string \<Rightarrow> int \<Rightarrow> db \<Rightarrow> db" where
  "mark_message E status time message d =
     d\<lparr>messages := update_where (\<lambda>m. ms_messageId m = message)
         (\<lambda>m. m\<lparr>ms_readDateTime :=
                   (if status = 3 \<and> (ms_status m < 3 \<or> same_text E (ms_readDateTime m) '''')
                    then time else ms_readDateTime m),
                 ms_status := max (ms_status m) status\<rparr>) (messages d)\<rparr>"

definition advance_user :: "int \<Rightarrow> int \<Rightarrow> int \<Rightarrow> int \<Rightarrow> db \<Rightarrow> db" where
  "advance_user seq status uid conversation d =
     d\<lparr>conversationUserStates := update_where
         (\<lambda>s. us_uid s = uid \<and> us_conversationId s = conversation)
         (\<lambda>s. s\<lparr>us_deliveredSeq := max (us_deliveredSeq s) seq,
                us_readSeq := (if status = 3 then max (us_readSeq s) seq else us_readSeq s)\<rparr>)
         (conversationUserStates d)\<rparr>"

definition advance_device :: "env \<Rightarrow> int \<Rightarrow> string \<Rightarrow> int \<Rightarrow> db \<Rightarrow> db" where
  "advance_device E conversation device seq d =
     d\<lparr>conversationDeviceStates := upsert_row (deviceState_clash E)
         (\<lambda>s. s\<lparr>ds_persistedSeq := max (ds_persistedSeq s) seq\<rparr>)
         \<lparr>ds_conversationId = conversation, ds_deviceId = device, ds_persistedSeq = seq\<rparr>
         (conversationDeviceStates d)\<rparr>"

definition acknowledge_finish ::
  "env \<Rightarrow> acknowledge_conversation_message \<Rightarrow> ConversationAckResult \<Rightarrow>
     (db, ConversationAckResult) script" where
  "acknowledge_finish E op acc =
     exec acc (\<lambda>d. Inr (advance_user (ack_conversation_seq op) (ack_status op) (ack_uid op)
                          (ack_conversation_id op) d))
     (exec acc (\<lambda>d. Inr (advance_device E (ack_conversation_id op) (ack_device_id op)
                           (ack_conversation_seq op) d))
     (Finish Commit acc (acc\<lparr>ak_updated := 1\<rparr>)))"

definition acknowledge_body ::
  "env \<Rightarrow> acknowledge_conversation_message \<Rightarrow> (db, ConversationAckResult) script" where
  "acknowledge_body E op =
    (let uid = ack_uid op; status = ack_status op; acc0 = new_ack in
     select acc0 (owned_messages E uid (ack_device_id op) (ack_message_id op)
         (ack_conversation_id op) (ack_conversation_seq op)) (\<lambda>owner.
     case first_row owner of
       None \<Rightarrow> Finish Rollback acc0 (acc0\<lparr>ak_updated := 0\<rparr>)
     | Some (conversation_type, receiver, sender, old_status) \<Rightarrow>
       let direct_recipient = (conversation_type = 1 \<and> receiver = uid);
           acc = acc0\<lparr>ak_senderUid := sender, ak_directConversation := (conversation_type = 1),
                      ak_readStateChanged := (direct_recipient \<and> status = message_READ \<and>
                                              old_status < message_READ)\<rparr> in
       if direct_recipient
       then exec acc (\<lambda>d. Inr (mark_message E status (ack_read_date_time op) (ack_message_id op) d))
              (acknowledge_finish E op acc)
       else acknowledge_finish E op acc))"

definition execute_acknowledge_conversation_message ::
  "env \<Rightarrow> acknowledge_conversation_message \<Rightarrow> (db conn, ConversationAckResult) prog" where
  "execute_acknowledge_conversation_message E op =
    (if ack_message_id op \<le> 0 \<or> ack_uid op \<le> 0 \<or> ack_device_id op = '''' \<or>
        ack_conversation_id op \<le> 0 \<or> ack_conversation_seq op \<le> 0
     then ret (new_ack\<lparr>ak_updated := 0\<rparr>)
     else transaction (acknowledge_body E op) rethrow)"

end
