(* ===== verification/Message_Log.thy ===== *)
theory Message_Log
  imports Db_Invariant Store_Messages
begin

text \<open>
  What the message operations of the store do.  A conversation is an
  append-only log (\<open>append_message\<close>): accepting a message extends it by
  exactly one entry with the next sequence number, a repeated client message
  id is answered from the log, and acknowledging moves positions forward only.
  The locale \<open>paged_log\<close> is the contract between the history operation and a
  client that pages with \<^verbatim>\<open>next_seq\<close> and \<^verbatim>\<open>has_more\<close>; it is interpreted on
  \<^verbatim>\<open>sync_conversation\<close>.
\<close>

definition append_message :: "message_row \<Rightarrow> db \<Rightarrow> db" where
  "append_message m d =
     (set_latest_seq (ms_conversationId m) (ms_conversationSeq m) d)\<lparr>messages := messages d @ [m]\<rparr>"

definition next_message :: "env \<Rightarrow> db \<Rightarrow> message_row \<Rightarrow> conversation_row \<Rightarrow> bool" where
  "next_message E d m c =
     (db_inv E d \<and> c \<in> set (conversations d) \<and> cv_conversationId c = ms_conversationId m \<and>
      ms_conversationSeq m = cv_latestSeq c + 1)"

definition direct_friends :: "accept_direct_text \<Rightarrow> db \<Rightarrow> int option" where
  "direct_friends op d =
     first_row (direct_conversation (min (dt_sender_id op) (dt_receiver_id op))
                                    (max (dt_sender_id op) (dt_receiver_id op)) d)"

definition direct_states :: "accept_direct_text \<Rightarrow> int \<Rightarrow> db \<Rightarrow> db" where
  "direct_states op c d =
     ignore_userStates [new_userState c (dt_sender_id op) 1, new_userState c (dt_receiver_id op) 1] d"

definition direct_message :: "env \<Rightarrow> accept_direct_text \<Rightarrow> int \<Rightarrow> int \<Rightarrow> int \<Rightarrow> message_row" where
  "direct_message E op c seq =
     new_message E (dt_sender_id op) (dt_receiver_id op) c seq (dt_client_message_id op)
       (dt_message_type op) (dt_content op) (dt_send_date_time op)"

definition direct_known :: "env \<Rightarrow> accept_direct_text \<Rightarrow> db \<Rightarrow> message_row option" where
  "direct_known E op d = first_row (client_messages E (dt_sender_id op) (dt_client_message_id op) d)"

definition group_of :: "accept_group_message \<Rightarrow> db \<Rightarrow> int option" where
  "group_of op d = first_row (group_conversation_of (gt_group_id op) (gt_sender_id op) d)"

definition group_file_ok :: "env \<Rightarrow> accept_group_message \<Rightarrow> db \<Rightarrow> bool" where
  "group_file_ok E op d =
     (gt_require_ready_owned_file op \<longrightarrow>
        ready_owned_files E (gt_content op) (gt_sender_id op) (gt_send_date_time op) d \<noteq> [])"

definition group_message :: "env \<Rightarrow> accept_group_message \<Rightarrow> int \<Rightarrow> int \<Rightarrow> int \<Rightarrow> message_row" where
  "group_message E op c seq =
     new_message E (gt_sender_id op) (gt_group_id op) c seq (gt_client_message_id op)
       (gt_message_type op) (gt_content op) (gt_send_date_time op)"

definition group_known :: "env \<Rightarrow> accept_group_message \<Rightarrow> db \<Rightarrow> message_row option" where
  "group_known E op d = first_row (client_messages E (gt_sender_id op) (gt_client_message_id op) d)"

definition group_accepted ::
  "accept_group_message \<Rightarrow> db \<Rightarrow> int \<Rightarrow> bool \<Rightarrow> int \<Rightarrow> int \<Rightarrow> GroupMessageAcceptResult" where
  "group_accepted op d c dup i seq =
     \<lparr>ac_error = Success, ac_diagnostic = '''', ac_duplicate = dup, ac_messageId = i,
      ac_conversationId = c, ac_conversationSeq = seq, ac_groupId = gt_group_id op,
      ac_recipientUids = other_members (gt_group_id op) (gt_sender_id op) d\<rparr>"

definition ack_owner :: "env \<Rightarrow> acknowledge_conversation_message \<Rightarrow> db \<Rightarrow> (int \<times> int \<times> int \<times> int) option" where
  "ack_owner E op d =
     first_row (owned_messages E (ack_uid op) (ack_device_id op) (ack_message_id op)
       (ack_conversation_id op) (ack_conversation_seq op) d)"

definition ack_effect :: "env \<Rightarrow> acknowledge_conversation_message \<Rightarrow> bool \<Rightarrow> db \<Rightarrow> db" where
  "ack_effect E op direct d =
     advance_device E (ack_conversation_id op) (ack_device_id op) (ack_conversation_seq op)
      (advance_user (ack_conversation_seq op) (ack_status op) (ack_uid op) (ack_conversation_id op)
        (if direct then mark_message E (ack_status op) (ack_read_date_time op) (ack_message_id op) d else d))"

definition record_of :: "env \<Rightarrow> db \<Rightarrow> message_row \<Rightarrow> ConversationMessageRecord" where
  "record_of E d m = hd (joined_records E d m)"

fun pull_all :: "('st \<Rightarrow> int \<Rightarrow> 'm list \<times> int \<times> bool) \<Rightarrow> nat \<Rightarrow> 'st \<Rightarrow> int \<Rightarrow> 'm list option" where
  "pull_all page 0 s a = None"
| "pull_all page (Suc k) s a =
     (case page s a of (ms, nx, rem) \<Rightarrow>
        if rem then map_option (\<lambda>rest. ms @ rest) (pull_all page k s nx) else Some ms)"

definition sync_result :: "env \<Rightarrow> sync_conversation \<Rightarrow> db \<Rightarrow> ConversationSyncResult" where
  "sync_result E op d =
     (case clean (sync_conversation_script E op) (d, 0) of Inr (_, r, _) \<Rightarrow> r | Inl _ \<Rightarrow> new_sync)"

definition sync_page ::
  "env \<Rightarrow> int \<Rightarrow> int \<Rightarrow> int \<Rightarrow> db \<Rightarrow> int \<Rightarrow> ConversationMessageRecord list \<times> int \<times> bool" where
  "sync_page E uid conversation count d a =
     (let r = sync_result E \<lparr>sc_uid = uid, sc_conversation_id = conversation, sc_after_seq = a,
                             sc_pull_count = count\<rparr> d
      in (sy_messages r, sy_nextSeq r, sy_hasMore r))"

definition visible_log :: "env \<Rightarrow> int \<Rightarrow> int \<Rightarrow> db \<Rightarrow> ConversationMessageRecord list" where
  "visible_log E uid conversation d =
     (case first_row (membership conversation uid d) of
        None \<Rightarrow> []
      | Some (_, joined, _, _) \<Rightarrow>
          map (record_of E d)
            (filter (\<lambda>m. joined \<le> ms_conversationSeq m) (conv_messages conversation d)))"

definition may_read :: "env \<Rightarrow> int \<Rightarrow> int \<Rightarrow> db \<Rightarrow> bool" where
  "may_read E uid conversation d =
     (db_inv E d \<and> 0 < uid \<and> 0 < conversation \<and> membership conversation uid d \<noteq> [])"

lemma append_message_simps [simp]:
  "messages (append_message m d) = messages d @ [m]"
  "friends (append_message m d) = friends d"
  "friendApplys (append_message m d) = friendApplys d"
  "conversationUserStates (append_message m d) = conversationUserStates d"
  "groupInfo (append_message m d) = groupInfo d"
  "groupMembers (append_message m d) = groupMembers d"
  "groupApplys (append_message m d) = groupApplys d"
  "fileObjects (append_message m d) = fileObjects d"
  "fileUploads (append_message m d) = fileUploads d"
  "conversationDeviceStates (append_message m d) = conversationDeviceStates d"
  "userInfo (append_message m d) = userInfo d"
  "devices (append_message m d) = devices d"
  by (simp_all add: append_message_def set_latest_seq_def)

lemma append_message_conversations:
  "conversations (append_message m d) =
     update_where (\<lambda>c. cv_conversationId c = ms_conversationId m)
       (\<lambda>c. c\<lparr>cv_latestSeq := ms_conversationSeq m\<rparr>) (conversations d)"
  by (simp add: append_message_def set_latest_seq_def)

lemma append_message_rels [simp]:
  "convs (append_message m d) = convs d"
  "states (append_message m d) = states d"
  "groups (append_message m d) = groups d"
  "members (append_message m d) = members d"
  "applies (append_message m d) = applies d"
  "friendships (append_message m d) = friendships d"
proof -
  have "map conv_sig (conversations (append_message m d)) = map conv_sig (conversations d)"
    unfolding append_message_conversations by (rule map_update_where) (simp add: conv_sig_def)
  then show "convs (append_message m d) = convs d"
    unfolding convs_def by (metis set_map)
qed (simp_all add: states_def groups_def members_def applies_def friendships_def)

lemma conv_messages_append:
  "conv_messages c (append_message m d) =
     conv_messages c d @ (if ms_conversationId m = c then [m] else [])"
  by (simp add: conv_messages_def)

lemma next_messageD:
  assumes "next_message E d m c"
  shows "db_inv E d" "c \<in> set (conversations d)" "cv_conversationId c = ms_conversationId m"
    "ms_conversationSeq m = cv_latestSeq c + 1" "inv_log d" "inv_keys E d"
  using assms by (auto simp: next_message_def db_inv_def)

lemma old_seq:
  assumes "next_message E d m c" "x \<in> set (messages d)" "ms_conversationId x = ms_conversationId m"
  shows "ms_conversationSeq x < ms_conversationSeq m"
  using inv_log_seq(2) [of d E x c] next_messageD [OF assms(1)] assms(2,3) by auto

lemma grows_append:
  assumes "next_message E d m c"
  shows "grows d (append_message m d)"
  unfolding grows_def latest_in append_message_conversations
proof (intro allI impI, elim bexE conjE)
  fix ci l r
  assume r: "r \<in> set (conversations d)" "cv_conversationId r = ci" "cv_latestSeq r = l"
  let ?f = "\<lambda>x. if cv_conversationId x = ms_conversationId m
                 then x\<lparr>cv_latestSeq := ms_conversationSeq m\<rparr> else x"
  have "r = c" if "cv_conversationId r = ms_conversationId m"
    using that r next_messageD [OF assms] inv_keys_conversation [of E d r c] by simp
  then have "cv_conversationId (?f r) = ci \<and> l \<le> cv_latestSeq (?f r)"
    using r next_messageD(4) [OF assms] by auto
  moreover have "?f r \<in> set (update_where (\<lambda>c. cv_conversationId c = ms_conversationId m)
       (\<lambda>c. c\<lparr>cv_latestSeq := ms_conversationSeq m\<rparr>) (conversations d))"
    using r(1) by (auto simp: update_where_def)
  ultimately show "\<exists>l'\<ge>l. \<exists>r\<in>set (update_where (\<lambda>c. cv_conversationId c = ms_conversationId m)
       (\<lambda>c. c\<lparr>cv_latestSeq := ms_conversationSeq m\<rparr>) (conversations d)).
       cv_conversationId r = ci \<and> cv_latestSeq r = l'"
    by blast
qed

lemma append_states:
  assumes "next_message E d m c"
  shows "inv_states (append_message m d)"
  using next_messageD(1) [OF assms] state_ok_grows [OF grows_append [OF assms]]
    device_state_ok_grows [OF grows_append [OF assms]]
  by (auto simp: db_inv_def inv_states_def)

lemma append_log:
  assumes "next_message E d m c"
  shows "inv_log (append_message m d)"
proof -
  note inv = next_messageD(1) [OF assms] and conv = next_messageD(2,3) [OF assms]
    and seq = next_messageD(4) [OF assms] and log = next_messageD(5) [OF assms]
    and keys = next_messageD(6) [OF assms]
  have ids: "cv_conversationId ` set (conversations (append_message m d)) =
      cv_conversationId ` set (conversations d)"
  proof -
    have "map cv_conversationId (conversations (append_message m d)) =
        map cv_conversationId (conversations d)"
      unfolding append_message_conversations by (rule map_update_where) simp
    then show ?thesis by (metis set_map)
  qed
  have "0 \<le> cv_latestSeq r' \<and>
      map ms_conversationSeq (conv_messages (cv_conversationId r') (append_message m d)) =
      [1..cv_latestSeq r']"
    if r': "r' \<in> set (conversations (append_message m d))" for r'
  proof -
    obtain r where r: "r \<in> set (conversations d)"
      and upd: "r' = (if cv_conversationId r = ms_conversationId m
                      then r\<lparr>cv_latestSeq := ms_conversationSeq m\<rparr> else r)"
      using r' by (auto simp: append_message_conversations in_update_where)
    show ?thesis
    proof (cases "cv_conversationId r = ms_conversationId m")
      case True
      then have "r = c" using r conv keys inv_keys_conversation by metis
      have "0 \<le> cv_latestSeq c" using inv_logD(1) [OF log conv(1)] .
      then have "[1..cv_latestSeq c + 1] = [1..cv_latestSeq c] @ [cv_latestSeq c + 1]"
        by (simp add: upto_rec2)
      then show ?thesis
        using True upd seq conv \<open>r = c\<close> inv_logD [OF log conv(1)]
        by (simp add: conv_messages_append)
    next
      case False
      then show ?thesis using upd inv_logD [OF log r] by (simp add: conv_messages_append)
    qed
  qed
  moreover have "ms_conversationId x \<in> cv_conversationId ` set (conversations (append_message m d))"
    if "x \<in> set (messages (append_message m d))" for x
    using that log conv unfolding ids inv_log_def by (auto intro: rev_image_eqI)
  ultimately show ?thesis unfolding inv_log_def by blast
qed

lemma append_keys:
  assumes nxt: "next_message E d m c"
    and "\<And>x. x \<in> set (messages d) \<Longrightarrow> ms_messageId x \<noteq> ms_messageId m"
    and "\<And>x. x \<in> set (named_messages (messages d)) \<Longrightarrow> client_key E x \<noteq> client_key E m"
  shows "inv_keys E (append_message m d)"
proof -
  have "inv_keys E d" by (rule next_messageD(6) [OF nxt])
  moreover have "map cv_conversationId (conversations (append_message m d)) =
        map cv_conversationId (conversations d)"
    "map conversation_business (conversations (append_message m d)) =
        map conversation_business (conversations d)"
    unfolding append_message_conversations
    by (rule map_update_where; simp add: conversation_business_def)+
  moreover have "unique_key (client_key E) (named_messages (messages d @ [m]))"
    using assms(3) \<open>inv_keys E d\<close>
    by (auto simp: inv_keys_def named_messages_def unique_key_append)
  ultimately show ?thesis using assms(2)
    by (simp add: inv_keys_def unique_key_append) (simp add: unique_key_def)
qed

lemma append_inv:
  assumes nxt: "next_message E d m c"
    and "\<And>x. x \<in> set (messages d) \<Longrightarrow> ms_messageId x \<noteq> ms_messageId m"
    and "\<And>x. x \<in> set (named_messages (messages d)) \<Longrightarrow> client_key E x \<noteq> client_key E m"
  shows "db_inv E (append_message m d)"
  using append_keys [OF assms] append_log [OF nxt] append_states [OF nxt] next_messageD(1) [OF nxt]
  by (simp add: db_inv_def inv_friends_iff inv_groups_iff)

lemma client_key_iff:
  "ms_clientMessageId m = Some client \<Longrightarrow> x \<in> set (named_messages ms) \<Longrightarrow>
     client_key E x = client_key E m \<longleftrightarrow> same_client E (ms_senderId m) client x"
  by (auto simp: client_key_def named_messages_def same_client_def same_text_def)

lemma insert_message_fresh:
  assumes "next_message E d (row n) c" "ids_below d n" "ms_messageId (row n) = n"
    and "ms_clientMessageId (row n) = Some client"
    and "client_messages E (ms_senderId (row n)) client d = []"
  shows "insert_message E row (set_latest_seq (ms_conversationId (row n)) (ms_conversationSeq (row n)) d, n)
           = Inr (n, append_message (row n) d, n + 1)"
    and "db_inv E (append_message (row n) d)"
    and "ids_below (append_message (row n) d) (n + 1)"
proof -
  have old: "ms_messageId x < n" if "x \<in> set (messages d)" for x
    using assms(2) that by (simp add: ids_below_def)
  have client: "\<not> same_client E (ms_senderId (row n)) client x" if "x \<in> set (messages d)" for x
    using assms(5) that by (auto simp: client_messages_def filter_empty_conv)
  have "\<not> message_clash E (row n) x" if x: "x \<in> set (messages d)" for x
    using old [OF x] old_seq [OF assms(1) x] client [OF x] assms(3,4)
    by (auto simp: message_clash_def message_seq_def)
  then show "insert_message E row (set_latest_seq (ms_conversationId (row n))
      (ms_conversationSeq (row n)) d, n) = Inr (n, append_message (row n) d, n + 1)"
    by (auto simp: insert_message_def insert_row_def list_ex_iff append_message_def set_latest_seq_def)
  show "db_inv E (append_message (row n) d)"
  proof (rule append_inv [OF assms(1)])
    show "ms_messageId x \<noteq> ms_messageId (row n)" if "x \<in> set (messages d)" for x
      using old [OF that] assms(3) by simp
    show "client_key E x \<noteq> client_key E (row n)" if "x \<in> set (named_messages (messages d))" for x
    proof -
      have "x \<in> set (messages d)" using that by (simp add: named_messages_def)
      with client client_key_iff [OF assms(4) that] show ?thesis by blast
    qed
  qed
  show "ids_below (append_message (row n) d) (n + 1)"
    using old assms(3) by (fastforce simp: ids_below_def)
qed

text \<open>User states of a direct conversation.\<close>

lemma fold_insert_ignore_set:
  "set (fold (insert_ignore userState_clash) new ss) \<subseteq> set ss \<union> set new"
proof (induction new arbitrary: ss)
  case (Cons r new)
  have "set (insert_ignore userState_clash r ss) \<subseteq> insert r (set ss)"
    by (auto simp: insert_ignore_def)
  with Cons.IH [of "insert_ignore userState_clash r ss"] show ?case by auto
qed simp

lemma fold_insert_ignore_keys:
  "userState_key ` set (fold (insert_ignore userState_clash) new ss) =
     userState_key ` set ss \<union> userState_key ` set new"
proof (induction new arbitrary: ss)
  case (Cons r new)
  have "userState_key ` set (insert_ignore userState_clash r ss) =
      insert (userState_key r) (userState_key ` set ss)"
    by (auto simp: insert_ignore_def list_ex_iff userState_clash_def)
  with Cons show ?case by auto
qed simp

lemma fold_insert_ignore_unique:
  "unique_key userState_key ss \<Longrightarrow>
     unique_key userState_key (fold (insert_ignore userState_clash) new ss)"
  by (induction new arbitrary: ss) (auto intro: userState_pk.insert_ignore_unique)

lemma ignore_userStates_simps [simp]:
  "messages (ignore_userStates new d) = messages d"
  "friends (ignore_userStates new d) = friends d"
  "conversations (ignore_userStates new d) = conversations d"
  "friendApplys (ignore_userStates new d) = friendApplys d"
  "groupInfo (ignore_userStates new d) = groupInfo d"
  "groupMembers (ignore_userStates new d) = groupMembers d"
  "groupApplys (ignore_userStates new d) = groupApplys d"
  "fileObjects (ignore_userStates new d) = fileObjects d"
  "fileUploads (ignore_userStates new d) = fileUploads d"
  "conversationDeviceStates (ignore_userStates new d) = conversationDeviceStates d"
  "userInfo (ignore_userStates new d) = userInfo d"
  "devices (ignore_userStates new d) = devices d"
  by (simp_all add: ignore_userStates_def)

lemma ignore_userStates_rels [simp]:
  "convs (ignore_userStates new d) = convs d"
  "groups (ignore_userStates new d) = groups d"
  "members (ignore_userStates new d) = members d"
  "applies (ignore_userStates new d) = applies d"
  "friendships (ignore_userStates new d) = friendships d"
  "states (ignore_userStates new d) = states d \<union> userState_key ` set new"
  by (simp_all add: rel_defs) (simp add: ignore_userStates_def fold_insert_ignore_keys)

lemma ignore_userStates_inv:
  assumes inv: "db_inv E d" and new: "\<And>s. s \<in> set new \<Longrightarrow> state_ok (conversations d) s"
    and direct: "\<And>s b. s \<in> set new \<Longrightarrow> (us_conversationId s, 2, b) \<notin> convs d"
  shows "db_inv E (ignore_userStates new d)"
proof -
  have "inv_states (ignore_userStates new d)"
    using inv new fold_insert_ignore_set [of new "conversationUserStates d"]
    by (fastforce simp: db_inv_def inv_states_def ignore_userStates_def)
  moreover have "inv_keys E (ignore_userStates new d)"
    using inv by (simp add: db_inv_def inv_keys_def)
      (simp add: ignore_userStates_def fold_insert_ignore_unique)
  moreover have "inv_log (ignore_userStates new d)"
    using inv by (simp add: db_inv_def inv_log_def conv_messages_def)
  moreover have "inv_friends (ignore_userStates new d)"
    using inv by (auto simp: db_inv_def intro: inv_friends_mono)
  moreover have "inv_groups (ignore_userStates new d)"
    using inv direct unfolding db_inv_def inv_groups_iff
    by (fastforce simp: userState_key_def)
  ultimately show ?thesis by (simp add: db_inv_def)
qed

lemma direct_conversation_row:
  assumes "first_row (direct_conversation a b d) = Some c"
  obtains cv f where "cv \<in> set (conversations d)" "cv_conversationId cv = c" "cv_type cv = 1"
    "f \<in> set (friends d)" "fr_uidA f = a" "fr_uidB f = b" "cv_businessId cv = fr_friendshipId f"
  using first_row_SomeD [OF assms] by (auto simp: direct_conversation_def split: if_splits)

lemma conv_type_unique:
  assumes "inv_keys E d" "cv \<in> set (conversations d)" "(cv_conversationId cv, t, b) \<in> convs d"
  shows "t = cv_type cv"
  using assms inv_keys_conversation [OF assms(1) _ assms(2)] by (auto simp: conv_in_convs)

lemma latest_seq_row:
  assumes "inv_keys E d" "cv \<in> set (conversations d)"
  shows "first_row (latest_seq (cv_conversationId cv) d) = Some (cv_latestSeq cv)"
proof (cases "first_row (latest_seq (cv_conversationId cv) d)")
  case None
  then show ?thesis using assms(2) by (auto simp: latest_seq_def filter_empty_conv)
next
  case (Some l)
  then show ?thesis
    using first_row_SomeD [OF Some] assms inv_keys_conversation [of E d _ cv]
    by (auto simp: latest_seq_def)
qed

lemma accept_direct_closes [simp]: "closes (accept_direct_text_body E op)"
  by (simp add: accept_direct_text_body_def Let_def closes_exec closes_query split: option.splits)

lemma direct_stranger:
  assumes "direct_friends op d = None"
  shows "clean (accept_direct_text_body E op) (d, n) =
    Inr (Some Rollback, new_accept\<lparr>ac_error := UserNotFriend\<rparr>, d, n)"
  using assms by (simp add: accept_direct_text_body_def direct_friends_def Let_def)

lemma direct_states_inv:
  assumes "db_inv E d" "direct_friends op d = Some c"
  shows "db_inv E (direct_states op c d)"
proof -
  obtain cv where cv: "cv \<in> set (conversations d)" "cv_conversationId cv = c" "cv_type cv = 1"
    using assms(2) unfolding direct_friends_def by (rule direct_conversation_row) auto
  have "inv_keys E d" "inv_log d" using assms(1) by (simp_all add: db_inv_def)
  have "0 \<le> cv_latestSeq cv" using inv_logD(1) [OF \<open>inv_log d\<close> cv(1)] .
  show ?thesis unfolding direct_states_def
  proof (rule ignore_userStates_inv [OF assms(1)])
    show "state_ok (conversations d) s"
      if "s \<in> set [new_userState c (dt_sender_id op) 1, new_userState c (dt_receiver_id op) 1]" for s
      using that cv \<open>0 \<le> cv_latestSeq cv\<close> by (auto simp: state_ok_def new_userState_def)
    show "(us_conversationId s, 2, b) \<notin> convs d"
      if "s \<in> set [new_userState c (dt_sender_id op) 1, new_userState c (dt_receiver_id op) 1]" for s b
      using that cv conv_type_unique [OF \<open>inv_keys E d\<close> cv(1), of 2 b] by (auto simp: new_userState_def)
  qed
qed

lemma direct_latest:
  assumes "db_inv E d" "direct_friends op d = Some c"
  obtains cv where "cv \<in> set (conversations d)" "cv_conversationId cv = c" "cv_type cv = 1"
    "first_row (latest_seq c d) = Some (cv_latestSeq cv)"
proof -
  obtain cv where cv: "cv \<in> set (conversations d)" "cv_conversationId cv = c" "cv_type cv = 1"
    using assms(2) unfolding direct_friends_def by (rule direct_conversation_row) auto
  with assms(1) latest_seq_row [of E d cv] that show ?thesis by (auto simp: db_inv_def)
qed

lemma direct_states_reads [simp]:
  "latest_seq x (direct_states op c d) = latest_seq x d"
  "client_messages E u k (direct_states op c d) = client_messages E u k d"
  "direct_known E op (direct_states op c d) = direct_known E op d"
  "ids_below (direct_states op c d) n = ids_below d n"
  by (simp_all add: latest_seq_def client_messages_def direct_states_def direct_known_def ids_below_def)

lemma direct_repeat:
  assumes "db_inv E d" "direct_friends op d = Some c" "direct_known E op d = Some m"
  shows "clean (accept_direct_text_body E op) (d, n) =
    (if same_command m c (dt_receiver_id op) (dt_message_type op) (dt_content op)
     then Inr (Some Commit, \<lparr>ac_error = Success, ac_diagnostic = '''', ac_duplicate = True,
            ac_messageId = ms_messageId m, ac_conversationId = c,
            ac_conversationSeq = ms_conversationSeq m\<rparr>, direct_states op c d, n)
     else Inr (Some Rollback, new_accept\<lparr>ac_conversationId := c, ac_error := IdempotencyConflict\<rparr>,
            direct_states op c d, n))"
proof -
  obtain cv where "cv \<in> set (conversations d)" "first_row (latest_seq c d) = Some (cv_latestSeq cv)"
    by (rule direct_latest [OF assms(1,2)])
  with assms(2,3) have "clean (accept_direct_text_body E op) (d, n) =
    (if same_command m c (dt_receiver_id op) (dt_message_type op) (dt_content op)
     then Inr (Some Commit, new_accept\<lparr>ac_conversationId := c, ac_messageId := ms_messageId m,
            ac_conversationSeq := ms_conversationSeq m, ac_duplicate := True, ac_error := Success\<rparr>,
            direct_states op c d, n)
     else Inr (Some Rollback, new_accept\<lparr>ac_conversationId := c, ac_error := IdempotencyConflict\<rparr>,
            direct_states op c d, n))"
    by (simp add: accept_direct_text_body_def direct_friends_def direct_known_def Let_def
        direct_states_def [symmetric])
  then show ?thesis by (simp add: new_accept_def)
qed

lemma direct_fresh:
  assumes "db_inv E d" "ids_below d n" "direct_friends op d = Some c" "direct_known E op d = None"
    and "cv \<in> set (conversations d)" "cv_conversationId cv = c"
  defines "m \<equiv> direct_message E op c (cv_latestSeq cv + 1) n"
  shows "clean (accept_direct_text_body E op) (d, n) =
      Inr (Some Commit, \<lparr>ac_error = Success, ac_diagnostic = '''', ac_duplicate = False,
            ac_messageId = n, ac_conversationId = c, ac_conversationSeq = cv_latestSeq cv + 1\<rparr>,
           append_message m (direct_states op c d), n + 1)"
    and "db_inv E (append_message m (direct_states op c d))"
    and "ids_below (append_message m (direct_states op c d)) (n + 1)"
proof -
  let ?row = "direct_message E op c (cv_latestSeq cv + 1)" and ?d = "direct_states op c d"
  have seq: "first_row (latest_seq c d) = Some (cv_latestSeq cv)"
    using assms(1,5,6) latest_seq_row [of E d cv] by (auto simp: db_inv_def)
  have nxt: "next_message E ?d (?row n) cv"
    using direct_states_inv [OF assms(1,3)] assms(5,6)
    by (simp add: next_message_def direct_message_def new_message_def direct_states_def)
  have none: "client_messages E (dt_sender_id op) (dt_client_message_id op) d = []"
    using assms(4) by (simp add: direct_known_def)
  have fields: "ms_messageId (?row n) = n" "ms_clientMessageId (?row n) = Some (dt_client_message_id op)"
    "ms_senderId (?row n) = dt_sender_id op" "ms_conversationId (?row n) = c"
    "ms_conversationSeq (?row n) = cv_latestSeq cv + 1"
    by (simp_all add: direct_message_def new_message_def)
  note fresh = insert_message_fresh [where row = ?row, OF nxt _ fields(1,2), unfolded fields direct_states_reads,
      OF assms(2) none]
  show "db_inv E (append_message m ?d)" "ids_below (append_message m ?d) (n + 1)"
    using fresh(2,3) by (simp_all add: m_def)
  have "clean (accept_direct_text_body E op) (d, n) =
      clean (query (new_accept\<lparr>ac_conversationId := c, ac_conversationSeq := cv_latestSeq cv + 1\<rparr>)
        (insert_message E ?row) (\<lambda>insert_id.
          let acc2 = new_accept\<lparr>ac_conversationId := c, ac_conversationSeq := cv_latestSeq cv + 1,
                                ac_messageId := insert_id\<rparr> in
          Finish Commit acc2 (acc2\<lparr>ac_error := Success\<rparr>)))
        (set_latest_seq c (cv_latestSeq cv + 1) ?d, n)"
    using assms(3) seq none
    by (simp add: accept_direct_text_body_def direct_friends_def Let_def
        direct_states_def [symmetric] direct_message_def [abs_def])
  then show "clean (accept_direct_text_body E op) (d, n) =
      Inr (Some Commit, \<lparr>ac_error = Success, ac_diagnostic = '''', ac_duplicate = False,
            ac_messageId = n, ac_conversationId = c, ac_conversationSeq = cv_latestSeq cv + 1\<rparr>,
           append_message m ?d, n + 1)"
    using fresh(1) by (simp add: m_def Let_def new_accept_def)
qed

lemma accept_group_closes [simp]: "closes (accept_group_message_body E op)"
  by (simp add: accept_group_message_body_def accept_group_sequence_def accept_group_finish_def
      Let_def closes_exec closes_query split: option.splits)

lemma group_outsider:
  assumes "group_of op d = None"
  shows "clean (accept_group_message_body E op) (d, n) =
    Inr (Some Rollback, (new_group_accept (gt_group_id op))\<lparr>ac_error := MessageOwnershipInvalid\<rparr>, d, n)"
  using assms by (simp add: accept_group_message_body_def group_of_def Let_def)

lemma group_file_missing:
  assumes "group_of op d = Some c" "\<not> group_file_ok E op d"
  shows "clean (accept_group_message_body E op) (d, n) =
    Inr (Some Rollback, (new_group_accept (gt_group_id op))\<lparr>ac_conversationId := c, ac_error := NotFound\<rparr>, d, n)"
  using assms by (simp add: accept_group_message_body_def group_of_def group_file_ok_def Let_def)

lemma group_conversation_row:
  assumes "db_inv E d" "group_of op d = Some c"
  obtains cv g where "cv \<in> set (conversations d)" "cv_conversationId cv = c" "cv_type cv = 2"
    "g \<in> set (groupInfo d)" "gi_conversationId g = c" "gi_groupId g = gt_group_id op"
    "(gt_group_id op, gt_sender_id op) \<in> members d"
proof -
  obtain g where g: "g \<in> set (groupInfo d)" "gi_conversationId g = c" "gi_groupId g = gt_group_id op"
    "(gt_group_id op, gt_sender_id op) \<in> members d"
    using first_row_SomeD [OF assms(2) [unfolded group_of_def]]
    by (auto simp: group_conversation_of_def member_in_members split: if_splits)
  moreover obtain cv where "cv \<in> set (conversations d)" "cv_conversationId cv = c" "cv_type cv = 2"
    using assms(1) g by (auto simp: db_inv_def inv_groups_def group_ok_def)
  ultimately show thesis using that by blast
qed

lemma group_sequence:
  assumes "group_of op d = Some c" "group_file_ok E op d"
  shows "clean (accept_group_message_body E op) (d, n) =
    clean (accept_group_sequence E op ((new_group_accept (gt_group_id op))\<lparr>ac_conversationId := c\<rparr>)) (d, n)"
proof (cases "gt_require_ready_owned_file op")
  case True
  then obtain f where
    "first_row (ready_owned_files E (gt_content op) (gt_sender_id op) (gt_send_date_time op) d) = Some f"
    using assms(2)
    by (cases "ready_owned_files E (gt_content op) (gt_sender_id op) (gt_send_date_time op) d")
      (auto simp: group_file_ok_def)
  with True assms(1) show ?thesis
    by (simp add: accept_group_message_body_def group_of_def Let_def)
next
  case False
  with assms(1) show ?thesis by (simp add: accept_group_message_body_def group_of_def Let_def)
qed

lemma group_repeat:
  assumes "db_inv E d" "group_of op d = Some c" "group_file_ok E op d" "group_known E op d = Some m"
  shows "clean (accept_group_message_body E op) (d, n) =
    (if same_command m c (gt_group_id op) (gt_message_type op) (gt_content op)
     then Inr (Some Commit,
            group_accepted op d c True (ms_messageId m) (ms_conversationSeq m), d, n)
     else Inr (Some Rollback, (new_group_accept (gt_group_id op))\<lparr>ac_conversationId := c,
            ac_error := IdempotencyConflict\<rparr>, d, n))"
proof -
  obtain cv where cv: "cv \<in> set (conversations d)" "cv_conversationId cv = c"
    by (rule group_conversation_row [OF assms(1,2)])
  have "first_row (latest_seq c d) = Some (cv_latestSeq cv)"
    using assms(1) cv latest_seq_row [of E d cv] by (auto simp: db_inv_def)
  with assms(4) show ?thesis unfolding group_sequence [OF assms(2,3)]
    by (simp add: accept_group_sequence_def accept_group_finish_def group_known_def
        Let_def new_group_accept_def group_accepted_def)
qed

lemma group_fresh:
  assumes "db_inv E d" "ids_below d n" "group_of op d = Some c" "group_file_ok E op d"
    and "group_known E op d = None" "cv \<in> set (conversations d)" "cv_conversationId cv = c"
  defines "m \<equiv> group_message E op c (cv_latestSeq cv + 1) n"
  shows "clean (accept_group_message_body E op) (d, n) =
      Inr (Some Commit, group_accepted op d c False n (cv_latestSeq cv + 1), append_message m d, n + 1)"
    and "db_inv E (append_message m d)"
    and "ids_below (append_message m d) (n + 1)"
proof -
  let ?row = "group_message E op c (cv_latestSeq cv + 1)"
  have seq: "first_row (latest_seq c d) = Some (cv_latestSeq cv)"
    using assms(1,6,7) latest_seq_row [of E d cv] by (auto simp: db_inv_def)
  have nxt: "next_message E d (?row n) cv"
    using assms(1,6,7) by (simp add: next_message_def group_message_def new_message_def)
  have none: "client_messages E (gt_sender_id op) (gt_client_message_id op) d = []"
    using assms(5) by (simp add: group_known_def)
  have fields: "ms_messageId (?row n) = n" "ms_clientMessageId (?row n) = Some (gt_client_message_id op)"
    "ms_senderId (?row n) = gt_sender_id op" "ms_conversationId (?row n) = c"
    "ms_conversationSeq (?row n) = cv_latestSeq cv + 1"
    by (simp_all add: group_message_def new_message_def)
  note fresh = insert_message_fresh [where row = ?row, OF nxt assms(2) fields(1,2), unfolded fields, OF none]
  show "db_inv E (append_message m d)" "ids_below (append_message m d) (n + 1)"
    using fresh(2,3) by (simp_all add: m_def)
  have members: "other_members g u (append_message m d) = other_members g u d" for g u
    by (simp add: other_members_def)
  have "clean (accept_group_message_body E op) (d, n) =
      clean (query ((new_group_accept (gt_group_id op))\<lparr>ac_conversationId := c,
                       ac_conversationSeq := cv_latestSeq cv + 1\<rparr>)
        (insert_message E ?row) (\<lambda>insert_id. accept_group_finish op
          ((new_group_accept (gt_group_id op))\<lparr>ac_conversationId := c,
                       ac_conversationSeq := cv_latestSeq cv + 1, ac_messageId := insert_id\<rparr>)))
        (set_latest_seq c (cv_latestSeq cv + 1) d, n)"
    unfolding group_sequence [OF assms(3,4)] using seq none
    by (simp add: accept_group_sequence_def Let_def group_message_def [abs_def] new_group_accept_def)
  then show "clean (accept_group_message_body E op) (d, n) =
      Inr (Some Commit, group_accepted op d c False n (cv_latestSeq cv + 1), append_message m d, n + 1)"
    using fresh(1) members
    by (simp add: m_def accept_group_finish_def Let_def new_group_accept_def group_accepted_def)
qed

text \<open>Acknowledging.\<close>

lemma acknowledge_closes [simp]: "closes (acknowledge_body E op)"
  by (auto simp: acknowledge_body_def acknowledge_finish_def Let_def closes_exec split: option.splits)

lemma ack_frame [simp]:
  "conversations (mark_message E st t i d) = conversations d"
  "conversations (advance_user s st u c d) = conversations d"
  "conversations (advance_device E c dv s d) = conversations d"
  "conversationUserStates (mark_message E st t i d) = conversationUserStates d"
  "conversationUserStates (advance_device E c dv s d) = conversationUserStates d"
  "messages (advance_user s st u c d) = messages d"
  "messages (advance_device E c dv s d) = messages d"
  "conversationDeviceStates (mark_message E st t i d) = conversationDeviceStates d"
  "conversationDeviceStates (advance_user s st u c d) = conversationDeviceStates d"
  by (simp_all add: mark_message_def advance_user_def advance_device_def)

lemma map_mark_message:
  assumes "\<And>m x y. g (m\<lparr>ms_readDateTime := x, ms_status := y\<rparr>) = g m"
  shows "map g (messages (mark_message E st t i d)) = map g (messages d)"
  using assms by (simp add: mark_message_def map_update_where)

lemma mark_message_inv:
  assumes "db_inv E d"
  shows "db_inv E (mark_message E st t i d)"
proof -
  let ?d = "mark_message E st t i d"
  have rels: "convs ?d = convs d" "states ?d = states d" "groups ?d = groups d"
    "members ?d = members d" "applies ?d = applies d" "friendships ?d = friendships d"
    by (simp_all add: rel_defs mark_message_def)
  let ?P = "\<lambda>m. ms_messageId m = i"
  let ?f = "\<lambda>m. m\<lparr>ms_readDateTime :=
                   (if st = 3 \<and> (ms_status m < 3 \<or> same_text E (ms_readDateTime m) '''')
                    then t else ms_readDateTime m),
                 ms_status := max (ms_status m) st\<rparr>"
  have ms: "messages ?d = update_where ?P ?f (messages d)" by (simp add: mark_message_def)
  have log: "map ms_conversationSeq (conv_messages c ?d) = map ms_conversationSeq (conv_messages c d)" for c
    unfolding conv_messages_def ms
    by (subst filter_update_where) (simp_all add: map_update_where)
  have named: "map (client_key E) (named_messages (messages ?d)) =
      map (client_key E) (named_messages (messages d))"
    unfolding named_messages_def ms
    by (subst filter_update_where) (simp_all add: map_update_where client_key_def)
  have "map ms_conversationId (messages ?d) = map ms_conversationId (messages d)"
    by (rule map_mark_message) simp
  then have ids: "ms_conversationId ` set (messages ?d) = ms_conversationId ` set (messages d)"
    by (metis set_map)
  have "inv_log ?d"
    using assms log ids by (simp add: db_inv_def inv_log_iff)
  moreover have "map ms_messageId (messages ?d) = map ms_messageId (messages d)"
    by (rule map_mark_message) simp
  then have "inv_keys E ?d"
    using assms named unfolding db_inv_def inv_keys_def unique_key_def
    by (simp add: mark_message_def)
  moreover have "inv_states ?d" using assms by (simp add: db_inv_def inv_states_def)
  ultimately show ?thesis using assms
    by (simp add: db_inv_def inv_friends_iff inv_groups_iff rels)
qed

lemma advance_user_inv:
  assumes inv: "db_inv E d" and conv: "(c, l) \<in> latest_of d" and seq: "1 \<le> s" "s \<le> l"
  shows "db_inv E (advance_user s st u c d)"
proof -
  let ?d = "advance_user s st u c d"
  let ?P = "\<lambda>x. us_uid x = u \<and> us_conversationId x = c"
  let ?f = "\<lambda>x. x\<lparr>us_deliveredSeq := max (us_deliveredSeq x) s,
                us_readSeq := (if st = 3 then max (us_readSeq x) s else us_readSeq x)\<rparr>"
  have ss: "conversationUserStates ?d = update_where ?P ?f (conversationUserStates d)"
    by (simp add: advance_user_def)
  have keys: "map userState_key (conversationUserStates ?d) = map userState_key (conversationUserStates d)"
    unfolding ss by (rule map_update_where) (simp add: userState_key_def)
  have "states ?d = states d" unfolding states_def using keys by (metis set_map)
  then have rels: "convs ?d = convs d" "states ?d = states d" "groups ?d = groups d"
    "members ?d = members d" "applies ?d = applies d" "friendships ?d = friendships d"
    by (simp_all add: rel_defs advance_user_def)
  have unique: "l' = l" if "(c, l') \<in> latest_of d" for l'
    using latest_unique [OF inv that conv] .
  have ok: "state_ok (conversations d) (?f x)" if x: "state_ok (conversations d) x" "?P x" for x
  proof -
    obtain l' where "(c, l') \<in> latest_of d" "1 \<le> us_joinedSeq x" "us_joinedSeq x \<le> l' + 1"
      "0 \<le> us_readSeq x" "us_readSeq x \<le> us_deliveredSeq x" "us_deliveredSeq x \<le> l'"
      using x unfolding state_ok_iff by auto
    moreover from this(1) have "l' = l" by (rule unique)
    ultimately show ?thesis unfolding state_ok_iff
      using seq conv x(2) by (intro exI [of _ l]) auto
  qed
  have "inv_states ?d"
    using inv ok by (auto simp: db_inv_def inv_states_def ss in_update_where)
  moreover have "inv_keys E ?d"
    using inv keys unfolding db_inv_def inv_keys_def unique_key_def by (simp add: advance_user_def)
  moreover have "inv_log ?d" using inv by (simp add: db_inv_def inv_log_def conv_messages_def)
  ultimately show ?thesis using inv by (simp add: db_inv_def inv_friends_iff inv_groups_iff rels)
qed

lemma advance_device_inv:
  assumes inv: "db_inv E d" and conv: "(c, l) \<in> latest_of d" and seq: "1 \<le> s" "s \<le> l"
  shows "db_inv E (advance_device E c v s d)"
proof -
  let ?d = "advance_device E c v s d"
  let ?new = "\<lparr>ds_conversationId = c, ds_deviceId = v, ds_persistedSeq = s\<rparr>"
  let ?upd = "\<lambda>x. x\<lparr>ds_persistedSeq := max (ds_persistedSeq x) s\<rparr>"
  have ss: "conversationDeviceStates ?d =
      upsert_row (deviceState_clash E) ?upd ?new (conversationDeviceStates d)"
    by (simp add: advance_device_def)
  have rels: "convs ?d = convs d" "states ?d = states d" "groups ?d = groups d"
    "members ?d = members d" "applies ?d = applies d" "friendships ?d = friendships d"
    by (simp_all add: rel_defs advance_device_def)
  have unique: "l' = l" if "(c, l') \<in> latest_of d" for l'
    using latest_unique [OF inv that conv] .
  have new: "device_state_ok (conversations d) ?new"
    using conv seq by (auto simp: device_state_ok_iff)
  have upd: "device_state_ok (conversations d) (?upd x)"
    if x: "device_state_ok (conversations d) x" "deviceState_clash E ?new x" for x
  proof -
    have c: "ds_conversationId x = c"
      using x(2) by (simp add: deviceState_clash_def deviceState_key_def)
    obtain l' where "(c, l') \<in> latest_of d" "0 \<le> ds_persistedSeq x" "ds_persistedSeq x \<le> l'"
      using x(1) c unfolding device_state_ok_iff by auto
    moreover from this(1) have "l' = l" by (rule unique)
    ultimately show ?thesis unfolding device_state_ok_iff
      using seq conv c by (intro exI [of _ l]) auto
  qed
  have "inv_states ?d"
    using inv new upd by (auto simp: db_inv_def inv_states_def ss upsert_row_def)
  moreover have "unique_key (deviceState_key E) (conversationDeviceStates ?d)"
    unfolding ss using inv
    by (intro deviceState_pk.upsert_row_unique) (auto simp: db_inv_def inv_keys_def deviceState_key_def)
  then have "inv_keys E ?d"
    using inv unfolding db_inv_def inv_keys_def by (simp add: advance_device_def)
  moreover have "inv_log ?d" using inv by (simp add: db_inv_def inv_log_def conv_messages_def)
  ultimately show ?thesis using inv by (simp add: db_inv_def inv_friends_iff inv_groups_iff rels)
qed

lemma ack_foreign:
  assumes "ack_owner E op d = None"
  shows "clean (acknowledge_body E op) (d, n) = Inr (Some Rollback, new_ack\<lparr>ak_updated := 0\<rparr>, d, n)"
  using assms by (simp add: acknowledge_body_def ack_owner_def Let_def)

lemma ack_owned:
  assumes "ack_owner E op d = Some (t, receiver, sender, old)"
  defines "direct \<equiv> (t = 1 \<and> receiver = ack_uid op)"
  shows "clean (acknowledge_body E op) (d, n) =
    Inr (Some Commit, \<lparr>ak_updated = 1, ak_senderUid = sender, ak_directConversation = (t = 1),
           ak_readStateChanged = (direct \<and> ack_status op = message_READ \<and> old < message_READ)\<rparr>,
         ack_effect E op direct d, n)"
  using assms by (simp add: acknowledge_body_def ack_owner_def acknowledge_finish_def Let_def
      ack_effect_def new_ack_def)

lemma ack_ownerD:
  assumes "ack_owner E op d = Some (t, receiver, sender, old)"
  obtains m c where "m \<in> set (messages d)" "c \<in> set (conversations d)"
    "ms_messageId m = ack_message_id op" "ms_conversationId m = ack_conversation_id op"
    "ms_conversationSeq m = ack_conversation_seq op" "cv_conversationId c = ack_conversation_id op"
    "cv_type c = t" "ms_receiverId m = receiver" "ms_senderId m = sender" "ms_status m = old"
    "(ack_conversation_id op, ack_uid op) \<in> states d"
proof -
  have "(t, receiver, sender, old) \<in> set (owned_messages E (ack_uid op) (ack_device_id op)
      (ack_message_id op) (ack_conversation_id op) (ack_conversation_seq op) d)"
    using assms unfolding ack_owner_def by (rule first_row_SomeD)
  then obtain m c s where "m \<in> set (messages d)" "c \<in> set (conversations d)"
    "ms_messageId m = ack_message_id op" "ms_conversationId m = ack_conversation_id op"
    "ms_conversationSeq m = ack_conversation_seq op" "cv_conversationId c = ms_conversationId m"
    "s \<in> set (conversationUserStates d)" "us_conversationId s = cv_conversationId c"
    "us_uid s = ack_uid op"
    "cv_type c = t" "ms_receiverId m = receiver" "ms_senderId m = sender" "ms_status m = old"
    unfolding owned_messages_def by (auto split: if_splits)
  then show thesis by (intro that [of m c]) (auto simp: state_in_states)
qed

lemma ack_effect_inv:
  assumes "db_inv E d" "ack_owner E op d = Some (t, receiver, sender, old)"
  shows "db_inv E (ack_effect E op direct d)"
proof -
  obtain m c where m: "m \<in> set (messages d)" "c \<in> set (conversations d)"
    "ms_conversationId m = ack_conversation_id op"
    "ms_conversationSeq m = ack_conversation_seq op" "cv_conversationId c = ack_conversation_id op"
    by (rule ack_ownerD [OF assms(2)])
  have seq: "1 \<le> ack_conversation_seq op" "ack_conversation_seq op \<le> cv_latestSeq c"
    using inv_log_seq [of d E m c] m assms(1) by (auto simp: db_inv_def)
  have latest: "(ack_conversation_id op, cv_latestSeq c) \<in> latest_of d"
    using m by (auto simp: latest_in)
  define d1 where "d1 = (if direct then mark_message E (ack_status op) (ack_read_date_time op) (ack_message_id op) d else d)"
  have d1: "db_inv E d1" "conversations d1 = conversations d"
    using assms(1) mark_message_inv by (auto simp: d1_def)
  define d2 where "d2 = advance_user (ack_conversation_seq op) (ack_status op) (ack_uid op) (ack_conversation_id op) d1"
  have "(ack_conversation_id op, cv_latestSeq c) \<in> latest_of d1"
    using latest d1(2) by (simp add: latest_of_def)
  then have d2: "db_inv E d2" "conversations d2 = conversations d"
    using advance_user_inv [OF d1(1) _ seq] d1(2) by (auto simp: d2_def)
  have "(ack_conversation_id op, cv_latestSeq c) \<in> latest_of d2"
    using latest d2(2) by (simp add: latest_of_def)
  from advance_device_inv [OF d2(1) this seq] show ?thesis
    by (simp add: ack_effect_def d2_def d1_def)
qed

text \<open>Paging.\<close>

lemma collect_page_spec:
  assumes "length (sy_messages s) \<le> b"
  shows "collect_page b rs s =
    (let page = take (b - length (sy_messages s)) rs in
     s\<lparr>sy_nextSeq := (if page = [] then sy_nextSeq s else cm_conversationSeq (last page)),
       sy_messages := sy_messages s @ page,
       sy_hasMore := (sy_hasMore s \<or> b - length (sy_messages s) < length rs)\<rparr>)"
  using assms
proof (induction b rs s rule: collect_page.induct)
  case (2 b m ms s)
  show ?case
  proof (cases "b \<le> length (sy_messages s)")
    case True
    with "2.prems" show ?thesis by (simp add: Let_def)
  next
    case False
    let ?s = "s\<lparr>sy_nextSeq := cm_conversationSeq m, sy_messages := sy_messages s @ [m]\<rparr>"
    obtain k where k: "b - length (sy_messages s) = Suc k" using False by (cases "b - length (sy_messages s)") auto
    then have k': "b - length (sy_messages ?s) = k" by simp
    have "collect_page b ms ?s = (let page = take k ms in
        ?s\<lparr>sy_nextSeq := (if page = [] then sy_nextSeq ?s else cm_conversationSeq (last page)),
           sy_messages := sy_messages ?s @ page, sy_hasMore := (sy_hasMore ?s \<or> k < length ms)\<rparr>)"
      using "2.IH" [OF False] False unfolding k' by simp
    then show ?thesis using False by (simp add: k Let_def)
  qed
qed (simp add: Let_def)

lemma sorted_log:
  assumes "inv_log d" "r \<in> set (conversations d)" "cv_conversationId r = c"
  shows "sorted_wrt (\<lambda>x y. ms_conversationSeq x < ms_conversationSeq y) (conv_messages c d)"
proof -
  have "sorted_wrt (<) (map ms_conversationSeq (conv_messages c d))"
    using inv_logD(2) [OF assms(1,2)] assms(3) by simp
  then show ?thesis by (simp add: sorted_wrt_map)
qed

lemma joined_records_single:
  assumes "inv_keys E d"
  obtains r where "joined_records E d m = [r]" "cm_conversationSeq r = ms_conversationSeq m"
    "cm_messageId r = ms_messageId m"
proof -
  let ?fs = "filter (\<lambda>f. ms_type m = 5 \<and> same_text E (fo_fileId f) (ms_content m)) (fileObjects d)"
  have "unique_key (\<lambda>r. collate E (fo_fileId r)) ?fs"
    using assms by (intro unique_key_filter) (simp add: inv_keys_def)
  moreover have "collate E (fo_fileId f) = collate E (ms_content m)" if "f \<in> set ?fs" for f
    using that by (simp add: same_text_def)
  ultimately have "length ?fs \<le> 1"
    by (cases ?fs rule: remdups_adj.cases) (auto simp: unique_key_def)
  then consider "?fs = []" | f where "?fs = [f]" by (cases ?fs) auto
  then show thesis
  proof cases
    case 1
    then show thesis
      by (intro that [of "message_record m None"]) (simp_all add: joined_records_def message_record_def)
  next
    case (2 f)
    then show thesis
      by (intro that [of "message_record m (if fo_fileId f = '''' then None else Some (attachment E f))"])
        (simp_all add: joined_records_def message_record_def)
  qed
qed

lemma record_of_simps [simp]:
  assumes "inv_keys E d"
  shows "joined_records E d m = [record_of E d m]"
    and "cm_conversationSeq (record_of E d m) = ms_conversationSeq m"
    and "cm_messageId (record_of E d m) = ms_messageId m"
proof -
  obtain r where "joined_records E d m = [r]" "cm_conversationSeq r = ms_conversationSeq m"
    "cm_messageId r = ms_messageId m"
    by (rule joined_records_single [OF assms])
  then show "joined_records E d m = [record_of E d m]"
    "cm_conversationSeq (record_of E d m) = ms_conversationSeq m"
    "cm_messageId (record_of E d m) = ms_messageId m"
    by (simp_all add: record_of_def)
qed

lemma history_rows_spec:
  assumes "db_inv E d" "r \<in> set (conversations d)" "cv_conversationId r = c" "cv_latestSeq r = l"
  shows "history_rows E c a l k d =
    take k (map (record_of E d) (filter (\<lambda>m. a < ms_conversationSeq m) (conv_messages c d)))"
proof -
  have inv: "inv_keys E d" "inv_log d" using assms(1) by (simp_all add: db_inv_def)
  let ?P = "\<lambda>m. ms_conversationId m = c \<and> a < ms_conversationSeq m \<and> ms_conversationSeq m \<le> l"
  have "ms_conversationSeq m \<le> l" if "m \<in> set (messages d)" "ms_conversationId m = c" for m
    using inv_log_seq(2) [OF inv(2,1) that(1) assms(2)] assms that by simp
  then have flt: "filter ?P (messages d) = filter (\<lambda>m. a < ms_conversationSeq m) (conv_messages c d)"
    by (auto simp: conv_messages_def intro!: filter_cong)
  have "sorted_wrt (\<lambda>x y. ms_conversationSeq x < ms_conversationSeq y)
      (filter (\<lambda>m. a < ms_conversationSeq m) (conv_messages c d))"
    using sorted_log [OF inv(2) assms(2,3)] by (rule sorted_wrt_filter)
  then have "sorted (map ms_conversationSeq (filter (\<lambda>m. a < ms_conversationSeq m) (conv_messages c d)))"
    by (intro strict_sorted_imp_sorted) (simp add: sorted_wrt_map)
  then have "sort_key ms_conversationSeq (filter ?P (messages d)) =
      filter (\<lambda>m. a < ms_conversationSeq m) (conv_messages c d)"
    unfolding flt by (rule sort_key_id_if_sorted)
  moreover have "concat (map (joined_records E d) ms) = map (record_of E d) ms" for ms
    by (induction ms) (simp_all add: inv(1))
  ultimately show ?thesis unfolding history_rows_def by simp
qed

locale paged_log =
  fixes ok :: "'st \<Rightarrow> bool"
    and log :: "'st \<Rightarrow> 'm list"
    and seq :: "'m \<Rightarrow> int"
    and page :: "'st \<Rightarrow> int \<Rightarrow> 'm list \<times> int \<times> bool"
  assumes log_sorted: "ok s \<Longrightarrow> sorted_wrt (\<lambda>x y. seq x < seq y) (log s)"
    and log_positive: "ok s \<Longrightarrow> m \<in> set (log s) \<Longrightarrow> 0 < seq m"
    and page_law: "ok s \<Longrightarrow> 0 \<le> a \<Longrightarrow> page s a = (ms, nx, rem) \<Longrightarrow>
      \<exists>rest. filter (\<lambda>m. a < seq m) (log s) = ms @ rest \<and> (rem \<longleftrightarrow> rest \<noteq> []) \<and>
        (ms = [] \<longrightarrow> rest = []) \<and> (ms \<noteq> [] \<longrightarrow> nx = seq (last ms))"
begin

lemma page_advances:
  assumes "ok s" "0 \<le> a" "page s a = (ms, nx, True)"
  shows "a < nx" "0 \<le> nx" "filter (\<lambda>m. a < seq m) (log s) = ms @ filter (\<lambda>m. nx < seq m) (log s)"
proof -
  obtain rest where rest: "filter (\<lambda>m. a < seq m) (log s) = ms @ rest" "ms \<noteq> []" "nx = seq (last ms)"
    using page_law [OF assms] by auto
  have "last ms \<in> set (filter (\<lambda>m. a < seq m) (log s))" using rest by simp
  then show "a < nx" "0 \<le> nx" using rest(3) assms(2) by auto
  have "sorted_wrt (\<lambda>x y. seq x < seq y) (ms @ rest)"
    using sorted_wrt_filter [OF log_sorted [OF assms(1)], of "\<lambda>m. a < seq m"] rest(1) by simp
  moreover have ms: "ms = butlast ms @ [last ms]" using rest(2) by simp
  ultimately have "sorted_wrt (\<lambda>x y. seq x < seq y) (butlast ms @ last ms # rest)"
    by (metis append.assoc append_Cons append_Nil)
  then have later: "\<forall>m \<in> set rest. nx < seq m" and "\<forall>m \<in> set (butlast ms). seq m < nx"
    using rest(3) by (auto simp: sorted_wrt_append)
  moreover have "m \<in> set (butlast ms) \<or> m = last ms" if "m \<in> set ms" for m
    using that ms by (metis Un_iff empty_iff empty_set set_ConsD set_append)
  ultimately have earlier: "\<forall>m \<in> set ms. seq m \<le> nx"
    using rest(3) by fastforce
  have "filter (\<lambda>m. nx < seq m) (log s) = filter (\<lambda>m. nx < seq m) (filter (\<lambda>m. a < seq m) (log s))"
    using \<open>a < nx\<close> by (auto intro: filter_cong)
  also have "\<dots> = rest" using later earlier rest(1) by (auto simp: filter_id_conv filter_empty_conv)
  finally show "filter (\<lambda>m. a < seq m) (log s) = ms @ filter (\<lambda>m. nx < seq m) (log s)"
    using rest(1) by simp
qed

theorem pull_all_complete:
  assumes "ok s" "0 \<le> a" "length (filter (\<lambda>m. a < seq m) (log s)) < fuel"
  shows "pull_all page fuel s a = Some (filter (\<lambda>m. a < seq m) (log s))"
  using assms(2,3)
proof (induction fuel arbitrary: a)
  case (Suc k)
  obtain ms nx rem where p: "page s a = (ms, nx, rem)" by (cases "page s a") auto
  show ?case
  proof (cases rem)
    case True
    have adv: "0 \<le> nx" "filter (\<lambda>m. a < seq m) (log s) = ms @ filter (\<lambda>m. nx < seq m) (log s)"
      using page_advances [OF assms(1) Suc.prems(1)] p True by auto
    have "ms \<noteq> []" using page_law [OF assms(1) Suc.prems(1) p] True by auto
    then have "length (filter (\<lambda>m. nx < seq m) (log s)) < k"
      using Suc.prems(2) adv(2) by (cases ms) auto
    then show ?thesis using Suc.IH [OF adv(1)] p True adv(2) by simp
  next
    case False
    then show ?thesis using page_law [OF assms(1) Suc.prems(1) p] p by auto
  qed
qed simp

corollary pull_all_from_start:
  assumes "ok s" "length (log s) < fuel"
  shows "pull_all page fuel s 0 = Some (log s)"
proof -
  have "filter (\<lambda>m. 0 < seq m) (log s) = log s"
    using log_positive [OF assms(1)] by (simp add: filter_id_conv)
  with pull_all_complete [OF assms(1), of 0 fuel] assms(2) show ?thesis by simp
qed

end

lemma membership_row:
  assumes "first_row (membership c u d) = Some (latest, joined, left, t)"
  obtains r s where "r \<in> set (conversations d)" "cv_conversationId r = c" "cv_latestSeq r = latest"
    "left = latest" "cv_type r = t" "s \<in> set (conversationUserStates d)" "us_conversationId s = c"
    "us_uid s = u" "us_joinedSeq s = joined" "t \<noteq> 2 \<or> group_member_of_conversation c u d"
proof -
  have "(latest, joined, left, t) \<in> set (membership c u d)"
    using assms by (rule first_row_SomeD)
  then show thesis by (auto simp: membership_def intro: that)
qed

lemma sync_member:
  assumes "db_inv E d" "0 < sc_uid op" "0 < sc_conversation_id op" "0 \<le> sc_after_seq op"
    and mem: "first_row (membership (sc_conversation_id op) (sc_uid op) d) = Some (latest, joined, left, t)"
  defines "after \<equiv> max (sc_after_seq op) (joined - 1)"
  defines "rest \<equiv> map (record_of E d)
     (filter (\<lambda>m. after < ms_conversationSeq m) (conv_messages (sc_conversation_id op) d))"
  defines "page \<equiv> take (nat (bounded_count (sc_pull_count op))) rest"
  shows "clean (sync_conversation_script E op) (d, n) =
    Inr (None, \<lparr>sy_error = Success, sy_conversationType = t, sy_latestSeq = latest,
           sy_nextSeq = (if page = [] then after else cm_conversationSeq (last page)),
           sy_hasMore = (nat (bounded_count (sc_pull_count op)) < length rest), sy_messages = page\<rparr>, d, n)"
proof -
  obtain r where r: "r \<in> set (conversations d)" "cv_conversationId r = sc_conversation_id op"
    "cv_latestSeq r = latest" "left = latest"
    by (rule membership_row [OF mem])
  note rows = history_rows_spec [OF assms(1) r(1-3), of after, unfolded rest_def [symmetric]]
  have "clean (sync_conversation_script E op) (d, n) = Inr (None,
      (let s = collect_page (nat (bounded_count (sc_pull_count op)))
             (take (nat (bounded_count (sc_pull_count op)) + 1) rest)
             (new_sync\<lparr>sy_latestSeq := latest, sy_conversationType := t\<rparr>);
           s' = (if sy_messages s = [] then s\<lparr>sy_nextSeq := after\<rparr> else s)
       in s'\<lparr>sy_error := Success\<rparr>), d, n)"
    using assms(2-4) mem rows r(4) by (simp add: sync_conversation_script_def Let_def after_def)
  also have "\<dots> = Inr (None, \<lparr>sy_error = Success, sy_conversationType = t, sy_latestSeq = latest,
           sy_nextSeq = (if page = [] then after else cm_conversationSeq (last page)),
           sy_hasMore = (nat (bounded_count (sc_pull_count op)) < length rest), sy_messages = page\<rparr>, d, n)"
    by (auto simp: collect_page_spec new_sync_def Let_def page_def min_def)
  finally show ?thesis .
qed

lemma sync_page_member:
  assumes "may_read E uid conversation d" "0 \<le> a" "sync_page E uid conversation count d a = (ms, nx, rem)"
  shows "\<exists>rest. filter (\<lambda>m. a < cm_conversationSeq m) (visible_log E uid conversation d) = ms @ rest \<and>
    (rem \<longleftrightarrow> rest \<noteq> []) \<and> (ms = [] \<longrightarrow> rest = []) \<and> (ms \<noteq> [] \<longrightarrow> nx = cm_conversationSeq (last ms))"
proof -
  let ?op = "\<lparr>sc_uid = uid, sc_conversation_id = conversation, sc_after_seq = a, sc_pull_count = count\<rparr>"
  obtain latest joined left t where
    mem: "first_row (membership conversation uid d) = Some (latest, joined, left, t)"
    using assms(1) by (cases "first_row (membership conversation uid d)") (auto simp: may_read_def)
  have inv: "db_inv E d" "inv_keys E d" using assms(1) by (auto simp: may_read_def db_inv_def)
  let ?all = "map (record_of E d) (filter (\<lambda>m. max a (joined - 1) < ms_conversationSeq m)
      (conv_messages conversation d))"
  let ?b = "nat (bounded_count count)"
  have b: "0 < ?b" by (auto simp: bounded_count_def)
  have vis: "filter (\<lambda>m. a < cm_conversationSeq m) (visible_log E uid conversation d) = ?all"
    using inv(2) by (auto simp: visible_log_def mem filter_map o_def intro!: arg_cong [of _ _ "map (record_of E d)"] filter_cong)
  have "sync_result E ?op d = \<lparr>sy_error = Success, sy_conversationType = t, sy_latestSeq = latest,
       sy_nextSeq = (if take ?b ?all = [] then max a (joined - 1) else cm_conversationSeq (last (take ?b ?all))),
       sy_hasMore = (?b < length ?all), sy_messages = take ?b ?all\<rparr>"
    using sync_member [OF inv(1), of ?op latest joined left t 0] assms(1,2) mem
    by (simp add: sync_result_def may_read_def)
  then have "ms = take ?b ?all" "rem \<longleftrightarrow> ?b < length ?all" "ms \<noteq> [] \<longrightarrow> nx = cm_conversationSeq (last ms)"
    using assms(3) by (auto simp: sync_page_def Let_def)
  then show ?thesis unfolding vis using b
    by (intro exI [of _ "drop ?b ?all"]) (auto simp: take_eq_Nil)
qed

interpretation history: paged_log "may_read E uid conversation" "visible_log E uid conversation"
  cm_conversationSeq "sync_page E uid conversation count" for E uid conversation count
proof unfold_locales
  fix s m a ms nx rem
  assume ok: "may_read E uid conversation s"
  then obtain latest joined left t where
    mem: "first_row (membership conversation uid s) = Some (latest, joined, left, t)"
    by (cases "first_row (membership conversation uid s)") (auto simp: may_read_def)
  obtain r where r: "r \<in> set (conversations s)" "cv_conversationId r = conversation"
    by (rule membership_row [OF mem])
  have inv: "inv_log s" "inv_keys E s" using ok by (auto simp: may_read_def db_inv_def)
  show "sorted_wrt (\<lambda>x y. cm_conversationSeq x < cm_conversationSeq y) (visible_log E uid conversation s)"
    using sorted_wrt_filter [OF sorted_log [OF inv(1) r]] inv(2)
    by (simp add: visible_log_def mem sorted_wrt_map)
  show "0 < cm_conversationSeq m" if "m \<in> set (visible_log E uid conversation s)"
    using that inv(2) inv_log_seq(1) [OF inv _ r(1)] r(2)
    by (fastforce simp: visible_log_def mem conv_messages_def)
  show "\<exists>rest. filter (\<lambda>m. a < cm_conversationSeq m) (visible_log E uid conversation s) = ms @ rest \<and>
    (rem \<longleftrightarrow> rest \<noteq> []) \<and> (ms = [] \<longrightarrow> rest = []) \<and> (ms \<noteq> [] \<longrightarrow> nx = cm_conversationSeq (last ms))"
    if "0 \<le> a" "sync_page E uid conversation count s a = (ms, nx, rem)"
    using sync_page_member [OF ok that] .
qed

end
