(* ===== verification/Store_Friends.thy ===== *)
theory Store_Friends
  imports Store_Ops
begin

text \<open>
  The user and friend operations of \<^verbatim>\<open>message/io/mysql_store.cc\<close>.  A
  \<^verbatim>\<open>std::shared_ptr\<close> result is an option: \<^verbatim>\<open>nullptr\<close> is None.
\<close>

section \<open>Users\<close>

definition user_info_of :: "int \<Rightarrow> userInfo_row \<Rightarrow> UserInfo" where
  "user_info_of uid r =
     \<lparr>usr_uid = uid, usr_name = ui_name r, usr_age = ui_age r, usr_sex = ui_sex r,
      usr_headImageURL = ui_headImageURL r\<rparr>"

definition get_user_info_script :: "int \<Rightarrow> (db, UserInfo option) script" where
  "get_user_info_script uid =
     select None (\<lambda>d. filter (\<lambda>r. ui_uid r = uid) (userInfo d)) (\<lambda>result.
       case first_row result of
         None \<Rightarrow> Return None
       | Some row \<Rightarrow> Return (Some (user_info_of uid row)))"

definition execute_get_user_info :: "int \<Rightarrow> (db conn, UserInfo option) prog" where
  "execute_get_user_info uid = autocommit (get_user_info_script uid)"

definition update_user_info :: "int \<Rightarrow> (userInfo_row \<Rightarrow> userInfo_row) \<Rightarrow> db \<Rightarrow> db" where
  "update_user_info uid f d = d\<lparr>userInfo := update_where (\<lambda>r. ui_uid r = uid) f (userInfo d)\<rparr>"

definition update_user_info_script :: "int \<Rightarrow> (userInfo_row \<Rightarrow> userInfo_row) \<Rightarrow> (db, int) script" where
  "update_user_info_script uid f = exec 0 (\<lambda>d. Inr (update_user_info uid f d)) (Return 0)"

definition execute_update_user_info_name :: "int \<Rightarrow> string \<Rightarrow> (db conn, int) prog" where
  "execute_update_user_info_name uid name =
     autocommit (update_user_info_script uid (\<lambda>r. r\<lparr>ui_name := name\<rparr>))"

definition execute_update_user_info_age :: "int \<Rightarrow> int \<Rightarrow> (db conn, int) prog" where
  "execute_update_user_info_age uid age =
     autocommit (update_user_info_script uid (\<lambda>r. r\<lparr>ui_age := age\<rparr>))"

definition execute_update_user_info_sex :: "int \<Rightarrow> string \<Rightarrow> (db conn, int) prog" where
  "execute_update_user_info_sex uid sex =
     autocommit (update_user_info_script uid (\<lambda>r. r\<lparr>ui_sex := sex\<rparr>))"

definition execute_update_user_info_head_image_url :: "int \<Rightarrow> string \<Rightarrow> (db conn, int) prog" where
  "execute_update_user_info_head_image_url uid url =
     autocommit (update_user_info_script uid (\<lambda>r. r\<lparr>ui_headImageURL := url\<rparr>))"

section \<open>Friends\<close>

definition friend_rows :: "int \<Rightarrow> db \<Rightarrow> Friend list" where
  "friend_rows uid d =
     [\<lparr>frd_friendshipId = fr_friendshipId f, frd_conversationId = cv_conversationId c,
       frd_uidA = uid, frd_uidB = (if fr_uidA f = uid then fr_uidB f else fr_uidA f),
       frd_createTime = fr_createTime f\<rparr>.
        f \<leftarrow> friends d, fr_uidA f = uid \<or> fr_uidB f = uid,
        c \<leftarrow> conversations d, cv_type c = 1 \<and> cv_businessId c = fr_friendshipId f]"

definition get_friend_list_script :: "int \<Rightarrow> (db, Friend list option) script" where
  "get_friend_list_script uid =
     select None (friend_rows uid) (\<lambda>result.
       if result = [] then Return None else Return (Some result))"

definition execute_get_friend_list :: "int \<Rightarrow> (db conn, Friend list option) prog" where
  "execute_get_friend_list uid = autocommit (get_friend_list_script uid)"

text \<open>The application is stored twice, once for each side, by two separate statements.\<close>

definition apply_row :: "int \<Rightarrow> int \<Rightarrow> FriendApply \<Rightarrow> friendApply_row" where
  "apply_row from to a =
     \<lparr>fa_fromUid = int64_of (size_t_of from), fa_toUid = int64_of (size_t_of to), fa_content = fap_content a,
      fa_status = fap_status a, fa_createTime = fap_createTime a\<rparr>"

definition insert_friend_apply_script :: "FriendApply \<Rightarrow> (db, int) script" where
  "insert_friend_apply_script a =
     exec 0 (insert_friendApply (apply_row (fap_from a) (fap_to a) a))
     (exec 0 (insert_friendApply (apply_row (fap_to a) (fap_from a) a))
     (Return 0))"

definition execute_insert_friend_apply :: "FriendApply \<Rightarrow> (db conn, int) prog" where
  "execute_insert_friend_apply a = autocommit (insert_friend_apply_script a)"

definition set_apply_status :: "int \<Rightarrow> int \<Rightarrow> FriendApply \<Rightarrow> db \<Rightarrow> db" where
  "set_apply_status from to a d =
     d\<lparr>friendApplys := update_where
         (\<lambda>r. fa_fromUid r = int64_of (size_t_of from) \<and> fa_toUid r = int64_of (size_t_of to))
         (\<lambda>r. r\<lparr>fa_status := fap_status a, fa_content := fap_content a,
                fa_createTime := fap_createTime a\<rparr>) (friendApplys d)\<rparr>"

definition update_friend_apply_status_script :: "FriendApply \<Rightarrow> (db, int) script" where
  "update_friend_apply_status_script a =
     exec 0 (\<lambda>d. Inr (set_apply_status (fap_from a) (fap_to a) a d))
     (exec 0 (\<lambda>d. Inr (set_apply_status (fap_to a) (fap_from a) a d))
     (Return 0))"

definition execute_update_friend_apply_status :: "FriendApply \<Rightarrow> (db conn, int) prog" where
  "execute_update_friend_apply_status a = autocommit (update_friend_apply_status_script a)"

definition insert_friend_body :: "env \<Rightarrow> Friend \<Rightarrow> (db, int) script" where
  "insert_friend_body E f =
    (let time = current_time E;
         uid_a = int64_of (min (size_t_of (frd_uidA f)) (size_t_of (frd_uidB f)));
         uid_b = int64_of (max (size_t_of (frd_uidA f)) (size_t_of (frd_uidB f)));
         friendship = int64_of (size_t_of (frd_friendshipId f));
         conversation = int64_of (size_t_of (frd_conversationId f)) in
     exec 0 (insert_friendship \<lparr>fr_friendshipId = friendship, fr_uidA = uid_a, fr_uidB = uid_b,
               fr_createTime = time\<rparr>)
     (exec 0 (insert_conversation \<lparr>cv_conversationId = conversation, cv_type = 1,
               cv_businessId = friendship, cv_latestSeq = 0, cv_createTime = time\<rparr>)
     (exec 0 (insert_userStates [new_userState conversation uid_a 1, new_userState conversation uid_b 1])
     (Finish Commit 0 0))))"

definition execute_insert_friend :: "env \<Rightarrow> Friend \<Rightarrow> (db conn, int) prog" where
  "execute_insert_friend E f = transaction (insert_friend_body E f) rethrow"

definition apply_of :: "friendApply_row \<Rightarrow> FriendApply" where
  "apply_of r =
     \<lparr>fap_from = fa_fromUid r, fap_to = fa_toUid r, fap_status = fa_status r,
      fap_content = fa_content r, fap_createTime = fa_createTime r\<rparr>"

definition get_friend_apply_list_script :: "int \<Rightarrow> (db, FriendApply list option) script" where
  "get_friend_apply_list_script from =
     select None (\<lambda>d. filter (\<lambda>r. fa_status r = 0 \<and> fa_fromUid r = from) (friendApplys d)) (\<lambda>result.
       if result = [] then Return None else Return (Some (map apply_of result)))"

definition execute_get_friend_apply_list :: "int \<Rightarrow> (db conn, FriendApply list option) prog" where
  "execute_get_friend_apply_list from = autocommit (get_friend_apply_list_script from)"

definition remove_friendship :: "int \<Rightarrow> int \<Rightarrow> db \<Rightarrow> db" where
  "remove_friendship a b d = d\<lparr>friends := delete_where (\<lambda>f. fr_uidA f = a \<and> fr_uidB f = b) (friends d)\<rparr>"

definition delete_friend_script :: "int \<Rightarrow> int \<Rightarrow> (db, int) script" where
  "delete_friend_script uid_a uid_b =
     exec 0 (\<lambda>d. Inr (remove_friendship (min uid_a uid_b) (max uid_a uid_b) d)) (Return 0)"

definition execute_delete_friend :: "int \<Rightarrow> int \<Rightarrow> (db conn, int) prog" where
  "execute_delete_friend uid_a uid_b = autocommit (delete_friend_script uid_a uid_b)"

end
