(* ===== verification/Store_Groups.thy ===== *)
theory Store_Groups
  imports Store_Ops
begin

text \<open>
  The group operations of \<^verbatim>\<open>message/io/mysql_store.cc\<close>: creating a group, applying
  for membership, answering an application, removing a member (or dissolving
  the group), and reading a group.
\<close>

definition group_handler :: "exn \<Rightarrow> GroupOperationResult \<Rightarrow> exn + GroupOperationResult" where
  "group_handler e r = Inr (r\<lparr>go_diagnostic := what e\<rparr>)"

section \<open>Statements\<close>

definition group_rows :: "int \<Rightarrow> db \<Rightarrow> groupInfo_row list" where
  "group_rows gid d = filter (\<lambda>g. gi_groupId g = gid) (groupInfo d)"

definition member_rows :: "int \<Rightarrow> int \<Rightarrow> db \<Rightarrow> groupMember_row list" where
  "member_rows gid uid d = filter (\<lambda>m. gm_groupId m = gid \<and> gm_uid m = uid) (groupMembers d)"

definition member_uids :: "int \<Rightarrow> db \<Rightarrow> int list" where
  "member_uids gid d = map gm_uid (filter (\<lambda>m. gm_groupId m = gid) (groupMembers d))"

definition apply_rows :: "int \<Rightarrow> int \<Rightarrow> db \<Rightarrow> groupApply_row list" where
  "apply_rows gid uid d = filter (\<lambda>a. ga_groupId a = gid \<and> ga_requestorUid a = uid) (groupApplys d)"

text \<open>\<^verbatim>\<open>INSERT IGNORE INTO groupApplys\<close>; the result is the number of affected rows.\<close>

definition ignore_groupApply ::
  "env \<Rightarrow> int \<Rightarrow> int \<Rightarrow> string \<Rightarrow> string \<Rightarrow> db \<times> int \<Rightarrow> string + (nat \<times> db \<times> int)" where
  "ignore_groupApply E gid uid message now = (\<lambda>(d, n).
     let r = \<lparr>ga_groupId = max 0 gid, ga_requestorUid = max 0 uid,
              ga_message = varchar E 512 message, ga_createTime = varchar E 32 now\<rparr>
     in if list_ex (groupApply_clash r) (groupApplys d) then Inr (0, d, n)
        else Inr (1, d\<lparr>groupApplys := groupApplys d @ [r]\<rparr>, n))"

definition delete_apply :: "int \<Rightarrow> int \<Rightarrow> db \<Rightarrow> db" where
  "delete_apply gid uid d =
     d\<lparr>groupApplys := delete_where (\<lambda>a. ga_groupId a = gid \<and> ga_requestorUid a = uid) (groupApplys d)\<rparr>"

text \<open>\<^verbatim>\<open>INSERT ... SELECT conversationId, ?, latestSeq + 1 FROM conversations\<close>.\<close>

definition join_conversation :: "int \<Rightarrow> int \<Rightarrow> db \<Rightarrow> string + db" where
  "join_conversation uid conversation d =
     insert_userStates
       [new_userState (cv_conversationId c) uid (cv_latestSeq c + 1).
          c \<leftarrow> conversations d, cv_conversationId c = conversation] d"

definition delete_states :: "int \<Rightarrow> db \<Rightarrow> db" where
  "delete_states conversation d =
     d\<lparr>conversationUserStates :=
         delete_where (\<lambda>s. us_conversationId s = conversation) (conversationUserStates d)\<rparr>"

definition delete_state :: "int \<Rightarrow> int \<Rightarrow> db \<Rightarrow> db" where
  "delete_state conversation uid d =
     d\<lparr>conversationUserStates :=
         delete_where (\<lambda>s. us_conversationId s = conversation \<and> us_uid s = uid)
           (conversationUserStates d)\<rparr>"

definition delete_applies :: "int \<Rightarrow> db \<Rightarrow> db" where
  "delete_applies gid d =
     d\<lparr>groupApplys := delete_where (\<lambda>a. ga_groupId a = gid) (groupApplys d)\<rparr>"

definition delete_members :: "int \<Rightarrow> db \<Rightarrow> db" where
  "delete_members gid d =
     d\<lparr>groupMembers := delete_where (\<lambda>m. gm_groupId m = gid) (groupMembers d)\<rparr>"

definition delete_member :: "int \<Rightarrow> int \<Rightarrow> db \<Rightarrow> db" where
  "delete_member gid uid d =
     d\<lparr>groupMembers := delete_where (\<lambda>m. gm_groupId m = gid \<and> gm_uid m = uid) (groupMembers d)\<rparr>"

definition delete_group :: "int \<Rightarrow> db \<Rightarrow> db" where
  "delete_group gid d = d\<lparr>groupInfo := delete_where (\<lambda>g. gi_groupId g = gid) (groupInfo d)\<rparr>"

section \<open>create\_group\<close>

definition create_group_body :: "GroupManager \<Rightarrow> (db, GroupOperationResult) script" where
  "create_group_body g =
    (let r = new_group_result\<lparr>go_groupId := grp_groupId g, go_conversationId := grp_conversationId g,
                              go_masterUid := grp_masterUid g, go_targetUid := grp_masterUid g,
                              go_groupName := grp_name g\<rparr> in
     exec r (insert_groupInfo \<lparr>gi_groupId = grp_groupId g, gi_masterUid = grp_masterUid g,
               gi_name = grp_name g, gi_conversationId = grp_conversationId g,
               gi_createTime = grp_createTime g\<rparr>)
     (exec r (insert_conversation \<lparr>cv_conversationId = grp_conversationId g, cv_type = 2,
               cv_businessId = grp_groupId g, cv_latestSeq = 0, cv_createTime = grp_createTime g\<rparr>)
     (exec r (insert_groupMember \<lparr>gm_groupId = grp_groupId g, gm_uid = grp_masterUid g,
               gm_joinTime = grp_createTime g\<rparr>)
     (exec r (insert_userStates [new_userState (grp_conversationId g) (grp_masterUid g) 1])
     (Finish Commit r (r\<lparr>go_error := Success\<rparr>))))))"

definition execute_create_group :: "GroupManager \<Rightarrow> (db conn, GroupOperationResult) prog" where
  "execute_create_group g = transaction (create_group_body g) group_handler"

section \<open>request\_group\_join\<close>

definition request_group_join_body ::
  "env \<Rightarrow> request_group_join \<Rightarrow> (db, GroupOperationResult) script" where
  "request_group_join_body E op =
    (let gid = rj_group_id op; uid = rj_uid op;
         r0 = new_group_result\<lparr>go_groupId := gid, go_targetUid := uid, go_actorUid := uid\<rparr> in
     select r0 (group_rows gid) (\<lambda>group_result.
     case first_row group_result of
       None \<Rightarrow> Finish Rollback r0 (r0\<lparr>go_error := GroupNotExists\<rparr>)
     | Some g \<Rightarrow>
       let r1 = r0\<lparr>go_masterUid := gi_masterUid g, go_groupName := gi_name g\<rparr> in
       select r1 (member_rows gid uid) (\<lambda>members.
       if first_row members \<noteq> None
       then Finish Rollback r1 (r1\<lparr>go_error := GroupAlreadyExists\<rparr>)
       else query r1 (ignore_groupApply E gid uid (rj_message op) (rj_now op)) (\<lambda>affected_rows.
         let r2 = (if 0 < affected_rows then r1\<lparr>go_recipientUids := [gi_masterUid g]\<rparr> else r1) in
         Finish Commit r2 (r2\<lparr>go_error := Success\<rparr>)))))"

definition execute_request_group_join ::
  "env \<Rightarrow> request_group_join \<Rightarrow> (db conn, GroupOperationResult) prog" where
  "execute_request_group_join E op = transaction (request_group_join_body E op) group_handler"

section \<open>reply\_group\_join\<close>

definition reply_group_join_body :: "reply_group_join \<Rightarrow> (db, GroupOperationResult) script" where
  "reply_group_join_body op =
    (let gid = rp_group_id op; uid = rp_requestor_uid op;
         r0 = new_group_result\<lparr>go_groupId := gid, go_actorUid := rp_actor_uid op, go_targetUid := uid\<rparr> in
     select r0 (group_rows gid) (\<lambda>group_result.
     case first_row group_result of
       None \<Rightarrow> Finish Rollback r0 (r0\<lparr>go_error := GroupNotExists\<rparr>)
     | Some g \<Rightarrow>
       let r1 = r0\<lparr>go_masterUid := gi_masterUid g, go_conversationId := gi_conversationId g,
                   go_groupName := gi_name g\<rparr> in
       if gi_masterUid g \<noteq> rp_actor_uid op
       then Finish Rollback r1 (r1\<lparr>go_error := MessageOwnershipInvalid\<rparr>)
       else select r1 (apply_rows gid uid) (\<lambda>applies.
         if first_row applies = None
         then Finish Rollback r1 (r1\<lparr>go_error := NotFound\<rparr>)
         else exec r1 (\<lambda>d. Inr (delete_apply gid uid d))
           (if rp_accept op
            then exec r1 (insert_groupMember \<lparr>gm_groupId = gid, gm_uid = uid, gm_joinTime = rp_now op\<rparr>)
              (exec r1 (join_conversation uid (gi_conversationId g))
              (let r2 = r1\<lparr>go_targetJoinTime := rp_now op\<rparr> in
               select r2 (member_uids gid) (\<lambda>members.
                 let r3 = r2\<lparr>go_recipientUids := members\<rparr> in
                 Finish Commit r3 (r3\<lparr>go_error := Success\<rparr>))))
            else let r2 = r1\<lparr>go_recipientUids := [uid]\<rparr> in
              Finish Commit r2 (r2\<lparr>go_error := Success\<rparr>)))))"

definition execute_reply_group_join :: "reply_group_join \<Rightarrow> (db conn, GroupOperationResult) prog" where
  "execute_reply_group_join op = transaction (reply_group_join_body op) group_handler"

section \<open>remove\_group\_member\<close>

definition remove_group_member_body :: "remove_group_member \<Rightarrow> (db, GroupOperationResult) script" where
  "remove_group_member_body op =
    (let gid = rm_group_id op; actor = rm_actor_uid op; target = rm_target_uid op;
         r0 = new_group_result\<lparr>go_groupId := gid, go_actorUid := actor, go_targetUid := target\<rparr> in
     select r0 (group_rows gid) (\<lambda>group_result.
     case first_row group_result of
       None \<Rightarrow> Finish Rollback r0 (r0\<lparr>go_error := GroupNotExists\<rparr>)
     | Some g \<Rightarrow>
       let r1 = r0\<lparr>go_masterUid := gi_masterUid g, go_conversationId := gi_conversationId g,
                   go_groupName := gi_name g\<rparr> in
       if actor \<noteq> gi_masterUid g \<and> actor \<noteq> target
       then Finish Rollback r1 (r1\<lparr>go_error := MessageOwnershipInvalid\<rparr>)
       else if actor \<noteq> gi_masterUid g \<and> target \<noteq> actor
       then Finish Rollback r1 (r1\<lparr>go_error := MessageOwnershipInvalid\<rparr>)
       else select r1 (member_rows gid target) (\<lambda>target_rows.
         if first_row target_rows = None
         then Finish Rollback r1 (r1\<lparr>go_error := NotFound\<rparr>)
         else select r1 (member_uids gid) (\<lambda>members.
           let r2 = r1\<lparr>go_recipientUids := members\<rparr>;
               finish = Finish Commit r2 (r2\<lparr>go_error := Success\<rparr>) in
           if target = gi_masterUid g \<and> rm_dissolve_if_master op
           then exec r2 (\<lambda>d. Inr (delete_states (gi_conversationId g) d))
             (exec r2 (\<lambda>d. Inr (delete_applies gid d))
             (exec r2 (\<lambda>d. Inr (delete_members gid d))
             (exec r2 (\<lambda>d. Inr (delete_group gid d)) finish)))
           else exec r2 (\<lambda>d. Inr (delete_state (gi_conversationId g) target d))
             (exec r2 (\<lambda>d. Inr (delete_member gid target d)) finish)))))"

definition execute_remove_group_member ::
  "remove_group_member \<Rightarrow> (db conn, GroupOperationResult) prog" where
  "execute_remove_group_member op = transaction (remove_group_member_body op) group_handler"

section \<open>pull\_group\<close>

text \<open>ORDER BY a text column and a number: the order of the collation first.\<close>

definition before :: "env \<Rightarrow> string \<times> int \<Rightarrow> string \<times> int \<Rightarrow> bool" where
  "before E x y =
     (str_less E (fst x) (fst y) \<or> (\<not> str_less E (fst y) (fst x) \<and> snd x \<le> snd y))"

definition member_name :: "db \<Rightarrow> int \<Rightarrow> string" where
  "member_name d uid =
     (case first_row (filter (\<lambda>u. ui_uid u = uid) (userInfo d)) of None \<Rightarrow> '''' | Some u \<Rightarrow> ui_name u)"

definition group_member_list :: "env \<Rightarrow> int \<Rightarrow> db \<Rightarrow> GroupMember list" where
  "group_member_list E gid d =
     map (\<lambda>m. \<lparr>gmb_groupId = gid, gmb_uid = gm_uid m, gmb_joinTime = gm_joinTime m,
               gmb_memberName = member_name d (gm_uid m)\<rparr>)
       (sort_by (\<lambda>x y. before E (gm_joinTime x, gm_uid x) (gm_joinTime y, gm_uid y))
         (filter (\<lambda>m. gm_groupId m = gid) (groupMembers d)))"

definition group_apply_list :: "env \<Rightarrow> int \<Rightarrow> db \<Rightarrow> GroupApply list" where
  "group_apply_list E gid d =
     map (\<lambda>a. \<lparr>gap_requestor = ga_requestorUid a, gap_groupId = gid, gap_message = ga_message a,
               gap_createTime = ga_createTime a\<rparr>)
       (sort_by (\<lambda>x y. before E (ga_createTime x, ga_requestorUid x) (ga_createTime y, ga_requestorUid y))
         (filter (\<lambda>a. ga_groupId a = gid) (groupApplys d)))"

definition pull_group_script :: "env \<Rightarrow> int \<Rightarrow> int \<Rightarrow> (db, GroupOperationResult) script" where
  "pull_group_script E gid uid =
    (let r0 = new_group_result\<lparr>go_groupId := gid, go_actorUid := uid\<rparr> in
     select r0 (group_rows gid) (\<lambda>group_result.
     case first_row group_result of
       None \<Rightarrow> Return (r0\<lparr>go_error := GroupNotExists\<rparr>)
     | Some g \<Rightarrow>
       let r1 = r0\<lparr>go_masterUid := gi_masterUid g, go_conversationId := gi_conversationId g,
                   go_groupName := gi_name g\<rparr> in
       select r1 (member_rows gid uid) (\<lambda>own.
       if first_row own = None then Return (r1\<lparr>go_error := MessageOwnershipInvalid\<rparr>)
       else select r1 (group_member_list E gid) (\<lambda>members.
         let r2 = r1\<lparr>go_members := members\<rparr> in
         if uid = gi_masterUid g
         then select r2 (group_apply_list E gid) (\<lambda>applies.
           Return (r2\<lparr>go_applies := applies, go_error := Success\<rparr>))
         else Return (r2\<lparr>go_error := Success\<rparr>)))))"

text \<open>The exception is turned into a result; the connection is not aborted.\<close>

definition execute_pull_group :: "env \<Rightarrow> int \<Rightarrow> int \<Rightarrow> (db conn, GroupOperationResult) prog" where
  "execute_pull_group E gid uid c =
     (case run (pull_group_script E gid uid) c of
        (Inr r, c1) \<Rightarrow> (Inr r, c1)
      | (Inl (e, l), c1) \<Rightarrow> (Inr (l\<lparr>go_diagnostic := what e\<rparr>), c1))"

end
