(* ===== verification/Store_Files.thy ===== *)
theory Store_Files
  imports Store_Ops Store_Messages
begin

text \<open>The file operations of \<^verbatim>\<open>message/io/mysql_store.cc\<close>.\<close>

definition file_record :: "fileObject_row \<Rightarrow> FileObjectRecord" where
  "file_record f =
     \<lparr>fl_fileId = fo_fileId f, fl_ownerUid = fo_ownerUid f, fl_fileName = fo_fileName f,
      fl_fileType = fo_fileType f, fl_fileSize = fo_fileSize f, fl_sha256 = fo_sha256 f,
      fl_expired = False\<rparr>"

definition put_file :: "env \<Rightarrow> upsert_ready_file \<Rightarrow> db \<Rightarrow> db" where
  "put_file E op d =
    (let f = uf_file op;
         r = \<lparr>fo_fileId = fl_fileId f, fo_ownerUid = fl_ownerUid f, fo_fileName = fl_fileName f,
              fo_fileType = fl_fileType f, fo_fileSize = fl_fileSize f, fo_sha256 = fl_sha256 f,
              fo_state = 1, fo_createdTime = uf_created_time op, fo_expiresTime = uf_expires_time op\<rparr> in
     d\<lparr>fileObjects := upsert_row (fileObject_clash E)
         (\<lambda>x. x\<lparr>fo_fileName := fo_fileName r, fo_fileType := fo_fileType r,
                fo_fileSize := fo_fileSize r, fo_sha256 := fo_sha256 r, fo_state := 1,
                fo_expiresTime := fo_expiresTime r\<rparr>) r (fileObjects d)\<rparr>)"

text \<open>The ownership check and the write are two autocommitted statements.\<close>

definition upsert_ready_file_script :: "env \<Rightarrow> upsert_ready_file \<Rightarrow> (db, int) script" where
  "upsert_ready_file_script E op =
     select 0 (\<lambda>d. map fo_ownerUid
         (filter (\<lambda>f. same_text E (fo_fileId f) (fl_fileId (uf_file op))) (fileObjects d))) (\<lambda>existing.
       case first_row existing of
         Some owner \<Rightarrow>
           if owner \<noteq> fl_ownerUid (uf_file op) then Return 1
           else exec 0 (\<lambda>d. Inr (put_file E op d)) (Return 0)
       | None \<Rightarrow> exec 0 (\<lambda>d. Inr (put_file E op d)) (Return 0))"

definition execute_upsert_ready_file :: "env \<Rightarrow> upsert_ready_file \<Rightarrow> (db conn, int) prog" where
  "execute_upsert_ready_file E op = autocommit (upsert_ready_file_script E op)"

definition put_progress :: "env \<Rightarrow> save_file_upload_progress \<Rightarrow> db \<Rightarrow> db" where
  "put_progress E op d =
    (let r = \<lparr>fu_ownerUid = sp_owner_uid op, fu_fileId = sp_file_id op,
              fu_nextOffset = sp_next_offset op, fu_complete = (if sp_complete op then 1 else 0),
              fu_updateTime = sp_update_time op\<rparr> in
     d\<lparr>fileUploads := upsert_row (fileUpload_clash E)
         (\<lambda>x. x\<lparr>fu_nextOffset := fu_nextOffset r, fu_complete := fu_complete r,
                fu_updateTime := fu_updateTime r\<rparr>) r (fileUploads d)\<rparr>)"

definition save_file_upload_progress_script ::
  "env \<Rightarrow> save_file_upload_progress \<Rightarrow> (db, int) script" where
  "save_file_upload_progress_script E op = exec 0 (\<lambda>d. Inr (put_progress E op d)) (Return 0)"

definition execute_save_file_upload_progress ::
  "env \<Rightarrow> save_file_upload_progress \<Rightarrow> (db conn, int) prog" where
  "execute_save_file_upload_progress E op = autocommit (save_file_upload_progress_script E op)"

definition is_group_conversation :: "int \<Rightarrow> db \<Rightarrow> bool" where
  "is_group_conversation conversation d =
     list_ex (\<lambda>c. cv_conversationId c = conversation \<and> cv_type c = 2) (conversations d)"

definition downloadable :: "env \<Rightarrow> string \<Rightarrow> int \<Rightarrow> db \<Rightarrow> fileObject_row list" where
  "downloadable E file uid d =
     take 1 [f. f \<leftarrow> fileObjects d,
        same_text E (fo_fileId f) file \<and> fo_state f = 1 \<and> str_less E (current_time E) (fo_expiresTime f),
        m \<leftarrow> messages d, same_text E (ms_content m) (fo_fileId f) \<and> ms_type m = 5,
        s \<leftarrow> conversationUserStates d,
        us_conversationId s = ms_conversationId m \<and> us_uid s = uid \<and>
        (\<not> is_group_conversation (ms_conversationId m) d \<or>
         group_member_of_conversation (ms_conversationId m) uid d)]"

definition find_downloadable_file_script ::
  "env \<Rightarrow> string \<Rightarrow> int \<Rightarrow> (db, FileObjectRecord option) script" where
  "find_downloadable_file_script E file uid =
     select None (downloadable E file uid) (\<lambda>result.
       Return (map_option file_record (first_row result)))"

definition execute_find_downloadable_file ::
  "env \<Rightarrow> string \<Rightarrow> int \<Rightarrow> (db conn, FileObjectRecord option) prog" where
  "execute_find_downloadable_file E file uid = autocommit (find_downloadable_file_script E file uid)"

definition find_ready_file_script ::
  "env \<Rightarrow> string \<Rightarrow> int \<Rightarrow> (db, FileObjectRecord option) script" where
  "find_ready_file_script E file owner =
     select None (ready_owned_files E file owner (current_time E)) (\<lambda>result.
       Return (map_option file_record (first_row result)))"

definition execute_find_ready_file ::
  "env \<Rightarrow> string \<Rightarrow> int \<Rightarrow> (db conn, FileObjectRecord option) prog" where
  "execute_find_ready_file E file owner = autocommit (find_ready_file_script E file owner)"

end
