(* ===== verification/Group_Log.thy ===== *)
theory Group_Log
  imports Message_Log Store_Friends Store_Groups Store_Files
begin

text \<open>
  What the friendship and group operations of the store do to the relations of
  the invariant: creating a friendship or a group opens a conversation, joining
  and leaving change the member list and the states of the conversation, and
  dissolving a group removes it with everything that refers to it.
\<close>

definition reply_group :: "reply_group_join \<Rightarrow> db \<Rightarrow> groupInfo_row option" where
  "reply_group op d = first_row (group_rows (rp_group_id op) d)"

definition joined_db :: "reply_group_join \<Rightarrow> int \<Rightarrow> int \<Rightarrow> db \<Rightarrow> db" where
  "joined_db op cid latest d =
     (delete_apply (rp_group_id op) (rp_requestor_uid op) d)
       \<lparr>groupMembers := groupMembers d @
          [\<lparr>gm_groupId = rp_group_id op, gm_uid = rp_requestor_uid op, gm_joinTime = rp_now op\<rparr>],
        conversationUserStates := conversationUserStates d @
          [new_userState cid (rp_requestor_uid op) (latest + 1)]\<rparr>"

definition reply_outcome ::
  "reply_group_join \<Rightarrow> groupInfo_row \<Rightarrow> db \<Rightarrow> GroupOperationResult \<Rightarrow> db \<Rightarrow> bool" where
  "reply_outcome op g d a d' =
    (if rp_accept op
     then (\<exists>r \<in> set (conversations d). cv_conversationId r = gi_conversationId g \<and>
             d' = joined_db op (gi_conversationId g) (cv_latestSeq r) d) \<and>
          go_recipientUids a = member_uids (rp_group_id op) d'
     else d' = delete_apply (rp_group_id op) (rp_requestor_uid op) d \<and>
          go_recipientUids a = [rp_requestor_uid op])"

definition removed_db :: "int \<Rightarrow> int \<Rightarrow> int \<Rightarrow> db \<Rightarrow> db" where
  "removed_db gid cid uid d = delete_member gid uid (delete_state cid uid d)"

definition dissolved_db :: "int \<Rightarrow> int \<Rightarrow> db \<Rightarrow> db" where
  "dissolved_db gid cid d = delete_group gid (delete_members gid (delete_applies gid (delete_states cid d)))"

definition remove_outcome :: "remove_group_member \<Rightarrow> groupInfo_row \<Rightarrow> db \<Rightarrow> db" where
  "remove_outcome op g d =
    (if rm_target_uid op = gi_masterUid g \<and> rm_dissolve_if_master op
     then dissolved_db (rm_group_id op) (gi_conversationId g) d
     else removed_db (rm_group_id op) (gi_conversationId g) (rm_target_uid op) d)"

lemma int64_min_max:
  assumes "0 \<le> int64_of (min (size_t_of a) (size_t_of b))" "0 \<le> int64_of (max (size_t_of a) (size_t_of b))"
  shows "int64_of (min (size_t_of a) (size_t_of b)) \<le> int64_of (max (size_t_of a) (size_t_of b))"
proof -
  have range: "0 \<le> size_t_of x \<and> size_t_of x < 2 ^ 64" for x by (simp add: size_t_of_def)
  have small: "int64_of x = x" if "0 \<le> x" "x < 2 ^ 64" "0 \<le> int64_of x" for x
    using that by (auto simp: int64_of_def split: if_splits)
  show ?thesis
    using assms range [of a] range [of b] small [of "size_t_of a"] small [of "size_t_of b"]
    by (simp add: min_def max_def split: if_splits)
qed

section \<open>Inserting user states\<close>

lemma insert_userStates_result:
  assumes "insert_userStates new d = Inr d'"
  shows "d' = d\<lparr>conversationUserStates := conversationUserStates d @ new\<rparr> \<and>
    (unique_key userState_key (conversationUserStates d) \<longrightarrow>
       unique_key userState_key (conversationUserStates d')) \<and>
    distinct (map userState_key new) \<and>
    (\<forall>s \<in> set new. 0 \<le> us_conversationId s \<and> 0 \<le> us_uid s \<and> userState_key s \<notin> states d)"
  using assms
proof (induction new arbitrary: d)
  case (Cons r new)
  have pos: "\<not> negative [us_conversationId r, us_uid r, us_joinedSeq r]"
    and fresh: "\<forall>x \<in> set (conversationUserStates d). \<not> userState_clash r x"
    and rest: "insert_userStates new (d\<lparr>conversationUserStates := conversationUserStates d @ [r]\<rparr>) = Inr d'"
    using Cons.prems by (auto split: if_splits sum.splits simp: insert_row_Inr)
  let ?d = "d\<lparr>conversationUserStates := conversationUserStates d @ [r]\<rparr>"
  note IH = Cons.IH [OF rest]
  have "userState_key r \<notin> userState_key ` set new"
    using IH by (fastforce simp: states_def)
  moreover have "unique_key userState_key (conversationUserStates ?d)"
    if "unique_key userState_key (conversationUserStates d)"
    using that fresh by (auto simp: unique_key_append userState_clash_def)
  moreover have "userState_key r \<notin> states d" using fresh by (auto simp: states_def userState_clash_def)
  ultimately show ?case using IH pos by (auto simp: states_def negative_def)
qed auto

lemma insert_states_inv:
  assumes inv: "inv_keys E d" "inv_log d" "inv_states d"
    and ins: "insert_userStates new d = Inr d'"
    and ok: "\<And>s. s \<in> set new \<Longrightarrow> state_ok (conversations d) s"
  shows "inv_keys E d' \<and> inv_log d' \<and> inv_states d'"
proof -
  note res = insert_userStates_result [OF ins]
  have "unique_key userState_key (conversationUserStates d')" using inv(1) res by (auto simp: inv_keys_def)
  then have "inv_keys E d'" using inv(1) res by (auto simp: inv_keys_def)
  moreover have "inv_log d'" using inv(2) res by (simp add: inv_log_def conv_messages_def)
  moreover have "inv_states d'" using inv(3) res ok by (auto simp: inv_states_def)
  ultimately show ?thesis by simp
qed

section \<open>A new conversation\<close>

lemma insert_conversation_result:
  assumes "insert_conversation r d = Inr d'"
  shows "d' = d\<lparr>conversations := conversations d @ [r]\<rparr>"
    and "\<forall>x \<in> set (conversations d). \<not> conversation_clash r x"
    and "0 \<le> cv_conversationId r" "0 \<le> cv_businessId r"
  using assms by (auto simp: insert_conversation_def insert_row_Inr negative_def split: if_splits sum.splits)

lemma insert_conversation_inv:
  assumes inv: "inv_keys E d" "inv_log d" "inv_states d"
    and ins: "insert_conversation r d = Inr d'" and empty: "cv_latestSeq r = 0"
  shows "inv_keys E d' \<and> inv_log d' \<and> inv_states d'"
proof -
  note res = insert_conversation_result [OF ins]
  have keys: "inv_keys E d'" using inv(1) res(1,2)
    by (auto simp: inv_keys_def unique_key_append conversation_clash_def)
  have none: "conv_messages (cv_conversationId r) d = []"
  proof -
    have "ms_conversationId m \<noteq> cv_conversationId r" if "m \<in> set (messages d)" for m
      using inv(2) res(2) that unfolding inv_log_def conversation_clash_def by (metis image_iff)
    then show ?thesis by (simp add: conv_messages_def filter_empty_conv)
  qed
  have msgs: "conv_messages x d' = conv_messages x d" for x by (simp add: res(1) conv_messages_def)
  have log: "inv_log d'"
    using inv(2) none empty unfolding inv_log_iff msgs by (auto simp: res(1))
  have "grows d d'" by (auto simp: grows_def latest_of_def res(1))
  then have "inv_states d'"
    using inv(3) state_ok_grows [of d d'] device_state_ok_grows [of d d']
    by (simp add: inv_states_def res(1))
  with keys log show ?thesis by simp
qed

section \<open>Friends\<close>

lemma insert_friend_commit:
  assumes inv: "db_inv E d"
    and run: "clean (insert_friend_body E' f) (d, n) = Inr (Some Commit, a, d', n')"
  shows "db_inv E d' \<and> n' = n \<and> messages d' = messages d"
proof -
  define time ua ub fid cid where "time = current_time E'"
    and "ua = int64_of (min (size_t_of (frd_uidA f)) (size_t_of (frd_uidB f)))" and "ub = int64_of (max (size_t_of (frd_uidA f)) (size_t_of (frd_uidB f)))"
    and "fid = int64_of (size_t_of (frd_friendshipId f))" and "cid = int64_of (size_t_of (frd_conversationId f))"
  let ?fr = "\<lparr>fr_friendshipId = fid, fr_uidA = ua, fr_uidB = ub, fr_createTime = time\<rparr>"
  let ?cv = "\<lparr>cv_conversationId = cid, cv_type = 1, cv_businessId = fid, cv_latestSeq = 0, cv_createTime = time\<rparr>"
  let ?ss = "[new_userState cid ua 1, new_userState cid ub 1]"
  obtain d1 d2 where d1: "insert_friendship ?fr d = Inr d1" and d2: "insert_conversation ?cv d1 = Inr d2"
    and d3: "insert_userStates ?ss d2 = Inr d'" and n: "n' = n"
    using run by (auto simp: insert_friend_body_def Let_def time_def ua_def ub_def fid_def cid_def split: sum.splits)
  have r1: "d1 = d\<lparr>friends := friends d @ [?fr]\<rparr>" "\<forall>x \<in> set (friends d). \<not> friend_clash ?fr x" "0 \<le> ua"
    using d1 by (auto simp: insert_friendship_def insert_row_Inr negative_def split: if_splits sum.splits)
  note r2 = insert_conversation_result [OF d2]
  note r3 = insert_userStates_result [OF d3]
  have inv1: "inv_keys E d1" "inv_log d1" "inv_states d1"
    using inv r1 by (auto simp: db_inv_def inv_keys_def inv_log_def inv_states_def conv_messages_def
        unique_key_append friend_clash_def)
  have inv2: "inv_keys E d2" "inv_log d2" "inv_states d2"
    using insert_conversation_inv [OF inv1 d2] by auto
  have "state_ok (conversations d2) s" if "s \<in> set ?ss" for s
    using that by (auto simp: state_ok_def r2(1) new_userState_def)
  then have inv3: "inv_keys E d'" "inv_log d'" "inv_states d'"
    using insert_states_inv [OF inv2 d3] by auto
  have rel: "convs d' = insert (cid, 1, fid) (convs d)" "states d' = {(cid, ua), (cid, ub)} \<union> states d"
    "groups d' = groups d" "members d' = members d" "applies d' = applies d"
    "friendships d' = insert (fid, ua, ub) (friendships d)"
    using r3 r2(1) r1(1)
    by (auto simp: rel_defs conv_sig_def friend_sig_def userState_key_def new_userState_def)
  have "ua \<noteq> ub" using r3 by (auto simp: userState_key_def new_userState_def)
  have "ua \<le> ub"
  proof -
    have "0 \<le> ub" using r3 by (auto simp: new_userState_def)
    with r1(3) show ?thesis unfolding ua_def ub_def by (rule int64_min_max)
  qed
  have "inv_friends d'"
  proof -
    have old: "0 \<le> a \<and> a < b \<and> (\<exists>c. (c, 1, x) \<in> convs d \<and> (c, a) \<in> states d \<and> (c, b) \<in> states d)"
      if "(x, a, b) \<in> friendships d" for x a b
      using inv that unfolding db_inv_def inv_friends_iff by blast
    show ?thesis unfolding inv_friends_iff rel
    proof (intro allI impI, elim insertE)
      fix x a b
      assume "(x, a, b) = (fid, ua, ub)"
      with \<open>ua \<noteq> ub\<close> \<open>ua \<le> ub\<close> r1(3)
      show "0 \<le> a \<and> a < b \<and> (\<exists>c. (c, 1, x) \<in> insert (cid, 1, fid) (convs d) \<and>
          (c, a) \<in> {(cid, ua), (cid, ub)} \<union> states d \<and> (c, b) \<in> {(cid, ua), (cid, ub)} \<union> states d)"
        by (intro conjI exI [of _ cid]) auto
    next
      fix x a b
      assume "(x, a, b) \<in> friendships d"
      from old [OF this]
      show "0 \<le> a \<and> a < b \<and> (\<exists>c. (c, 1, x) \<in> insert (cid, 1, fid) (convs d) \<and>
          (c, a) \<in> {(cid, ua), (cid, ub)} \<union> states d \<and> (c, b) \<in> {(cid, ua), (cid, ub)} \<union> states d)"
        by blast
    qed
  qed
  moreover have "inv_groups d'"
  proof -
    have fresh: "(cid, t, b) \<notin> convs d" for t b
      using r2(2) r1(1) by (auto simp: conv_in_convs conversation_clash_def)
    have no_states: "(cid, u) \<notin> states d" for u
      using inv fresh by (fastforce simp: db_inv_def inv_states_def state_in_states state_ok_def conv_in_convs)
    have old: "inv_groups d" using inv by (simp add: db_inv_def)
    show ?thesis
    proof (rule inv_groupsI, unfold rel)
      show "(g, u) \<in> members d \<and> (c, 2, g) \<in> insert (cid, 1, fid) (convs d)" if "(g, c, u) \<in> groups d" for g c u
        using inv_groupsD(1,2) [OF old that] by simp
      show "\<exists>c w. (g, c, w) \<in> groups d \<and> (c, u) \<in> {(cid, ua), (cid, ub)} \<union> states d" if "(g, u) \<in> members d" for g u
        using inv_groupsD(3) [OF old that] by blast
      show "(\<exists>c w. (g, c, w) \<in> groups d) \<and> (g, u) \<notin> members d" if "(g, u) \<in> applies d" for g u
        using inv_groupsD(4,5) [OF old that] by simp
      show "\<exists>g w. (g, c, w) \<in> groups d \<and> (g, u) \<in> members d"
        if "(c, u) \<in> {(cid, ua), (cid, ub)} \<union> states d" "(c, 2, b) \<in> insert (cid, 1, fid) (convs d)" for c u b
        using that fresh no_states inv_groupsD(6) [OF old, of c u b] by auto
    qed
  qed
  ultimately show ?thesis using inv3 n r1(1) r2(1) r3 by (simp add: db_inv_def)
qed

lemma filter_unique_key:
  "unique_key key rs \<Longrightarrow> r \<in> set rs \<Longrightarrow> filter (\<lambda>x. key x = key r) rs = [r]"
proof (induction rs)
  case (Cons x rs)
  then show ?case by (cases "x = r") (auto simp: unique_key_def filter_empty_conv image_iff)
qed simp

lemma comprehension_filter: "[f x. x \<leftarrow> xs, P x] = map f (filter P xs)"
  by (induction xs) auto

lemma group_unique:
  assumes "inv_keys E d" "(g, c, w) \<in> groups d" "(g', c', w') \<in> groups d" "g = g' \<or> c = c'"
  shows "g = g' \<and> c = c' \<and> w = w'"
  using assms inv_keys_groupInfo [OF assms(1)] unfolding group_in_groups by blast

lemma conv_unique:
  assumes "inv_keys E d" "(c, t, b) \<in> convs d" "(c, t', b') \<in> convs d"
  shows "t = t' \<and> b = b'"
  using assms inv_keys_conversation [OF assms(1)] unfolding conv_in_convs by blast

lemma state_conv:
  assumes "inv_states d" "(c, u) \<in> states d"
  shows "\<exists>t b. (c, t, b) \<in> convs d"
  using assms by (fastforce simp: inv_states_def state_in_states state_ok_def conv_in_convs)

lemma group_rows_in: "g \<in> set (group_rows gid d) \<Longrightarrow> (gid, gi_conversationId g, gi_masterUid g) \<in> groups d"
  by (auto simp: group_rows_def group_in_groups)

lemma first_group_row:
  "first_row (group_rows gid d) = Some g \<Longrightarrow> (gid, gi_conversationId g, gi_masterUid g) \<in> groups d"
  by (rule group_rows_in [OF first_row_SomeD])

lemma member_rows_empty: "member_rows g u d = [] \<longleftrightarrow> (g, u) \<notin> members d"
  by (auto simp: member_rows_def member_in_members filter_empty_conv)

lemma apply_rows_empty: "apply_rows g u d = [] \<longleftrightarrow> (g, u) \<notin> applies d"
  by (auto simp: apply_rows_def apply_in_applies filter_empty_conv)

lemma insert_groupMember_result:
  assumes "insert_groupMember r d = Inr d'"
  shows "d' = d\<lparr>groupMembers := groupMembers d @ [r]\<rparr>" "groupMember_key r \<notin> members d"
    "\<forall>x \<in> set (groupMembers d). \<not> groupMember_clash r x" "0 \<le> gm_groupId r" "0 \<le> gm_uid r"
  using assms by (auto simp: insert_groupMember_def insert_row_Inr negative_def members_def
      groupMember_clash_def split: if_splits sum.splits)

lemma create_group_commit:
  assumes inv: "db_inv E d"
    and run: "clean (create_group_body m) (d, n) = Inr (Some Commit, a, d', n')"
  shows "db_inv E d' \<and> n' = n \<and> messages d' = messages d"
proof -
  define gid cid mu where "gid = grp_groupId m" and "cid = grp_conversationId m" and "mu = grp_masterUid m"
  let ?g = "\<lparr>gi_groupId = gid, gi_masterUid = mu, gi_name = grp_name m, gi_conversationId = cid,
             gi_createTime = grp_createTime m\<rparr>"
  let ?c = "\<lparr>cv_conversationId = cid, cv_type = 2, cv_businessId = gid, cv_latestSeq = 0,
             cv_createTime = grp_createTime m\<rparr>"
  let ?m = "\<lparr>gm_groupId = gid, gm_uid = mu, gm_joinTime = grp_createTime m\<rparr>"
  let ?ss = "[new_userState cid mu 1]"
  obtain d1 d2 d3 where d1: "insert_groupInfo ?g d = Inr d1" and d2: "insert_conversation ?c d1 = Inr d2"
    and d3: "insert_groupMember ?m d2 = Inr d3" and d4: "insert_userStates ?ss d3 = Inr d'" and n: "n' = n"
    using run by (auto simp: create_group_body_def Let_def gid_def cid_def mu_def split: sum.splits)
  have r1: "d1 = d\<lparr>groupInfo := groupInfo d @ [?g]\<rparr>" "\<forall>x \<in> set (groupInfo d). \<not> groupInfo_clash ?g x"
    using d1 by (auto simp: insert_groupInfo_def insert_row_Inr negative_def split: if_splits sum.splits)
  note r2 = insert_conversation_result [OF d2] and r3 = insert_groupMember_result [OF d3]
    and r4 = insert_userStates_result [OF d4]
  have old: "inv_keys E d" "inv_log d" "inv_states d" "inv_friends d" "inv_groups d"
    using inv by (simp_all add: db_inv_def)
  have inv1: "inv_keys E d1" "inv_log d1" "inv_states d1"
    using old r1 by (auto simp: inv_keys_def inv_log_def inv_states_def conv_messages_def
        unique_key_append groupInfo_clash_def)
  have inv2: "inv_keys E d2" "inv_log d2" "inv_states d2"
    using insert_conversation_inv [OF inv1 d2] by auto
  have inv3: "inv_keys E d3" "inv_log d3" "inv_states d3"
    using inv2 r3 by (auto simp: inv_keys_def inv_log_def inv_states_def conv_messages_def
        unique_key_append groupMember_clash_def)
  have "state_ok (conversations d3) s" if "s \<in> set ?ss" for s
    using that by (auto simp: state_ok_def r3(1) r2(1) new_userState_def)
  then have inv4: "inv_keys E d'" "inv_log d'" "inv_states d'"
    using insert_states_inv [OF inv3 d4] by auto
  have rel: "convs d' = insert (cid, 2, gid) (convs d)" "states d' = insert (cid, mu) (states d)"
    "groups d' = insert (gid, cid, mu) (groups d)" "members d' = insert (gid, mu) (members d)"
    "applies d' = applies d" "friendships d' = friendships d"
    using r4 r3(1) r2(1) r1(1)
    by (auto simp: rel_defs conv_sig_def group_sig_def userState_key_def groupMember_key_def new_userState_def)
  have fresh_c: "(cid, t, b) \<notin> convs d" for t b
    using r2(2) r1(1) by (auto simp: conv_in_convs conversation_clash_def)
  have fresh_g: "(gid, c, w) \<notin> groups d" for c w
    using r1(2) by (auto simp: group_in_groups groupInfo_clash_def)
  have no_states: "(cid, u) \<notin> states d" for u
    using state_conv [OF old(3)] fresh_c by blast
  have "inv_friends d'"
    by (rule inv_friends_mono [OF old(4)]) (auto simp: rel)
  moreover have "inv_groups d'"
  proof (rule inv_groupsI, unfold rel)
    show "(g, u) \<in> insert (gid, mu) (members d) \<and> (c, 2, g) \<in> insert (cid, 2, gid) (convs d)"
      if "(g, c, u) \<in> insert (gid, cid, mu) (groups d)" for g c u
      using that inv_groupsD(1,2) [OF old(5), of g c u] by auto
    show "\<exists>c w. (g, c, w) \<in> insert (gid, cid, mu) (groups d) \<and> (c, u) \<in> insert (cid, mu) (states d)"
      if "(g, u) \<in> insert (gid, mu) (members d)" for g u
      using that inv_groupsD(3) [OF old(5), of g u] by blast
    show "(\<exists>c w. (g, c, w) \<in> insert (gid, cid, mu) (groups d)) \<and> (g, u) \<notin> insert (gid, mu) (members d)"
      if "(g, u) \<in> applies d" for g u
      using inv_groupsD(4,5) [OF old(5) that] fresh_g by auto
    show "\<exists>g w. (g, c, w) \<in> insert (gid, cid, mu) (groups d) \<and> (g, u) \<in> insert (gid, mu) (members d)"
      if "(c, u) \<in> insert (cid, mu) (states d)" "(c, 2, b) \<in> insert (cid, 2, gid) (convs d)" for c u b
      using that no_states inv_groupsD(6) [OF old(5), of c u b] by blast
  qed
  ultimately show ?thesis using inv4 n r1(1) r2(1) r3(1) r4 by (simp add: db_inv_def)
qed

lemma request_join_commit:
  assumes inv: "db_inv E d" and nonneg: "0 \<le> rj_group_id op" "0 \<le> rj_uid op"
    and run: "clean (request_group_join_body E' op) (d, n) = Inr (Some Commit, a, d', n')"
  shows "db_inv E d' \<and> n' = n \<and> messages d' = messages d"
proof -
  let ?r = "\<lparr>ga_groupId = rj_group_id op, ga_requestorUid = rj_uid op,
             ga_message = varchar E' 512 (rj_message op), ga_createTime = varchar E' 32 (rj_now op)\<rparr>"
  obtain g where g: "first_row (group_rows (rj_group_id op) d) = Some g"
    using run by (cases "first_row (group_rows (rj_group_id op) d)")
      (auto simp: request_group_join_body_def Let_def)
  then have grp: "(rj_group_id op, gi_conversationId g, gi_masterUid g) \<in> groups d"
    by (rule first_group_row)
  have out: "(rj_group_id op, rj_uid op) \<notin> members d"
    using run g by (auto simp: request_group_join_body_def Let_def member_rows_empty split: if_splits)
  have n: "n' = n" and d': "d' = (if list_ex (groupApply_clash ?r) (groupApplys d) then d
      else d\<lparr>groupApplys := groupApplys d @ [?r]\<rparr>)"
    using run g out nonneg
    by (auto simp: request_group_join_body_def Let_def member_rows_empty ignore_groupApply_def
        split: if_splits)
  show ?thesis
  proof (cases "list_ex (groupApply_clash ?r) (groupApplys d)")
    case True
    then show ?thesis using inv n d' by simp
  next
    case False
    then have d': "d' = d\<lparr>groupApplys := groupApplys d @ [?r]\<rparr>" using d' by simp
    have old: "inv_keys E d" "inv_log d" "inv_states d" "inv_friends d" "inv_groups d"
      using inv by (simp_all add: db_inv_def)
    have rel: "convs d' = convs d" "states d' = states d" "groups d' = groups d" "members d' = members d"
      "applies d' = insert (rj_group_id op, rj_uid op) (applies d)" "friendships d' = friendships d"
      by (auto simp: rel_defs d' groupApply_key_def)
    have "inv_keys E d'" using old(1) False
      by (auto simp: inv_keys_def d' unique_key_append list_ex_iff groupApply_clash_def)
    moreover have "inv_log d'" "inv_states d'"
      using old by (simp_all add: inv_log_def inv_states_def conv_messages_def d')
    moreover have "inv_friends d'" using old(4) by (simp add: inv_friends_iff rel)
    moreover have "inv_groups d'"
    proof (rule inv_groupsI, unfold rel)
      show "(\<exists>c w. (g, c, w) \<in> groups d) \<and> (g, u) \<notin> members d"
        if "(g, u) \<in> insert (rj_group_id op, rj_uid op) (applies d)" for g u
        using that grp out inv_groupsD(4,5) [OF old(5), of g u] by auto
    qed (use inv_groupsD [OF old(5)] in blast)+
    ultimately show ?thesis using n d' by (simp add: db_inv_def)
  qed
qed

lemma delete_apply_rels [simp]:
  "convs (delete_apply g u d) = convs d" "states (delete_apply g u d) = states d"
  "groups (delete_apply g u d) = groups d" "members (delete_apply g u d) = members d"
  "applies (delete_apply g u d) = applies d - {(g, u)}" "friendships (delete_apply g u d) = friendships d"
  by (auto simp: rel_defs delete_apply_def delete_where_def groupApply_key_def)

lemma delete_apply_inv:
  assumes "db_inv E d"
  shows "db_inv E (delete_apply g u d)"
proof -
  have old: "inv_keys E d" "inv_log d" "inv_states d" "inv_friends d" "inv_groups d"
    using assms by (simp_all add: db_inv_def)
  have "inv_keys E (delete_apply g u d)"
    using old(1) groupApply_pk.delete_where_unique by (simp add: inv_keys_def delete_apply_def)
  moreover have "inv_log (delete_apply g u d)" "inv_states (delete_apply g u d)"
    using old by (simp_all add: inv_log_def inv_states_def conv_messages_def delete_apply_def)
  moreover have "inv_friends (delete_apply g u d)" using old(4) by (simp add: inv_friends_iff)
  moreover have "inv_groups (delete_apply g u d)"
    using inv_groupsD [OF old(5)] by (intro inv_groupsI) auto
  ultimately show ?thesis by (simp add: db_inv_def)
qed

lemma join_conversation_result:
  assumes "inv_keys E d" "join_conversation u c d = Inr d'" "(c, t, b) \<in> convs d"
  obtains r where "r \<in> set (conversations d)" "cv_conversationId r = c"
    "insert_userStates [new_userState c u (cv_latestSeq r + 1)] d = Inr d'"
proof -
  obtain r where r: "r \<in> set (conversations d)" "cv_conversationId r = c"
    using assms(3) by (auto simp: conv_in_convs)
  have "unique_key cv_conversationId (conversations d)" using assms(1) by (simp add: inv_keys_def)
  then have "filter (\<lambda>x. cv_conversationId x = c) (conversations d) = [r]"
    using filter_unique_key [of cv_conversationId "conversations d" r] r by simp
  then show thesis using that r assms(2) by (simp add: join_conversation_def comprehension_filter)
qed

text \<open>Adding a member together with the state in the group conversation.\<close>

lemma add_member_inv:
  assumes inv: "db_inv E d" and grp: "(gid, cid, w) \<in> groups d"
    and out: "(gid, uid) \<notin> applies d"
    and mem: "insert_groupMember \<lparr>gm_groupId = gid, gm_uid = uid, gm_joinTime = t\<rparr> d = Inr d1"
    and join: "join_conversation uid cid d1 = Inr d'"
  obtains r where "r \<in> set (conversations d)" "cv_conversationId r = cid"
    "d' = d\<lparr>groupMembers := groupMembers d @ [\<lparr>gm_groupId = gid, gm_uid = uid, gm_joinTime = t\<rparr>],
            conversationUserStates := conversationUserStates d @ [new_userState cid uid (cv_latestSeq r + 1)]\<rparr>"
    "(cid, uid) \<notin> states d" "(gid, uid) \<notin> members d" "db_inv E d'"
proof -
  have old: "inv_keys E d" "inv_log d" "inv_states d" "inv_friends d" "inv_groups d"
    using inv by (simp_all add: db_inv_def)
  note r1 = insert_groupMember_result [OF mem]
  have k1: "inv_keys E d1" "inv_log d1" "inv_states d1"
    using old r1 by (auto simp: inv_keys_def inv_log_def inv_states_def conv_messages_def
        unique_key_append groupMember_clash_def)
  have conv: "(cid, 2, gid) \<in> convs d1"
    using inv_groupsD(2) [OF old(5) grp] by (simp add: r1(1) convs_def)
  obtain r where r: "r \<in> set (conversations d1)" "cv_conversationId r = cid"
    and ins: "insert_userStates [new_userState cid uid (cv_latestSeq r + 1)] d1 = Inr d'"
    using join_conversation_result [OF k1(1) join conv] .
  note r2 = insert_userStates_result [OF ins]
  have latest: "0 \<le> cv_latestSeq r" using inv_logD(1) [OF k1(2) r(1)] .
  have "state_ok (conversations d1) s" if "s \<in> set [new_userState cid uid (cv_latestSeq r + 1)]" for s
    using that r latest by (auto simp: state_ok_def new_userState_def)
  then have k2: "inv_keys E d'" "inv_log d'" "inv_states d'"
    using insert_states_inv [OF k1 ins] by auto
  have rel: "convs d' = convs d" "states d' = insert (cid, uid) (states d)" "groups d' = groups d"
    "members d' = insert (gid, uid) (members d)" "applies d' = applies d" "friendships d' = friendships d"
    using r2 r1(1) by (auto simp: rel_defs userState_key_def groupMember_key_def new_userState_def)
  have "inv_friends d'" by (rule inv_friends_mono [OF old(4)]) (auto simp: rel)
  moreover have "inv_groups d'"
  proof (rule inv_groupsI, unfold rel)
    show "(g, u) \<in> insert (gid, uid) (members d) \<and> (c, 2, g) \<in> convs d" if "(g, c, u) \<in> groups d" for g c u
      using inv_groupsD(1,2) [OF old(5) that] by simp
    show "\<exists>c w. (g, c, w) \<in> groups d \<and> (c, u) \<in> insert (cid, uid) (states d)"
      if "(g, u) \<in> insert (gid, uid) (members d)" for g u
      using that grp inv_groupsD(3) [OF old(5), of g u] by blast
    show "(\<exists>c w. (g, c, w) \<in> groups d) \<and> (g, u) \<notin> insert (gid, uid) (members d)"
      if "(g, u) \<in> applies d" for g u
      using that out inv_groupsD(4,5) [OF old(5), of g u] by auto
    show "\<exists>g w. (g, c, w) \<in> groups d \<and> (g, u) \<in> insert (gid, uid) (members d)"
      if "(c, u) \<in> insert (cid, uid) (states d)" "(c, 2, b) \<in> convs d" for c u b
      using that grp inv_groupsD(6) [OF old(5), of c u b] by blast
  qed
  ultimately have "db_inv E d'" using k2 by (simp add: db_inv_def)
  moreover have "(cid, uid) \<notin> states d" "(gid, uid) \<notin> members d"
    using r2 r1 by (auto simp: userState_key_def new_userState_def states_def groupMember_key_def)
  ultimately show thesis using that [of r] r r1(1) r2 by simp
qed

lemma reply_join_commit:
  assumes inv: "db_inv E d"
    and run: "clean (reply_group_join_body op) (d, n) = Inr (Some Commit, a, d', n')"
  obtains g where "reply_group op d = Some g" "gi_masterUid g = rp_actor_uid op"
    "(rp_group_id op, rp_requestor_uid op) \<in> applies d" "n' = n" "go_error a = Success" "db_inv E d'"
    "reply_outcome op g d a d'" "messages d' = messages d"
proof -
  let ?gid = "rp_group_id op" and ?uid = "rp_requestor_uid op"
  obtain g where g: "first_row (group_rows ?gid d) = Some g"
    using run by (cases "first_row (group_rows ?gid d)") (auto simp: reply_group_join_body_def Let_def)
  note grp = first_group_row [OF g]
  have master: "gi_masterUid g = rp_actor_uid op"
    using run g by (auto simp: reply_group_join_body_def Let_def split: if_splits)
  have app: "(?gid, ?uid) \<in> applies d"
    using run g master
    by (cases "apply_rows ?gid ?uid d = []") (auto simp: reply_group_join_body_def Let_def apply_rows_empty)
  then have app': "apply_rows ?gid ?uid d \<noteq> []" by (simp add: apply_rows_empty)
  let ?d = "delete_apply ?gid ?uid d"
  show thesis
  proof (cases "rp_accept op")
    case True
    obtain d1 where mem: "insert_groupMember \<lparr>gm_groupId = ?gid, gm_uid = ?uid, gm_joinTime = rp_now op\<rparr> ?d = Inr d1"
      and join: "join_conversation ?uid (gi_conversationId g) d1 = Inr d'"
      and res: "n' = n" "go_error a = Success" "go_recipientUids a = member_uids ?gid d'"
      using run g master app' True
      by (auto simp: reply_group_join_body_def Let_def split: sum.splits)
    have "(?gid, gi_conversationId g, gi_masterUid g) \<in> groups ?d" "(?gid, ?uid) \<notin> applies ?d"
      using grp by simp_all
    from add_member_inv [OF delete_apply_inv [OF inv] this mem join]
    obtain r where "r \<in> set (conversations ?d)" "cv_conversationId r = gi_conversationId g"
      "d' = ?d\<lparr>groupMembers := groupMembers ?d @ [\<lparr>gm_groupId = ?gid, gm_uid = ?uid, gm_joinTime = rp_now op\<rparr>],
            conversationUserStates := conversationUserStates ?d @ [new_userState (gi_conversationId g) ?uid (cv_latestSeq r + 1)]\<rparr>"
      "db_inv E d'" by metis
    then have d': "d' = joined_db op (gi_conversationId g) (cv_latestSeq r) d"
      and r: "r \<in> set (conversations d)" "cv_conversationId r = gi_conversationId g" "db_inv E d'"
      by (simp_all add: joined_db_def delete_apply_def)
    then have "reply_outcome op g d a d'" using True res(3) by (auto simp: reply_outcome_def)
    moreover have "messages d' = messages d" by (simp add: d' joined_db_def delete_apply_def)
    ultimately show thesis
      using g master app res(1,2) r(3) by (intro that [of g]) (simp_all add: reply_group_def)
  next
    case False
    then have "d' = ?d" "n' = n" "go_error a = Success" "go_recipientUids a = [?uid]"
      using run g master app' by (auto simp: reply_group_join_body_def Let_def)
    moreover from this have "messages d' = messages d" by (simp add: delete_apply_def)
    ultimately show thesis
      using g master app False delete_apply_inv [OF inv]
      by (intro that [of g]) (simp_all add: reply_group_def reply_outcome_def)
  qed
qed

lemma removed_rels [simp]:
  "convs (removed_db g c u d) = convs d" "states (removed_db g c u d) = states d - {(c, u)}"
  "groups (removed_db g c u d) = groups d" "members (removed_db g c u d) = members d - {(g, u)}"
  "applies (removed_db g c u d) = applies d" "friendships (removed_db g c u d) = friendships d"
  by (auto simp: removed_db_def rel_defs delete_member_def delete_state_def delete_where_def
      userState_key_def groupMember_key_def)

lemma dissolved_rels [simp]:
  "convs (dissolved_db g c d) = convs d" "states (dissolved_db g c d) = {(x, u) \<in> states d. x \<noteq> c}"
  "groups (dissolved_db g c d) = {(x, y, w) \<in> groups d. x \<noteq> g}"
  "members (dissolved_db g c d) = {(x, u) \<in> members d. x \<noteq> g}"
  "applies (dissolved_db g c d) = {(x, u) \<in> applies d. x \<noteq> g}"
  "friendships (dissolved_db g c d) = friendships d"
  by (auto simp: dissolved_db_def rel_defs delete_members_def delete_states_def delete_applies_def
      delete_group_def delete_where_def userState_key_def groupMember_key_def groupApply_key_def group_sig_def)

lemma removed_tables [simp]:
  "conversations (removed_db g c u d) = conversations d" "messages (removed_db g c u d) = messages d"
  "conversations (dissolved_db g c d) = conversations d" "messages (dissolved_db g c d) = messages d"
  by (simp_all add: removed_db_def dissolved_db_def delete_member_def delete_state_def
      delete_members_def delete_states_def delete_applies_def delete_group_def)

lemma removed_base:
  assumes "db_inv E d"
  shows "inv_keys E (removed_db g c u d)" "inv_log (removed_db g c u d)" "inv_states (removed_db g c u d)"
    "inv_keys E (dissolved_db g c d)" "inv_log (dissolved_db g c d)" "inv_states (dissolved_db g c d)"
proof -
  have old: "inv_keys E d" "inv_log d" "inv_states d" using assms by (simp_all add: db_inv_def)
  note del = userState_pk.delete_where_unique groupMember_pk.delete_where_unique
    groupApply_pk.delete_where_unique groupInfo_pk.delete_where_unique groupInfo_uk.delete_where_unique
  show "inv_keys E (removed_db g c u d)" "inv_keys E (dissolved_db g c d)"
    using old(1) by (simp_all add: inv_keys_def removed_db_def dissolved_db_def delete_member_def
        delete_state_def delete_members_def delete_states_def delete_applies_def delete_group_def del)
  show "inv_log (removed_db g c u d)" "inv_log (dissolved_db g c d)"
    using old(2) by (simp_all add: inv_log_def conv_messages_def)
  show "inv_states (removed_db g c u d)" "inv_states (dissolved_db g c d)"
    using old(3) unfolding inv_states_def
    by (auto simp: removed_db_def dissolved_db_def delete_member_def delete_state_def delete_members_def
        delete_states_def delete_applies_def delete_group_def delete_where_def)
qed

lemma direct_not_group:
  assumes "db_inv E d" "(g, c, w) \<in> groups d" "(x, 1, f) \<in> convs d"
  shows "x \<noteq> c"
  using assms inv_groupsD(2) [of d g c w] conv_unique [of E d c 2 g 1 f] by (auto simp: db_inv_def)

lemma removed_inv:
  assumes inv: "db_inv E d" and grp: "(g, c, w) \<in> groups d" and other: "u \<noteq> w"
  shows "db_inv E (removed_db g c u d)"
proof -
  have old: "inv_keys E d" "inv_friends d" "inv_groups d" using inv by (simp_all add: db_inv_def)
  have "inv_friends (removed_db g c u d)"
  proof (rule inv_friendsI, unfold removed_rels)
    fix f a b assume f: "(f, a, b) \<in> friendships d"
    obtain x where x: "(x, 1, f) \<in> convs d" "(x, a) \<in> states d" "(x, b) \<in> states d"
      using inv_friendsD(3) [OF old(2) f] by blast
    have "x \<noteq> c" using direct_not_group [OF inv grp x(1)] .
    with x inv_friendsD(1,2) [OF old(2) f]
    show "0 \<le> a \<and> a < b \<and> (\<exists>x. (x, 1, f) \<in> convs d \<and> (x, a) \<in> states d - {(c, u)} \<and> (x, b) \<in> states d - {(c, u)})"
      by blast
  qed
  moreover have "inv_groups (removed_db g c u d)"
  proof (rule inv_groupsI, unfold removed_rels)
    show "(x, v) \<in> members d - {(g, u)} \<and> (y, 2, x) \<in> convs d" if "(x, y, v) \<in> groups d" for x y v
    proof -
      have "(x, v) \<noteq> (g, u)" using group_unique [OF old(1) that grp] other by (metis Pair_inject)
      then show ?thesis using inv_groupsD(1,2) [OF old(3) that] by simp
    qed
    show "\<exists>y v. (x, y, v) \<in> groups d \<and> (y, z) \<in> states d - {(c, u)}" if h: "(x, z) \<in> members d - {(g, u)}" for x z
    proof -
      obtain y v where y: "(x, y, v) \<in> groups d" "(y, z) \<in> states d"
        using h inv_groupsD(3) [OF old(3), of x z] by blast
      then have "(y, z) \<noteq> (c, u)" using h group_unique [OF old(1) y(1) grp] by (metis DiffE insertI1 Pair_inject)
      with y show ?thesis by blast
    qed
    show "(\<exists>y v. (x, y, v) \<in> groups d) \<and> (x, z) \<notin> members d - {(g, u)}" if "(x, z) \<in> applies d" for x z
      using inv_groupsD(4,5) [OF old(3) that] by simp
    show "\<exists>x v. (x, y, v) \<in> groups d \<and> (x, z) \<in> members d - {(g, u)}"
      if h: "(y, z) \<in> states d - {(c, u)}" "(y, 2, b) \<in> convs d" for y z b
    proof -
      obtain x v where x: "(x, y, v) \<in> groups d" "(x, z) \<in> members d"
        using h inv_groupsD(6) [OF old(3), of y z b] by blast
      then have "(x, z) \<noteq> (g, u)" using h group_unique [OF old(1) x(1) grp] by (metis DiffE insertI1 Pair_inject)
      with x show ?thesis by blast
    qed
  qed
  ultimately show ?thesis using removed_base [OF inv] by (simp add: db_inv_def)
qed

lemma dissolved_inv:
  assumes inv: "db_inv E d" and grp: "(g, c, w) \<in> groups d"
  shows "db_inv E (dissolved_db g c d)"
proof -
  have old: "inv_keys E d" "inv_friends d" "inv_groups d" using inv by (simp_all add: db_inv_def)
  have "inv_friends (dissolved_db g c d)"
  proof (rule inv_friendsI, unfold dissolved_rels)
    fix f a b assume f: "(f, a, b) \<in> friendships d"
    obtain x where x: "(x, 1, f) \<in> convs d" "(x, a) \<in> states d" "(x, b) \<in> states d"
      using inv_friendsD(3) [OF old(2) f] by blast
    have "x \<noteq> c" using direct_not_group [OF inv grp x(1)] .
    with x inv_friendsD(1,2) [OF old(2) f]
    show "0 \<le> a \<and> a < b \<and> (\<exists>x. (x, 1, f) \<in> convs d \<and> (x, a) \<in> {(x, u) \<in> states d. x \<noteq> c} \<and>
        (x, b) \<in> {(x, u) \<in> states d. x \<noteq> c})"
      by blast
  qed
  moreover have "inv_groups (dissolved_db g c d)"
  proof (rule inv_groupsI, unfold dissolved_rels)
    show "(x, v) \<in> {(x, u) \<in> members d. x \<noteq> g} \<and> (y, 2, x) \<in> convs d"
      if "(x, y, v) \<in> {(x, y, w) \<in> groups d. x \<noteq> g}" for x y v
      using that inv_groupsD(1,2) [OF old(3), of x y v] by auto
    show "\<exists>y v. (x, y, v) \<in> {(x, y, w) \<in> groups d. x \<noteq> g} \<and> (y, z) \<in> {(x, u) \<in> states d. x \<noteq> c}"
      if "(x, z) \<in> {(x, u) \<in> members d. x \<noteq> g}" for x z
    proof -
      have x: "(x, z) \<in> members d" "x \<noteq> g" using that by auto
      then obtain y v where y: "(x, y, v) \<in> groups d" "(y, z) \<in> states d"
        using inv_groupsD(3) [OF old(3), of x z] by blast
      then have "y \<noteq> c" using x(2) group_unique [OF old(1) y(1) grp] by metis
      with y x show ?thesis by blast
    qed
    show "(\<exists>y v. (x, y, v) \<in> {(x, y, w) \<in> groups d. x \<noteq> g}) \<and> (x, z) \<notin> {(x, u) \<in> members d. x \<noteq> g}"
      if "(x, z) \<in> {(x, u) \<in> applies d. x \<noteq> g}" for x z
      using that inv_groupsD(4,5) [OF old(3), of x z] by auto
    show "\<exists>x v. (x, y, v) \<in> {(x, y, w) \<in> groups d. x \<noteq> g} \<and> (x, z) \<in> {(x, u) \<in> members d. x \<noteq> g}"
      if h: "(y, z) \<in> {(x, u) \<in> states d. x \<noteq> c}" "(y, 2, b) \<in> convs d" for y z b
    proof -
      have y: "(y, z) \<in> states d" "y \<noteq> c" using h by auto
      then obtain x v where x: "(x, y, v) \<in> groups d" "(x, z) \<in> members d"
        using h(2) inv_groupsD(6) [OF old(3), of y z b] by blast
      then have "x \<noteq> g" using y(2) group_unique [OF old(1) x(1) grp] by metis
      with x show ?thesis by blast
    qed
  qed
  ultimately show ?thesis using removed_base [OF inv] by (simp add: db_inv_def)
qed

lemma remove_commit:
  assumes run: "clean (remove_group_member_body op) (d, n) = Inr (Some Commit, a, d', n')"
  obtains g where "first_row (group_rows (rm_group_id op) d) = Some g"
    "rm_actor_uid op = gi_masterUid g \<or> rm_actor_uid op = rm_target_uid op"
    "(rm_group_id op, rm_target_uid op) \<in> members d" "n' = n" "d' = remove_outcome op g d"
    "go_error a = Success" "go_recipientUids a = member_uids (rm_group_id op) d"
    "go_masterUid a = gi_masterUid g"
proof -
  let ?gid = "rm_group_id op" and ?uid = "rm_target_uid op"
  obtain g where g: "first_row (group_rows ?gid d) = Some g"
    using run by (cases "first_row (group_rows ?gid d)") (auto simp: remove_group_member_body_def Let_def)
  have actor: "rm_actor_uid op = gi_masterUid g \<or> rm_actor_uid op = ?uid"
    using run g by (auto simp: remove_group_member_body_def Let_def split: if_splits)
  have mem: "(?gid, ?uid) \<in> members d"
    using run g actor
    by (cases "member_rows ?gid ?uid d = []")
      (auto simp: remove_group_member_body_def Let_def member_rows_empty split: if_splits)
  then have "member_rows ?gid ?uid d \<noteq> []" by (simp add: member_rows_empty)
  then have guards: "first_row (member_rows ?gid ?uid d) \<noteq> None"
    "\<not> (rm_actor_uid op \<noteq> gi_masterUid g \<and> rm_actor_uid op \<noteq> ?uid)"
    "\<not> (rm_actor_uid op \<noteq> gi_masterUid g \<and> ?uid \<noteq> rm_actor_uid op)"
    using actor by auto
  have "clean (remove_group_member_body op) (d, n) = Inr (Some Commit,
      new_group_result\<lparr>go_groupId := ?gid, go_actorUid := rm_actor_uid op, go_targetUid := ?uid,
        go_masterUid := gi_masterUid g, go_conversationId := gi_conversationId g,
        go_groupName := gi_name g, go_recipientUids := member_uids ?gid d, go_error := Success\<rparr>,
      remove_outcome op g d, n)"
  proof (cases "?uid = gi_masterUid g \<and> rm_dissolve_if_master op")
    case True
    then show ?thesis unfolding remove_group_member_body_def Let_def
      using g guards by (simp add: remove_outcome_def dissolved_db_def)
  next
    case False
    then show ?thesis unfolding remove_group_member_body_def Let_def
      using g guards by (simp add: remove_outcome_def removed_db_def) blast
  qed
  then have "n' = n" "d' = remove_outcome op g d" "go_error a = Success"
    "go_recipientUids a = member_uids ?gid d" "go_masterUid a = gi_masterUid g"
    using run by auto
  with g actor mem show thesis by (intro that [of g])
qed

lemma remove_inv:
  assumes inv: "db_inv E d" and ok: "rm_dissolve_if_master op \<or> rm_actor_uid op \<noteq> rm_target_uid op"
    and run: "clean (remove_group_member_body op) (d, n) = Inr (Some Commit, a, d', n')"
  shows "db_inv E d' \<and> n' = n \<and> messages d' = messages d"
proof -
  obtain g where g: "first_row (group_rows (rm_group_id op) d) = Some g"
    "rm_actor_uid op = gi_masterUid g \<or> rm_actor_uid op = rm_target_uid op"
    "n' = n" "d' = remove_outcome op g d"
    by (rule remove_commit [OF run])
  note grp = first_group_row [OF g(1)]
  show ?thesis
    using g ok dissolved_inv [OF inv grp] removed_inv [OF inv grp, of "rm_target_uid op"]
    by (auto simp: remove_outcome_def)
qed

end
