(* ===== verification/Store_System.thy ===== *)
theory Store_System
  imports Group_Log
begin

text \<open>
  The store behind \<^verbatim>\<open>driver::execute\<close>: the variant of all operations
  (\<open>store_op\<close>, \<^verbatim>\<open>mysql_operations.hh\<close>) with its dispatch, and the proof that each
  of them keeps the invariant of the database whatever statement of it fails.
  The contract \<open>store_backend\<close> of the session layer is interpreted here on the
  operations of the store.
\<close>

datatype store_op =
    Get_user_info int
  | Get_friend_list int
  | Insert_friend_apply FriendApply
  | Update_friend_apply_status FriendApply
  | Insert_friend Friend
  | Accept_direct_text accept_direct_text
  | Upsert_ready_file upsert_ready_file
  | Save_file_upload_progress save_file_upload_progress
  | Find_downloadable_file string int
  | Find_ready_file string int
  | Accept_group_message accept_group_message
  | Sync_conversation sync_conversation
  | Acknowledge_conversation_message acknowledge_conversation_message
  | Get_friend_apply_list int
  | Delete_friend int int
  | Create_group GroupManager
  | Request_group_join request_group_join
  | Reply_group_join reply_group_join
  | Remove_group_member remove_group_member
  | Pull_group int int
  | Update_user_info_name int string
  | Update_user_info_age int int
  | Update_user_info_sex int string
  | Update_user_info_head_image_url int string

definition void :: "('s, 'a) prog \<Rightarrow> ('s, unit) prog" where
  "void p = bind p (\<lambda>_. ret ())"

fun execute_op :: "env \<Rightarrow> store_op \<Rightarrow> (db conn, unit) prog" where
  "execute_op E (Get_user_info u) = void (execute_get_user_info u)"
| "execute_op E (Get_friend_list u) = void (execute_get_friend_list u)"
| "execute_op E (Insert_friend_apply a) = void (execute_insert_friend_apply a)"
| "execute_op E (Update_friend_apply_status a) = void (execute_update_friend_apply_status a)"
| "execute_op E (Insert_friend f) = void (execute_insert_friend E f)"
| "execute_op E (Accept_direct_text m) = void (execute_accept_direct_text E m)"
| "execute_op E (Upsert_ready_file f) = void (execute_upsert_ready_file E f)"
| "execute_op E (Save_file_upload_progress p) = void (execute_save_file_upload_progress E p)"
| "execute_op E (Find_downloadable_file f u) = void (execute_find_downloadable_file E f u)"
| "execute_op E (Find_ready_file f u) = void (execute_find_ready_file E f u)"
| "execute_op E (Accept_group_message m) = void (execute_accept_group_message E m)"
| "execute_op E (Sync_conversation s) = void (execute_sync_conversation E s)"
| "execute_op E (Acknowledge_conversation_message a) = void (execute_acknowledge_conversation_message E a)"
| "execute_op E (Get_friend_apply_list u) = void (execute_get_friend_apply_list u)"
| "execute_op E (Delete_friend a b) = void (execute_delete_friend a b)"
| "execute_op E (Create_group g) = void (execute_create_group g)"
| "execute_op E (Request_group_join r) = void (execute_request_group_join E r)"
| "execute_op E (Reply_group_join r) = void (execute_reply_group_join r)"
| "execute_op E (Remove_group_member r) = void (execute_remove_group_member r)"
| "execute_op E (Pull_group g u) = void (execute_pull_group E g u)"
| "execute_op E (Update_user_info_name u s) = void (execute_update_user_info_name u s)"
| "execute_op E (Update_user_info_age u i) = void (execute_update_user_info_age u i)"
| "execute_op E (Update_user_info_sex u s) = void (execute_update_user_info_sex u s)"
| "execute_op E (Update_user_info_head_image_url u s) = void (execute_update_user_info_head_image_url u s)"

fun submitted_ok :: "store_op \<Rightarrow> bool" where
  "submitted_ok (Request_group_join r) = (0 \<le> rj_group_id r \<and> 0 \<le> rj_uid r)"
| "submitted_ok (Remove_group_member r) =
     (rm_dissolve_if_master r \<or> rm_actor_uid r \<noteq> rm_target_uid r)"
| "submitted_ok _ = True"

definition store_inv :: "env \<Rightarrow> db \<Rightarrow> int \<Rightarrow> bool" where
  "store_inv E d n = (db_inv E d \<and> ids_below d n)"

text \<open>What the request handlers make sure of before they submit an operation.\<close>

lemma store_inv_mono: "store_inv E d n \<Longrightarrow> n \<le> n' \<Longrightarrow> store_inv E d n'"
  by (fastforce simp: store_inv_def ids_below_def)

lemma void_cases:
  assumes "void p c = (r, c')"
  obtains r1 where "p c = (r1, c')" "r = (case r1 of Inl e \<Rightarrow> Inl e | Inr _ \<Rightarrow> Inr ())"
proof -
  obtain r1 c1 where "p c = (r1, c1)" by fastforce
  with assms that [of r1] show ?thesis by (cases r1) (simp_all add: void_def bind_def ret_def)
qed

lemma keeps_void:
  assumes "keeps P p"
  shows "keeps P (void p)"
  unfolding keeps_def
proof (intro allI impI)
  fix c r c'
  assume c: "saved c = None" "\<not> aborted c" "P (rows c) (auto_id c)" "void p c = (r, c')"
  obtain r1 where r1: "p c = (r1, c')" "r = (case r1 of Inl e \<Rightarrow> Inl e | Inr _ \<Rightarrow> Inr ())"
    by (rule void_cases [OF c(4)])
  from assms c(1-3) r1(1) have "P (committed c') (auto_id c')" "\<forall>a. r1 = Inr a \<longrightarrow> saved c' = None"
    unfolding keeps_def by blast+
  then show "P (committed c') (auto_id c') \<and> (\<forall>a. r = Inr a \<longrightarrow> saved c' = None)"
    using r1(2) by (cases r1) simp_all
qed

lemma steps_in_mono:
  "steps_in R b \<Longrightarrow> (\<And>s t. R s t \<Longrightarrow> S s t) \<Longrightarrow> steps_in S b"
proof (induction b)
  case (Step l f k)
  show ?case
  proof (simp only: steps_in.simps, intro allI impI)
    fix s s' assume "f s = Inr s'"
    with Step.prems(1) have "R s s'" "steps_in R (k s)" unfolding steps_in.simps by blast+
    with Step show "S s s' \<and> steps_in S (k s)" by blast
  qed
qed simp_all

lemma keeps_read:
  assumes "plain b" "steps_in (\<lambda>s t. s = t) b"
  shows "keeps P (autocommit b)"
  by (rule keeps_autocommit [OF assms(1)], rule steps_in_mono [OF assms(2)]) simp

lemma steps_in_select_eq [simp]: "steps_in (\<lambda>s t. s = t) (select l f k) \<longleftrightarrow> (\<forall>d. steps_in (\<lambda>s t. s = t) (k (f d)))"
  by (auto simp: select_def)

text \<open>Statements that the relations of the invariant do not see.\<close>

lemma store_inv_frame:
  assumes "store_inv E d n" "conversations d' = conversations d"
    "conversationUserStates d' = conversationUserStates d" "messages d' = messages d"
    "groupInfo d' = groupInfo d" "groupMembers d' = groupMembers d" "groupApplys d' = groupApplys d"
    "conversationDeviceStates d' = conversationDeviceStates d" "friends d' = friends d"
    "unique_key friendApply_key (friendApplys d')"
    "unique_key (\<lambda>r. collate E (fo_fileId r)) (fileObjects d')"
    "unique_key (fileUpload_key E) (fileUploads d')"
  shows "store_inv E d' n"
proof -
  have rel: "convs d' = convs d" "states d' = states d" "groups d' = groups d" "members d' = members d"
    "applies d' = applies d" "friendships d' = friendships d"
    using assms by (simp_all add: rel_defs)
  have old: "inv_keys E d" "inv_log d" "inv_states d" "inv_friends d" "inv_groups d"
    using assms(1) by (simp_all add: store_inv_def db_inv_def)
  have "inv_keys E d'" using old(1) assms by (simp add: inv_keys_def)
  moreover have "inv_log d'" "inv_states d'"
    using old assms by (simp_all add: inv_log_def inv_states_def conv_messages_def)
  moreover have "inv_friends d'" "inv_groups d'"
    using old by (simp_all add: inv_friends_iff inv_groups_iff rel)
  ultimately show ?thesis using assms(1,4) by (simp add: store_inv_def db_inv_def ids_below_def)
qed

lemma store_inv_keys:
  assumes "store_inv E d n"
  shows "unique_key friendApply_key (friendApplys d)"
    "unique_key (\<lambda>r. collate E (fo_fileId r)) (fileObjects d)"
    "unique_key (fileUpload_key E) (fileUploads d)"
  using assms by (simp_all add: store_inv_def db_inv_def inv_keys_def)

lemma friendApply_step:
  assumes "store_inv E d n" "insert_friendApply r d = Inr d'"
  shows "store_inv E d' n"
proof -
  obtain t where t: "insert_row friendApply_clash r (friendApplys d) = Inr t" "d' = d\<lparr>friendApplys := t\<rparr>"
    using assms(2) by (auto simp: insert_friendApply_def split: if_splits sum.splits)
  from friendApply_pk.insert_row_unique [OF store_inv_keys(1) [OF assms(1)] this(1)]
  show ?thesis unfolding t(2) by (intro store_inv_frame [OF assms(1)]) (simp_all add: store_inv_keys [OF assms(1)])
qed

lemma apply_status_step: "store_inv E d n \<Longrightarrow> store_inv E (set_apply_status a b x d) n"
  by (rule store_inv_frame)
    (auto simp: set_apply_status_def store_inv_keys friendApply_key_def intro!: friendApply_pk.update_where_unique)

lemma user_info_step: "store_inv E d n \<Longrightarrow> store_inv E (update_user_info u f d) n"
  by (rule store_inv_frame) (auto simp: update_user_info_def store_inv_keys)

lemma put_file_step: "store_inv E d n \<Longrightarrow> store_inv E (put_file E op d) n"
  by (rule store_inv_frame)
    (auto simp: put_file_def Let_def store_inv_keys intro!: fileObject_pk.upsert_row_unique)

lemma put_progress_step: "store_inv E d n \<Longrightarrow> store_inv E (put_progress E op d) n"
  by (rule store_inv_frame)
    (auto simp: put_progress_def Let_def store_inv_keys fileUpload_key_def intro!: fileUpload_pk.upsert_row_unique)

lemma remove_friendship_step:
  assumes "store_inv E d n"
  shows "store_inv E (remove_friendship a b d) n"
proof -
  let ?d = "remove_friendship a b d"
  have old: "inv_keys E d" "inv_log d" "inv_states d" "inv_friends d" "inv_groups d"
    using assms by (simp_all add: store_inv_def db_inv_def)
  have rel: "convs ?d = convs d" "states ?d = states d" "groups ?d = groups d" "members ?d = members d"
    "applies ?d = applies d" "friendships ?d \<subseteq> friendships d"
    by (auto simp: rel_defs remove_friendship_def delete_where_def)
  have "inv_keys E ?d" using old(1) friend_pk.delete_where_unique friend_uk.delete_where_unique
    by (simp add: inv_keys_def remove_friendship_def)
  moreover have "inv_log ?d" "inv_states ?d"
    using old by (simp_all add: inv_log_def inv_states_def conv_messages_def remove_friendship_def)
  moreover have "inv_friends ?d" using inv_friends_mono [OF old(4)] rel by simp
  moreover have "inv_groups ?d" using old(5) by (simp add: inv_groups_iff rel)
  ultimately show ?thesis using assms by (simp add: store_inv_def db_inv_def ids_below_def remove_friendship_def)
qed

lemma direct_commit:
  assumes inv: "store_inv E d n"
    and run: "clean (accept_direct_text_body E op) (d, n) = Inr (Some Commit, a, d', n')"
  shows "store_inv E d' n'"
proof (cases "direct_friends op d")
  case None
  from direct_stranger [OF this] run show ?thesis by simp
next
  case (Some c)
  have db: "db_inv E d" and ids: "ids_below d n" using inv by (simp_all add: store_inv_def)
  obtain cv where cv: "cv \<in> set (conversations d)" "cv_conversationId cv = c"
    using Some unfolding direct_friends_def by (rule direct_conversation_row) auto
  show ?thesis
  proof (cases "direct_known E op d")
    case None
    from run direct_fresh [OF db ids Some None cv] show ?thesis by (simp add: store_inv_def)
  next
    case known: (Some m)
    from run direct_repeat [OF db Some known] have "d' = direct_states op c d" "n' = n"
      by (simp_all split: if_splits)
    then show ?thesis using direct_states_inv [OF db Some] ids
      by (simp add: store_inv_def ids_below_def direct_states_def)
  qed
qed

lemma group_commit:
  assumes inv: "store_inv E d n"
    and run: "clean (accept_group_message_body E op) (d, n) = Inr (Some Commit, a, d', n')"
  shows "store_inv E d' n'"
proof (cases "group_of op d")
  case None
  from group_outsider [OF this] run show ?thesis by simp
next
  case (Some c)
  have db: "db_inv E d" and ids: "ids_below d n" using inv by (simp_all add: store_inv_def)
  show ?thesis
  proof (cases "group_file_ok E op d")
    case False
    from group_file_missing [OF Some this] run show ?thesis by simp
  next
    case ready: True
    obtain cv where cv: "cv \<in> set (conversations d)" "cv_conversationId cv = c"
      by (rule group_conversation_row [OF db Some])
    show ?thesis
    proof (cases "group_known E op d")
      case None
      from run group_fresh [OF db ids Some ready None cv] show ?thesis by (simp add: store_inv_def)
    next
      case known: (Some m)
      from run group_repeat [OF db Some ready known] inv show ?thesis by (simp split: if_splits)
    qed
  qed
qed

lemma ack_commit:
  assumes inv: "store_inv E d n"
    and run: "clean (acknowledge_body E op) (d, n) = Inr (Some Commit, a, d', n')"
  shows "store_inv E d' n'"
proof (cases "ack_owner E op d")
  case None
  from ack_foreign [OF this] run show ?thesis by simp
next
  case (Some o4)
  obtain t receiver sender old where o4: "o4 = (t, receiver, sender, old)" by (cases o4)
  have db: "db_inv E d" and ids: "ids_below d n" using inv by (simp_all add: store_inv_def)
  from run ack_owned [OF Some [unfolded o4]]
  have "d' = ack_effect E op (t = 1 \<and> receiver = ack_uid op) d" "n' = n" by simp_all
  moreover have "ids_below (ack_effect E op direct d) n" for direct
    using ids by (auto simp: ids_below_def ack_effect_def advance_device_def advance_user_def
        mark_message_def update_where_def split: if_splits)
  ultimately show ?thesis using ack_effect_inv [OF db Some [unfolded o4]] by (simp add: store_inv_def)
qed

lemma insert_message_ids: "insert_message E row s = Inr (x, s') \<Longrightarrow> snd s \<le> snd s'"
  by (auto simp: insert_message_def Let_def split: if_splits sum.splits prod.splits)

lemma group_apply_ids: "ignore_groupApply E gid uid m now s = Inr (x, s') \<Longrightarrow> snd s \<le> snd s'"
  by (auto simp: ignore_groupApply_def Let_def split: if_splits prod.splits)

lemma ids_grow_statements:
  "(\<And>x. ids_grow (k x)) \<Longrightarrow> ids_grow (query l (insert_message E row) k)"
  "(\<And>x. ids_grow (j x)) \<Longrightarrow> ids_grow (query l (ignore_groupApply E gid uid m now) j)"
  by (rule ids_grow_query, assumption, erule insert_message_ids group_apply_ids)+

lemmas ids_grow_intros = ids_grow_simps ids_grow_statements

lemma accept_ids_grow [simp]:
  "ids_grow (accept_direct_text_body E op1)" "ids_grow (accept_group_message_body E op2)"
proof -
  show "ids_grow (accept_direct_text_body E op1)"
    by (auto simp: accept_direct_text_body_def Let_def intro!: ids_grow_intros split: option.splits)
  have finish: "ids_grow (accept_group_finish op2 acc)" for acc
    by (auto simp: accept_group_finish_def Let_def intro!: ids_grow_intros)
  then have "ids_grow (accept_group_sequence E op2 acc)" for acc
    by (auto simp: accept_group_sequence_def Let_def intro!: ids_grow_intros split: option.splits)
  then show "ids_grow (accept_group_message_body E op2)"
    by (auto simp: accept_group_message_body_def Let_def intro!: ids_grow_intros split: option.splits)
qed

lemma acknowledge_ids_grow [simp]: "ids_grow (acknowledge_body E op)"
proof -
  have "ids_grow (acknowledge_finish E op acc)" for acc
    by (auto simp: acknowledge_finish_def intro!: ids_grow_intros)
  then show ?thesis by (auto simp: acknowledge_body_def Let_def intro!: ids_grow_intros split: option.splits)
qed

lemma bodies_ids_grow [simp]:
  "ids_grow (insert_friend_body E f)" "ids_grow (create_group_body g)"
  "ids_grow (request_group_join_body E op4)" "ids_grow (reply_group_join_body op5)"
  "ids_grow (remove_group_member_body op6)"
  by (auto simp: insert_friend_body_def create_group_body_def request_group_join_body_def
      reply_group_join_body_def remove_group_member_body_def Let_def
      intro!: ids_grow_intros split: option.splits)

lemma bodies_close [simp]:
  "closes (insert_friend_body E f)" "closes (create_group_body g)"
  "closes (request_group_join_body E op4)" "closes (reply_group_join_body op5)"
  "closes (remove_group_member_body op6)"
  by (auto simp: insert_friend_body_def create_group_body_def request_group_join_body_def
      reply_group_join_body_def remove_group_member_body_def Let_def
      intro!: closes_exec closes_query split: option.splits)

lemma keeps_transaction_store:
  assumes "closes b" "ids_grow b"
    and "\<And>d n a d' n'. store_inv E d n \<Longrightarrow> clean b (d, n) = Inr (Some Commit, a, d', n') \<Longrightarrow> store_inv E d' n'"
  shows "keeps (store_inv E) (transaction b h)"
  by (rule keeps_transaction [OF assms(1,2) store_inv_mono assms(3)])

lemma keeps_messages:
  "keeps (store_inv E) (execute_accept_direct_text E op1)"
  "keeps (store_inv E) (execute_accept_group_message E op2)"
  "keeps (store_inv E) (execute_acknowledge_conversation_message E op3)"
  by (simp_all add: execute_accept_direct_text_def execute_accept_group_message_def
      execute_acknowledge_conversation_message_def keeps_transaction_store
      [OF _ _ direct_commit] keeps_transaction_store [OF _ _ group_commit]
      keeps_transaction_store [OF _ _ ack_commit])

text \<open>The transactions that add no message.\<close>

lemma keeps_quiet:
  assumes "closes b" "ids_grow b"
    and "\<And>d n a d' n'. db_inv E d \<Longrightarrow> clean b (d, n) = Inr (Some Commit, a, d', n') \<Longrightarrow>
      db_inv E d' \<and> n' = n \<and> messages d' = messages d"
  shows "keeps (store_inv E) (transaction b h)"
proof (rule keeps_transaction_store [OF assms(1,2)])
  fix d n a d' n'
  assume i: "store_inv E d n" and r: "clean b (d, n) = Inr (Some Commit, a, d', n')"
  have "db_inv E d" using i by (simp add: store_inv_def)
  from assms(3) [OF this r] i show "store_inv E d' n'" by (simp add: store_inv_def ids_below_def)
qed

lemma keeps_friend_group:
  "keeps (store_inv E) (execute_insert_friend E' f)"
  "keeps (store_inv E) (execute_create_group g)"
  "submitted_ok (Request_group_join op1) \<Longrightarrow> keeps (store_inv E) (execute_request_group_join E' op1)"
  "keeps (store_inv E) (execute_reply_group_join op2)"
  "submitted_ok (Remove_group_member op3) \<Longrightarrow> keeps (store_inv E) (execute_remove_group_member op3)"
  unfolding execute_insert_friend_def execute_create_group_def execute_request_group_join_def
    execute_reply_group_join_def execute_remove_group_member_def
proof -
  show "keeps (store_inv E) (transaction (insert_friend_body E' f) rethrow)"
    by (rule keeps_quiet, simp_all only: bodies_close bodies_ids_grow) (rule insert_friend_commit)
  show "keeps (store_inv E) (transaction (create_group_body g) group_handler)"
    by (rule keeps_quiet, simp_all only: bodies_close bodies_ids_grow) (rule create_group_commit)
  show "keeps (store_inv E) (transaction (request_group_join_body E' op1) group_handler)"
    if "submitted_ok (Request_group_join op1)"
    by (rule keeps_quiet, simp_all only: bodies_close bodies_ids_grow)
      (rule request_join_commit, assumption, use that in simp_all)
  show "keeps (store_inv E) (transaction (reply_group_join_body op2) group_handler)"
    by (rule keeps_quiet, simp_all only: bodies_close bodies_ids_grow) (erule (1) reply_join_commit, simp)
  show "keeps (store_inv E) (transaction (remove_group_member_body op3) group_handler)"
    if "submitted_ok (Remove_group_member op3)"
    by (rule keeps_quiet, simp_all only: bodies_close bodies_ids_grow)
      (rule remove_inv, assumption, use that in simp_all)
qed

lemma reads_plain [simp]:
  "plain (get_user_info_script u)" "plain (get_friend_list_script u)" "plain (get_friend_apply_list_script u)"
  "plain (find_downloadable_file_script E f u)" "plain (find_ready_file_script E f u)"
  "plain (sync_conversation_script E s)" "plain (pull_group_script E g u)"
  by (auto simp: get_user_info_script_def get_friend_list_script_def get_friend_apply_list_script_def
      find_downloadable_file_script_def find_ready_file_script_def sync_conversation_script_def
      pull_group_script_def Let_def split: option.splits)

lemma reads_read [simp]:
  "steps_in (\<lambda>s t. s = t) (get_user_info_script u)" "steps_in (\<lambda>s t. s = t) (get_friend_list_script u)"
  "steps_in (\<lambda>s t. s = t) (get_friend_apply_list_script u)"
  "steps_in (\<lambda>s t. s = t) (find_downloadable_file_script E f u)"
  "steps_in (\<lambda>s t. s = t) (find_ready_file_script E f u)"
  "steps_in (\<lambda>s t. s = t) (sync_conversation_script E s)" "steps_in (\<lambda>s t. s = t) (pull_group_script E g u)"
  by (auto simp: get_user_info_script_def get_friend_list_script_def get_friend_apply_list_script_def
      find_downloadable_file_script_def find_ready_file_script_def sync_conversation_script_def
      pull_group_script_def Let_def split: option.splits)

lemma keeps_reads:
  "keeps P (execute_get_user_info u)" "keeps P (execute_get_friend_list u)"
  "keeps P (execute_get_friend_apply_list u)" "keeps P (execute_find_downloadable_file E f u)"
  "keeps P (execute_find_ready_file E f u)" "keeps P (execute_sync_conversation E s)"
  by (simp_all add: execute_get_user_info_def execute_get_friend_list_def execute_get_friend_apply_list_def
      execute_find_downloadable_file_def execute_find_ready_file_def execute_sync_conversation_def keeps_read)

lemma keeps_writes:
  "keeps (store_inv E) (execute_insert_friend_apply a)"
  "keeps (store_inv E) (execute_update_friend_apply_status a)"
  "keeps (store_inv E) (execute_delete_friend u v)"
  "keeps (store_inv E) (execute_upsert_ready_file E f)"
  "keeps (store_inv E) (execute_save_file_upload_progress E p)"
  "keeps (store_inv E) (execute_update_user_info_name u s)"
  "keeps (store_inv E) (execute_update_user_info_age u i)"
  "keeps (store_inv E) (execute_update_user_info_sex u s)"
  "keeps (store_inv E) (execute_update_user_info_head_image_url u s)"
  unfolding execute_insert_friend_apply_def execute_update_friend_apply_status_def execute_delete_friend_def
    execute_upsert_ready_file_def execute_save_file_upload_progress_def execute_update_user_info_name_def
    execute_update_user_info_age_def execute_update_user_info_sex_def execute_update_user_info_head_image_url_def
  by (rule keeps_autocommit;
      auto simp: insert_friend_apply_script_def update_friend_apply_status_script_def delete_friend_script_def
        upsert_ready_file_script_def save_file_upload_progress_script_def update_user_info_script_def Let_def
        friendApply_step apply_status_step remove_friendship_step put_file_step put_progress_step user_info_step
      intro!: plain_exec steps_in_exec steps_in_select split: option.splits)+

lemma keeps_pull_group: "keeps P (execute_pull_group E g u)"
  unfolding keeps_def
proof (intro allI impI)
  fix c :: "db conn" and r c'
  assume c: "saved c = None" "\<not> aborted c" "P (rows c) (auto_id c)" "execute_pull_group E g u c = (r, c')"
  obtain r1 c1 where "run (pull_group_script E g u) c = (r1, c1)" by fastforce
  moreover from this c(4) have "c1 = c'" by (cases r1) (auto simp: execute_pull_group_def)
  ultimately have "run (pull_group_script E g u) c = (r1, c')" by simp
  from run_plain [where R = "\<lambda>s t. s = t", OF reads_plain(7) c(1) reads_read(7) refl _ this]
  have "saved c' = None" "rows c' = rows c" "auto_id c' = auto_id c" by auto
  with c(3) show "P (committed c') (auto_id c') \<and> (\<forall>a. r = Inr a \<longrightarrow> saved c' = None)"
    by (simp add: committed_def)
qed

interpretation store: store_backend "store_inv E" submitted_ok "execute_op E" for E
proof (unfold_locales)
  fix op assume "submitted_ok op"
  then show "keeps (store_inv E) (execute_op E op)"
    by (cases op) (auto intro!: keeps_void keeps_messages keeps_friend_group keeps_reads keeps_writes keeps_pull_group)
qed

end
