(* ===== verification/Message_Driver.thy ===== *)
theory Message_Driver
  imports Message_Transport Store_System
begin

text \<open>
  The driver of a Message shard (\<^verbatim>\<open>message/io/driver.cc\<close>) behind its operation queue:
  Redis through Sentinel, the session leases, id allocation, the File RPCs, and
  the MySQL store.  Time, name resolution, the Redis and Sentinel servers, the
  File service and the protobuf codecs are the parameters in \<open>services\<close>; what
  changes over time takes a tick as its argument, and every use of it advances
  the tick of the \<open>world\<close>.
\<close>

section \<open>Services\<close>

datatype reply_type =
    REDIS_REPLY_STRING | REDIS_REPLY_ARRAY | REDIS_REPLY_INTEGER | REDIS_REPLY_NIL
  | REDIS_REPLY_STATUS | REDIS_REPLY_ERROR | REDIS_REPLY_OTHER

record redisReply =
  hr_type :: reply_type
  hr_integer :: int
  hr_str :: "string option"
  hr_element :: "string option list"

record redis_reply =
  rd_type :: reply_type
  rd_integer :: int
  rd_text :: string
  rd_elements :: "string list"

record services =
  io_resolve :: "nat \<Rightarrow> string \<Rightarrow> exn + string"
  io_connect :: "nat \<Rightarrow> string \<Rightarrow> int \<Rightarrow> exn + unit"
  io_redis :: "nat \<Rightarrow> string \<Rightarrow> int \<Rightarrow> string list \<Rightarrow> redisReply option"
  io_clock :: "nat \<Rightarrow> int"
  io_datetime :: "nat \<Rightarrow> string"
  io_expiry :: "nat \<Rightarrow> string"
  io_lease :: "string \<Rightarrow> SessionLease option"
  io_upload :: "nat \<Rightarrow> UploadRequest \<Rightarrow> string + UploadResponse"
  io_download :: "nat \<Rightarrow> DownloadRequest \<Rightarrow> string + DownloadResponse"
  io_parse :: "string \<Rightarrow> Packet option"
  io_serialize :: "Packet \<Rightarrow> string"
  io_byte_size :: "MessageToGatewayFrame \<Rightarrow> nat"
  io_request_size :: "CommandEnvelope \<Rightarrow> nat"

record endpoint =
  ep_host :: string
  ep_port :: int

record message_options =
  mo_shards :: nat
  mo_self :: nat
  mo_sentinels :: "endpoint list"
  mo_master_name :: string
  mo_redis_password :: string
  mo_sentinel_password :: string
  mo_machine_id :: int

section \<open>World\<close>

text \<open>
  One slot of the schedule is consumed by each submission: the store operations
  of other requests that the consumers run first, whether the queue admits the
  operation, whether the shard has begun to stop, and the Redis connection that
  earlier operations left behind.
\<close>

datatype admission = Admitted | Queue_full | Queue_stopped

record redis_link =
  rl_host :: string
  rl_port :: int
  rl_ip :: string

record slot =
  sl_before :: "store_op list"
  sl_admission :: admission
  sl_stop :: bool
  sl_redis :: "redis_link option option"

record world =
  w_sql :: "db conn"
  w_slots :: "slot list"
  w_tick :: nat
  w_redis :: "redis_link option"
  w_sleeps :: nat
  w_stopping :: bool
  w_requests :: budget
  w_transports :: "nat \<Rightarrow> server"

definition free_slot :: slot where
  "free_slot = \<lparr>sl_before = [], sl_admission = Admitted, sl_stop = False, sl_redis = None\<rparr>"

definition next_slot :: "world \<Rightarrow> slot \<times> world" where
  "next_slot w = (case w_slots w of [] \<Rightarrow> (free_slot, w) | s # ss \<Rightarrow> (s, w\<lparr>w_slots := ss\<rparr>))"

definition enter_slot :: "env \<Rightarrow> slot \<Rightarrow> world \<Rightarrow> world" where
  "enter_slot E s w =
     w\<lparr>w_sql := driver_run (execute_op E) (sl_before s) (w_sql w),
       w_stopping := w_stopping w \<or> sl_stop s,
       w_redis := (case sl_redis s of None \<Rightarrow> w_redis w | Some l \<Rightarrow> l)\<rparr>"

text \<open>\<^verbatim>\<open>co_await _io.submit(operation)\<close> with the driver's \<^verbatim>\<open>execute\<close> of the operation.\<close>

definition submit :: "env \<Rightarrow> (world, 'a) prog \<Rightarrow> (world, 'a) prog" where
  "submit E execute w =
     (let (s, w1) = next_slot w; w2 = enter_slot E s w1 in
      case sl_admission s of
        Queue_stopped \<Rightarrow> (Inl Stopped, w2)
      | Queue_full \<Rightarrow> (Inl Overloaded, w2)
      | Admitted \<Rightarrow> execute w2)"

definition sql :: "(db conn, 'a) prog \<Rightarrow> (world, 'a) prog" where
  "sql operation w =
     (case driver_execute (w_stopping w) operation (w_sql w) of (r, c) \<Rightarrow> (r, w\<lparr>w_sql := c\<rparr>))"

definition ask :: "(nat \<Rightarrow> 'a) \<Rightarrow> (world, 'a) prog" where
  "ask f w = (Inr (f (w_tick w)), w\<lparr>w_tick := Suc (w_tick w)\<rparr>)"

definition await :: "(nat \<Rightarrow> exn + 'a) \<Rightarrow> (world, 'a) prog" where
  "await f w = (f (w_tick w), w\<lparr>w_tick := Suc (w_tick w)\<rparr>)"

definition check_running :: "(world, unit) prog" where
  "check_running w = (if w_stopping w then Inl Stopped else Inr (), w)"

definition require_reply :: "bool \<Rightarrow> (world, unit) prog" where
  "require_reply condition = (if condition then ret () else raise (RuntimeError ''invalid Redis response''))"

section \<open>Redis\<close>

text \<open>\<^verbatim>\<open>redis_connection::completed\<close> copies the reply of hiredis.\<close>

definition completed :: "redisReply option \<Rightarrow> exn + redis_reply" where
  "completed data =
     (case data of
        None \<Rightarrow> Inl (RuntimeError ''Redis connection closed'')
      | Some reply \<Rightarrow>
          if hr_type reply = REDIS_REPLY_ERROR
          then Inl (RuntimeError (case hr_str reply of None \<Rightarrow> '''' | Some m \<Rightarrow> m))
          else if hr_type reply = REDIS_REPLY_ARRAY \<and> None \<in> set (hr_element reply)
          then Inl (RuntimeError ''invalid Sentinel response'')
          else Inr \<lparr>rd_type = hr_type reply, rd_integer = hr_integer reply,
                    rd_text = (case hr_str reply of None \<Rightarrow> '''' | Some m \<Rightarrow> m),
                    rd_elements = (if hr_type reply = REDIS_REPLY_ARRAY then map the (hr_element reply) else [])\<rparr>)"

definition redis_call :: "services \<Rightarrow> string \<Rightarrow> int \<Rightarrow> string list \<Rightarrow> (world, redis_reply) prog" where
  "redis_call S ip port arguments = await (\<lambda>n. completed (io_redis S n ip port arguments))"

text \<open>\<^verbatim>\<open>std::stoul\<close>: leading blanks, a sign, the digits; a number that does not fit throws.\<close>

definition is_space :: "char \<Rightarrow> bool" where
  "is_space c = (c = CHR '' '' \<or> (9 \<le> (of_char c :: nat) \<and> (of_char c :: nat) \<le> 13))"

definition is_digit :: "char \<Rightarrow> bool" where
  "is_digit c = (48 \<le> (of_char c :: nat) \<and> (of_char c :: nat) \<le> 57)"

definition digits_value :: "string \<Rightarrow> nat" where
  "digits_value ds = foldl (\<lambda>n c. 10 * n + (of_char c - 48)) 0 ds"

definition stoul :: "string \<Rightarrow> exn + nat" where
  "stoul s =
     (let t = dropWhile is_space s;
          negative = (t \<noteq> [] \<and> hd t = CHR ''-'');
          u = (if t \<noteq> [] \<and> (hd t = CHR ''-'' \<or> hd t = CHR ''+'') then tl t else t);
          ds = takeWhile is_digit u;
          n = digits_value ds
      in if ds = [] then Inl (InvalidArgument ''stoul'')
         else if 2 ^ 64 \<le> n then Inl (LogicError ''stoul'')
         else Inr (if negative then (2 ^ 64 - n) mod 2 ^ 64 else n))"

definition ask_sentinel :: "services \<Rightarrow> message_options \<Rightarrow> endpoint \<Rightarrow> (world, endpoint) prog" where
  "ask_sentinel S options address =
     bind (await (\<lambda>n. io_resolve S n (ep_host address))) (\<lambda>ip.
     bind check_running (\<lambda>_.
     bind (await (\<lambda>n. io_connect S n ip (ep_port address))) (\<lambda>_.
     bind (if mo_sentinel_password options \<noteq> ''''
           then bind (redis_call S ip (ep_port address) [''AUTH'', mo_sentinel_password options])
                  (\<lambda>reply. require_reply (rd_type reply = REDIS_REPLY_STATUS \<and> rd_text reply = ''OK''))
           else ret ()) (\<lambda>_.
     bind (redis_call S ip (ep_port address)
             [''SENTINEL'', ''get-master-addr-by-name'', mo_master_name options]) (\<lambda>reply.
     bind (require_reply (rd_type reply = REDIS_REPLY_ARRAY \<and> length (rd_elements reply) = 2)) (\<lambda>_.
     case stoul (rd_elements reply ! 1) of
       Inl e \<Rightarrow> raise e
     | Inr port \<Rightarrow>
         bind (require_reply (port \<noteq> 0 \<and> port \<le> 65535)) (\<lambda>_.
         ret \<lparr>ep_host = rd_elements reply ! 0, ep_port = int port\<rparr>)))))))"

text \<open>The sentinels in turn; after the last one the latest failure is thrown again.\<close>

fun discover_redis_master ::
  "services \<Rightarrow> message_options \<Rightarrow> endpoint list \<Rightarrow> exn \<Rightarrow> (world, endpoint) prog" where
  "discover_redis_master S options [] failure = raise failure"
| "discover_redis_master S options (address # rest) failure =
     bind check_running
       (\<lambda>_. catch (ask_sentinel S options address)
               (\<lambda>e. discover_redis_master S options rest e))"

definition connect_redis :: "services \<Rightarrow> message_options \<Rightarrow> endpoint \<Rightarrow> (world, redis_link) prog" where
  "connect_redis S options address =
     bind (await (\<lambda>n. io_resolve S n (ep_host address))) (\<lambda>ip.
     bind check_running (\<lambda>_.
     bind (\<lambda>w. (Inr (), w\<lparr>w_redis := Some \<lparr>rl_host = ep_host address, rl_port = ep_port address, rl_ip = ip\<rparr>\<rparr>)) (\<lambda>_.
     bind (await (\<lambda>n. io_connect S n ip (ep_port address))) (\<lambda>_.
     bind (if mo_redis_password options \<noteq> ''''
           then bind (redis_call S ip (ep_port address) [''AUTH'', mo_redis_password options])
                  (\<lambda>reply. require_reply (rd_type reply = REDIS_REPLY_STATUS \<and> rd_text reply = ''OK''))
           else ret ()) (\<lambda>_.
     ret \<lparr>rl_host = ep_host address, rl_port = ep_port address, rl_ip = ip\<rparr>)))))"

text \<open>The connection of an earlier call is used again only for the master Sentinel names now.\<close>

definition master_link :: "services \<Rightarrow> message_options \<Rightarrow> endpoint \<Rightarrow> (world, redis_link) prog" where
  "master_link S options address w =
     (let w1 = (case w_redis w of
                  Some l \<Rightarrow> if rl_host l \<noteq> ep_host address \<or> rl_port l \<noteq> ep_port address
                           then w\<lparr>w_redis := None\<rparr> else w
                | None \<Rightarrow> w)
      in case w_redis w1 of
           Some l \<Rightarrow> (Inr l, w1)
         | None \<Rightarrow> connect_redis S options address w1)"

definition redis_command :: "services \<Rightarrow> message_options \<Rightarrow> string list \<Rightarrow> (world, redis_reply) prog" where
  "redis_command S options arguments =
     bind check_running (\<lambda>_.
     catch
       (bind (discover_redis_master S options (mo_sentinels options) (LogicError ''no sentinel'')) (\<lambda>address.
        bind (master_link S options address) (\<lambda>l.
        bind (redis_call S (rl_ip l) (rl_port l) arguments) (\<lambda>reply.
        bind (require_reply (rd_type reply \<noteq> REDIS_REPLY_ERROR)) (\<lambda>_.
        ret reply)))))
       (\<lambda>e w. (Inl e, w\<lparr>w_redis := None\<rparr>)))"

section \<open>Sessions, ids and files\<close>

definition session_key :: "int \<Rightarrow> string \<Rightarrow> string" where
  "session_key uid device_id = ''im:session:'' @ to_string uid @ '':'' @ device_id"

definition session :: "services \<Rightarrow> message_options \<Rightarrow> int \<Rightarrow> string \<Rightarrow> (world, SessionLease) prog" where
  "session S options uid device_id =
     bind (redis_command S options [''GET'', session_key uid device_id]) (\<lambda>reply.
     if rd_type reply = REDIS_REPLY_NIL then ret empty_lease
     else bind (require_reply (rd_type reply = REDIS_REPLY_STRING)) (\<lambda>_.
          case io_lease S (rd_text reply) of
            None \<Rightarrow> raise (RuntimeError ''invalid session lease'')
          | Some lease \<Rightarrow> ret lease))"

definition get_session :: "services \<Rightarrow> message_options \<Rightarrow> int \<Rightarrow> string \<Rightarrow> (world, SessionLease) prog" where
  "get_session S options uid device_id = bind check_running (\<lambda>_. session S options uid device_id)"

definition user_sessions_key :: "int \<Rightarrow> string" where
  "user_sessions_key uid = ''im:userSessions:'' @ to_string uid"

definition get_sessions :: "services \<Rightarrow> message_options \<Rightarrow> int \<Rightarrow> (world, SessionLease list) prog" where
  "get_sessions S options uid =
     bind check_running (\<lambda>_.
     bind (redis_command S options [''SMEMBERS'', user_sessions_key uid]) (\<lambda>reply.
     bind (require_reply (rd_type reply = REDIS_REPLY_ARRAY)) (\<lambda>_.
     fold_prog (\<lambda>device_id result.
         bind (session S options uid device_id) (\<lambda>lease.
         if ls_connection_id lease = ''''
         then bind (redis_command S options [''SREM'', user_sessions_key uid, device_id]) (\<lambda>_. ret result)
         else ret (result @ [lease])))
       (rd_elements reply) [])))"

datatype id_kind = Id_message | Id_conversation | Id_friendship | Id_group

fun id_prefix :: "id_kind \<Rightarrow> string" where
  "id_prefix Id_message = ''im:msgId''"
| "id_prefix Id_conversation = ''im:conversationId''"
| "id_prefix Id_friendship = ''im:friendshipId''"
| "id_prefix Id_group = ''im:groupId''"

definition id_layout :: "int \<Rightarrow> int \<Rightarrow> int \<Rightarrow> int" where
  "id_layout timestamp machine_id sequence =
     sint ((push_bit 22 (word_of_int timestamp) OR push_bit 12 (word_of_int machine_id) OR word_of_int sequence) :: 64 word)"

text \<open>
  \<open>sleeps\<close> is the number of one-millisecond sleeps that end before the shard is aborted;
  \<^verbatim>\<open>sleep_abortable\<close> throws when the abort comes first.
\<close>

definition generate_id_turn ::
  "services \<Rightarrow> message_options \<Rightarrow> id_kind \<Rightarrow> (world, int) prog \<Rightarrow> (world, int) prog" where
  "generate_id_turn S options kind sleep_and_retry =
     bind (ask (\<lambda>n. io_clock S n - 1672531200000)) (\<lambda>timestamp.
     bind (redis_command S options [''INCR'', id_prefix kind @ '':'' @ to_string timestamp]) (\<lambda>reply.
     bind (require_reply (rd_type reply = REDIS_REPLY_INTEGER \<and> 0 < rd_integer reply)) (\<lambda>_.
     if rd_integer reply \<le> 4095 then ret (id_layout timestamp (mo_machine_id options) (rd_integer reply))
     else sleep_and_retry)))"

primrec generate_id_loop :: "services \<Rightarrow> message_options \<Rightarrow> id_kind \<Rightarrow> nat \<Rightarrow> (world, int) prog" where
  "generate_id_loop S options kind 0 =
     generate_id_turn S options kind (\<lambda>w. (Inl (RuntimeError ''Sleep is aborted''), w\<lparr>w_stopping := True\<rparr>))"
| "generate_id_loop S options kind (Suc sleeps) =
     generate_id_turn S options kind (generate_id_loop S options kind sleeps)"

definition generate_id :: "services \<Rightarrow> message_options \<Rightarrow> id_kind \<Rightarrow> (world, int) prog" where
  "generate_id S options kind w =
     bind check_running (\<lambda>_. generate_id_loop S options kind (w_sleeps w)) w"

definition upload_file :: "services \<Rightarrow> UploadRequest \<Rightarrow> (world, UploadResponse) prog" where
  "upload_file S request =
     bind check_running (\<lambda>_.
     await (\<lambda>n. case io_upload S n request of
                  Inl m \<Rightarrow> Inl (RuntimeError (''File upload RPC: '' @ m))
                | Inr response \<Rightarrow> Inr response))"

definition download_file :: "services \<Rightarrow> DownloadRequest \<Rightarrow> (world, DownloadResponse) prog" where
  "download_file S request =
     bind check_running (\<lambda>_.
     await (\<lambda>n. case io_download S n request of
                  Inl m \<Rightarrow> Inl (RuntimeError (''File download RPC: '' @ m))
                | Inr response \<Rightarrow> Inr response))"

definition driver_abort :: "world \<Rightarrow> world" where
  "driver_abort w = (if w_stopping w then w else w\<lparr>w_stopping := True, w_sql := abort (w_sql w), w_redis := None\<rparr>)"

section \<open>What a call may change\<close>

definition quiet :: "world \<Rightarrow> world \<Rightarrow> bool" where
  "quiet w w' =
     (w_tick w \<le> w_tick w' \<and> w_sql w' = w_sql w \<and> w_slots w' = w_slots w \<and> w_sleeps w' = w_sleeps w \<and>
      w_transports w' = w_transports w \<and> w_requests w' = w_requests w \<and> (w_stopping w \<longrightarrow> w_stopping w'))"

interpretation quiet: step_relation quiet
  by unfold_locales (auto simp: quiet_def)

lemma quiet_basic [intro]:
  "within quiet (ask f)" "within quiet (await g)" "within quiet check_running" "within quiet (require_reply b)"
  "within quiet (redis_call S ip port arguments)"
  by (auto simp: within_def quiet_def ask_def await_def check_running_def require_reply_def redis_call_def
      ret_def raise_def)

lemma quiet_redis [intro]: "within quiet (\<lambda>w. (r, w\<lparr>w_redis := l\<rparr>))"
  by (auto simp: within_def quiet_def)

lemma quiet_sentinel [intro]: "within quiet (ask_sentinel S options address)"
  unfolding ask_sentinel_def by (intro quiet.within_intros quiet_basic) (auto split: sum.splits)

lemma quiet_discover [intro]: "within quiet (discover_redis_master S options addresses failure)"
  by (induction addresses arbitrary: failure) auto

lemma quiet_connect [intro]: "within quiet (connect_redis S options address)"
  unfolding connect_redis_def by (intro quiet.within_intros quiet_basic quiet_redis)

lemma quiet_link [intro]: "within quiet (master_link S options address)"
proof -
  have "quiet w (snd (connect_redis S options address w'))" if "quiet w w'" for w w'
    using quiet_connect [of S options address] that quiet.step_trans by (auto simp: within_snd)
  moreover have "quiet w w" "quiet w (w\<lparr>w_redis := l\<rparr>)" for w l by (simp_all add: quiet_def)
  ultimately show ?thesis
    by (simp add: within_snd master_link_def Let_def split: option.splits)
qed

lemma quiet_command [intro]: "within quiet (redis_command S options arguments)"
  unfolding redis_command_def
  by (intro quiet.within_intros quiet_basic quiet_discover quiet_link quiet_redis)

lemma quiet_session [intro]: "within quiet (session S options uid device_id)"
  unfolding session_def by (intro quiet.within_intros quiet_basic quiet_command) (auto split: option.splits)

lemma quiet_sessions [intro]:
  "within quiet (get_session S options uid device_id)" "within quiet (get_sessions S options uid)"
  unfolding get_session_def get_sessions_def
  by (intro quiet.within_intros quiet_basic quiet_command quiet_session)+

lemma quiet_turn: "within quiet p \<Longrightarrow> within quiet (generate_id_turn S options kind p)"
  unfolding generate_id_turn_def by (intro quiet.within_intros quiet_basic quiet_command)

lemma quiet_id_loop: "within quiet (generate_id_loop S options kind sleeps)"
proof (induction sleeps)
  case 0
  have "within quiet (\<lambda>w. (Inl (RuntimeError ''Sleep is aborted'') :: exn + int, w\<lparr>w_stopping := True\<rparr>))"
    by (auto simp: within_def quiet_def)
  then show ?case by (simp add: quiet_turn)
qed (simp add: quiet_turn)

lemma quiet_id [intro]: "within quiet (generate_id S options kind)"
proof -
  have "within quiet (bind check_running (\<lambda>_. generate_id_loop S options kind n))" for n
    by (intro quiet.within_bind quiet_basic quiet_id_loop)
  then show ?thesis by (auto simp: within_snd generate_id_def)
qed

lemma quiet_files [intro]: "within quiet (upload_file S u)" "within quiet (download_file S d)"
  unfolding upload_file_def download_file_def by (intro quiet.within_bind quiet_basic)+

text \<open>
  What the handlers of a request respect, whichever they are: a relation that allows
  the calls of the driver, the store operations of this and of other requests, and
  every change of the connection that keeps the database within its invariant.
\<close>

definition conn_ok :: "env \<Rightarrow> db conn \<Rightarrow> bool" where
  "conn_ok E c = (saved c = None \<and> store_inv E (rows c) (auto_id c))"

locale request_relation = step_relation R for R :: "world \<Rightarrow> world \<Rightarrow> bool" +
  fixes E :: env
  assumes quiet_step: "quiet w w' \<Longrightarrow> R w w'"
    and enter_step: "next_slot w = (s, w1) \<Longrightarrow> R w (enter_slot E s w1)"
    and sql_step: "(conn_ok E (w_sql w) \<longrightarrow> conn_ok E c) \<Longrightarrow> R w (w\<lparr>w_sql := c\<rparr>)"
begin

lemma within_quiet: "within quiet p \<Longrightarrow> within R p"
  using quiet_step unfolding within_def by blast

lemma within_calls:
  "within R (ask f)" "within R check_running" "within R (generate_id S options kind)"
  "within R (get_session S options uid device)" "within R (get_sessions S options uid)"
  "within R (upload_file S u)" "within R (download_file S d)"
  by (auto intro: within_quiet)

lemma within_sql:
  assumes "keeps (store_inv E) operation"
  shows "within R (sql operation)"
  unfolding within_def
proof (intro allI impI)
  fix w r w' assume run: "sql operation w = (r, w')"
  obtain r1 c where step: "driver_execute (w_stopping w) operation (w_sql w) = (r1, c)" by fastforce
  have "conn_ok E (w_sql w) \<longrightarrow> conn_ok E c"
    using driver_keeps [OF assms _ _ step] by (simp add: conn_ok_def)
  from sql_step [OF this] run step show "R w w'" by (auto simp: sql_def)
qed

lemma within_submit:
  assumes "within R p"
  shows "within R (submit E p)"
  unfolding within_def
proof (intro allI impI)
  fix w r w' assume run: "submit E p w = (r, w')"
  obtain s w1 where slot: "next_slot w = (s, w1)" by fastforce
  note enter = enter_step [OF slot]
  show "R w w'"
  proof (cases "sl_admission s")
    case Admitted
    with run slot have "p (enter_slot E s w1) = (r, w')" by (simp add: submit_def)
    from step_trans [OF enter withinD [OF assms this]] show ?thesis .
  qed (use run slot enter in \<open>simp_all add: submit_def\<close>)
qed

lemmas request_intros = within_intros within_calls within_submit within_sql

end

text \<open>The database stays within its invariant, whatever other requests do in between.\<close>

definition world_ok :: "env \<Rightarrow> world \<Rightarrow> bool" where
  "world_ok E w = (conn_ok E (w_sql w) \<and> list_all (\<lambda>s. list_all submitted_ok (sl_before s)) (w_slots w))"

definition keeps_world :: "env \<Rightarrow> world \<Rightarrow> world \<Rightarrow> bool" where
  "keeps_world E w w' = (world_ok E w \<longrightarrow> world_ok E w')"

lemma stored_enter:
  assumes "world_ok E w" "next_slot w = (s, w1)"
  shows "world_ok E (enter_slot E s w1)"
proof -
  have s: "list_all submitted_ok (sl_before s)" "w_sql w1 = w_sql w"
    "list_all (\<lambda>s. list_all submitted_ok (sl_before s)) (w_slots w1)"
    using assms by (auto simp: world_ok_def next_slot_def free_slot_def split: list.splits)
  have "saved (w_sql w) = None" "store_inv E (rows (w_sql w)) (auto_id (w_sql w))"
    using assms(1) by (simp_all add: world_ok_def conn_ok_def)
  from store.driver_run_keeps [OF this s(1)] s(2,3) show ?thesis
    by (simp add: world_ok_def conn_ok_def enter_slot_def)
qed

interpretation stored: request_relation "keeps_world E" E for E
proof
  show "keeps_world E w w" "keeps_world E u v \<Longrightarrow> keeps_world E v w \<Longrightarrow> keeps_world E u w" for u v w
    by (auto simp: keeps_world_def)
  show "quiet w w' \<Longrightarrow> keeps_world E w w'" for w w'
    by (simp add: quiet_def keeps_world_def world_ok_def)
  show "next_slot w = (s, w1) \<Longrightarrow> keeps_world E w (enter_slot E s w1)" for w s w1
    using stored_enter by (simp add: keeps_world_def)
  show "conn_ok E (w_sql w) \<longrightarrow> conn_ok E c \<Longrightarrow> keeps_world E w (w\<lparr>w_sql := c\<rparr>)" for w c
    by (simp add: keeps_world_def world_ok_def)
qed

section \<open>Ids\<close>

lemma or_shift:
  fixes a b :: int
  assumes "0 \<le> b" "b < 2 ^ k"
  shows "push_bit k a OR b = a * 2 ^ k + b"
proof -
  have "take_bit k b = b" using assms by (simp add: take_bit_int_eq_self)
  then show ?thesis using concat_bit_eq [of k b a] concat_bit_def [of k b a]
    by (simp add: or.commute push_bit_eq_mult add.commute)
qed

lemma id_layout_eq:
  assumes "0 \<le> timestamp" "timestamp < 2 ^ 41" "0 \<le> machine_id" "machine_id \<le> 1023" "0 \<le> sequence" "sequence \<le> 4095"
  shows "id_layout timestamp machine_id sequence = timestamp * 2 ^ 22 + machine_id * 2 ^ 12 + sequence"
proof -
  let ?x = "timestamp * 2 ^ 22 + (machine_id * 2 ^ 12 + sequence)"
  have low: "push_bit 12 machine_id OR sequence = machine_id * 2 ^ 12 + sequence" by (rule or_shift) (use assms in auto)
  have "push_bit 22 timestamp OR (machine_id * 2 ^ 12 + sequence) = ?x" by (rule or_shift) (use assms in auto)
  then have word: "push_bit 22 (word_of_int timestamp) OR push_bit 12 (word_of_int machine_id) OR word_of_int sequence =
      (word_of_int ?x :: 64 word)"
    using low by (simp only: of_int_or_eq [symmetric] push_bit_of_int or.assoc)
  have "0 \<le> ?x" "?x < 2 ^ 63" using assms by auto
  then have "sint (word_of_int ?x :: 64 word) = ?x"
    unfolding sint_sbintrunc' by (intro signed_take_bit_int_eq_self) simp_all
  with word show ?thesis by (simp add: id_layout_def add.assoc)
qed

lemma id_layout_inj:
  assumes "0 \<le> t" "t < 2 ^ 41" "0 \<le> m" "m \<le> 1023" "0 \<le> q" "q \<le> 4095"
    and "0 \<le> t'" "t' < 2 ^ 41" "0 \<le> m'" "m' \<le> 1023" "0 \<le> q'" "q' \<le> 4095"
    and "id_layout t m q = id_layout t' m' q'"
  shows "t = t' \<and> m = m' \<and> q = q'"
proof -
  have eq: "t * 4194304 + m * 4096 + q = t' * 4194304 + m' * 4096 + q'"
    using id_layout_eq [OF assms(1-6)] id_layout_eq [OF assms(7-12)] assms(13) by simp
  let ?x = "t * 4194304 + m * 4096 + q"
  have "?x div 4194304 = t" by (rule int_div_pos_eq [where r = "m * 4096 + q"]) (use assms in auto)
  moreover have "?x div 4194304 = t'"
    unfolding eq by (rule int_div_pos_eq [where r = "m' * 4096 + q'"]) (use assms in auto)
  moreover have "?x mod 4096 = q"
    by (rule int_mod_pos_eq [where q = "t * 1024 + m"]) (use assms in auto)
  moreover have "?x mod 4096 = q'"
    unfolding eq by (rule int_mod_pos_eq [where q = "t' * 1024 + m'"]) (use assms in auto)
  ultimately show ?thesis using eq by simp
qed

lemma require_reply_Inr: "require_reply b w = (Inr u, w') \<longleftrightarrow> b \<and> w' = w"
  by (auto simp: require_reply_def ret_def raise_def)

lemma catch_Inr_rethrow:
  "catch p (\<lambda>e w. (Inl (f e), g e w)) s = (Inr a, s') \<longleftrightarrow> p s = (Inr a, s')"
  by (auto simp: catch_def split: prod.splits sum.splits)

lemma redis_call_Inr:
  assumes "redis_call S ip port arguments w = (Inr reply, w')"
  shows "\<exists>h. io_redis S (w_tick w) ip port arguments = Some h \<and> rd_type reply = hr_type h \<and>
    rd_integer reply = hr_integer h \<and> hr_type h \<noteq> REDIS_REPLY_ERROR \<and> w' = w\<lparr>w_tick := Suc (w_tick w)\<rparr>"
  using assms by (auto simp: redis_call_def await_def completed_def split: option.splits if_splits)

text \<open>The server was asked during the call.\<close>

lemma redis_command_asked:
  assumes "redis_command S options arguments w = (Inr reply, w')"
  obtains n ip port h where "w_tick w \<le> n" "n < w_tick w'" "io_redis S n ip port arguments = Some h"
    "rd_type reply = hr_type h" "rd_integer reply = hr_integer h"
proof -
  from assms obtain w1 address w2 l w3 w4 where
    run: "check_running w = (Inr (), w1)"
      "discover_redis_master S options (mo_sentinels options) (LogicError ''no sentinel'') w1 = (Inr address, w2)"
      "master_link S options address w2 = (Inr l, w3)"
      "redis_call S (rl_ip l) (rl_port l) arguments w3 = (Inr reply, w4)" "w' = w4"
    unfolding redis_command_def catch_Inr_rethrow
    by (elim bind_Inr) (auto simp: catch_Inr_rethrow require_reply_Inr ret_def elim!: bind_Inr)
  have "quiet w w3" using quiet.step_trans withinD [OF quiet_basic(3) run(1)] withinD [OF quiet_discover run(2)]
      withinD [OF quiet_link run(3)] by blast
  then have "w_tick w \<le> w_tick w3" by (simp add: quiet_def)
  with redis_call_Inr [OF run(4)] that [of "w_tick w3"] run(5) show thesis by auto
qed

end
