(* ===== verification/Message_Handlers.thy ===== *)
theory Message_Handlers
  imports Message_Driver
begin

text \<open>
  The request handlers for messages (\<^verbatim>\<open>message/transaction/messages.cc\<close>), with the request
  context (\<^verbatim>\<open>message/transaction/context.hh\<close>) shared by all handlers.  A handler is a
  program over the \<open>world\<close>; the deliveries it stages are part of its result.  The
  getters are those protobuf generates: the default message when the payload is
  another one.
\<close>

section \<open>Context\<close>

record delivery =
  dl_recipient_uid :: int
  dl_packet :: Packet
  dl_excluded_device_id :: string

record request_context =
  cx_origin :: stream_route
  cx_command :: CommandEnvelope
  cx_packet :: Packet
  cx_deliveries :: "delivery list"

record accepted_message =
  am_response :: Packet
  am_forward_packet :: Packet
  am_recipients :: "int list"
  am_should_forward :: bool

record acknowledged_message =
  kn_response :: Packet
  kn_read_receipt :: Packet
  kn_sender_uid :: int
  kn_should_forward_read :: bool

definition empty_packet :: Packet where
  "empty_packet = new_packet No_payload"

section \<open>Getters\<close>

definition send_text_request :: "Packet \<Rightarrow> SendTextRequest" where
  "send_text_request p = (case pk_payload p of Request (Send_text_request r) \<Rightarrow> r
     | _ \<Rightarrow> \<lparr>tq_to = 0, tq_content = '''', tq_client_message_id = '''', tq_conversation_id = 0\<rparr>)"

definition send_group_text_request :: "Packet \<Rightarrow> SendGroupTextRequest" where
  "send_group_text_request p = (case pk_payload p of Request (Send_group_text_request r) \<Rightarrow> r
     | _ \<Rightarrow> \<lparr>gq_group_id = 0, gq_content = '''', gq_client_message_id = '''', gq_conversation_id = 0\<rparr>)"

definition send_file_request :: "Packet \<Rightarrow> SendFileRequest" where
  "send_file_request p = (case pk_payload p of Request (Send_file_request r) \<Rightarrow> r
     | _ \<Rightarrow> \<lparr>fq_to = 0, fq_file = None, fq_client_message_id = '''', fq_conversation_id = 0\<rparr>)"

definition send_group_file_request :: "Packet \<Rightarrow> SendGroupFileRequest" where
  "send_group_file_request p = (case pk_payload p of Request (Send_group_file_request r) \<Rightarrow> r
     | _ \<Rightarrow> \<lparr>hq_group_id = 0, hq_file = None, hq_client_message_id = '''', hq_conversation_id = 0\<rparr>)"

definition receipt :: "Packet \<Rightarrow> MessageReceipt" where
  "receipt p = (case pk_payload p of Request (Receipt r) \<Rightarrow> r
     | _ \<Rightarrow> \<lparr>mr_seq = 0, mr_receipt_type = RECEIPT_TYPE_UNSPECIFIED, mr_conversation_id = 0, mr_conversation_seq = 0\<rparr>)"

definition pull_conversation_messages_request :: "Packet \<Rightarrow> PullConversationMessagesRequest" where
  "pull_conversation_messages_request p = (case pk_payload p of Request (Pull_conversation_messages_request r) \<Rightarrow> r
     | _ \<Rightarrow> \<lparr>cq_conversation_id = 0, cq_after_seq = 0, cq_limit = 0\<rparr>)"

section \<open>Sending\<close>

definition send_response :: "int \<Rightarrow> int \<Rightarrow> int \<Rightarrow> payload" where
  "send_response message_id conversation_id conversation_seq =
     Response (Send_message_response \<lparr>sr_message_id = message_id, sr_conversation_id = conversation_id,
       sr_conversation_seq = conversation_seq\<rparr>)"

definition new_accepted :: accepted_message where
  "new_accepted = \<lparr>am_response = new_packet (send_response 0 0 0), am_forward_packet = empty_packet,
     am_recipients = [], am_should_forward = False\<rparr>"

definition refuse :: "ErrorCodes \<Rightarrow> string \<Rightarrow> accepted_message" where
  "refuse e m = new_accepted\<lparr>am_response := SetTcpPacketStatus (code e) m (am_response new_accepted)\<rparr>"

text \<open>The response of an accepted message, and its push to the recipients.\<close>

definition accept_result ::
  "('a MessageAcceptResult_scheme) \<Rightarrow> string \<Rightarrow> int list \<Rightarrow> push \<Rightarrow> accepted_message" where
  "accept_result accepted message recipients push =
     (if ac_error accepted \<noteq> Success then refuse (ac_error accepted) message
      else \<lparr>am_response = SetTcpPacketStatus (code Success) message
              (new_packet (send_response (ac_messageId accepted) (ac_conversationId accepted)
                (ac_conversationSeq accepted))),
            am_forward_packet = new_packet (Push push), am_recipients = recipients,
            am_should_forward = (\<not> ac_duplicate accepted)\<rparr>)"

definition accept_text :: "env \<Rightarrow> services \<Rightarrow> int \<Rightarrow> Packet \<Rightarrow> (world, accepted_message) prog" where
  "accept_text E S actor_uid request =
    (let send = send_text_request request in
     if actor_uid \<le> 0 \<or> tq_to send \<le> 0 \<or> tq_content send = '''' \<or> tq_client_message_id send = ''''
     then ret (refuse JsonParser ''actor, to, content and client_message_id are required'')
     else bind (ask (io_datetime S)) (\<lambda>send_date_time.
       bind (submit E (sql (execute_accept_direct_text E
           \<lparr>dt_sender_id = actor_uid, dt_receiver_id = tq_to send, dt_client_message_id = tq_client_message_id send,
            dt_content = tq_content send, dt_send_date_time = send_date_time, dt_message_type = type_TEXT\<rparr>)))
         (\<lambda>accepted. ret (accept_result accepted
            (if ac_error accepted = Success then ''''
             else if ac_diagnostic accepted = '''' then ''persistent message accept failed'' else ac_diagnostic accepted)
            [tq_to send]
            (Text_message_push \<lparr>tp_message_id = ac_messageId accepted, tp_from = actor_uid, tp_to = tq_to send,
               tp_content = tq_content send, tp_client_message_id = tq_client_message_id send,
               tp_conversation_id = ac_conversationId accepted, tp_conversation_seq = ac_conversationSeq accepted,
               tp_send_date_time = send_date_time, tp_group_id = 0\<rparr>)))))"

definition accept_group_text :: "env \<Rightarrow> services \<Rightarrow> int \<Rightarrow> Packet \<Rightarrow> (world, accepted_message) prog" where
  "accept_group_text E S actor_uid request =
    (let send = send_group_text_request request in
     if actor_uid \<le> 0 \<or> gq_group_id send \<le> 0 \<or> gq_content send = '''' \<or> gq_client_message_id send = ''''
     then ret (refuse JsonParser ''actor, group_id, content and client_message_id are required'')
     else bind (ask (io_datetime S)) (\<lambda>send_date_time.
       bind (submit E (sql (execute_accept_group_message E
           \<lparr>gt_sender_id = actor_uid, gt_group_id = gq_group_id send, gt_client_message_id = gq_client_message_id send,
            gt_content = gq_content send, gt_message_type = type_TEXT, gt_send_date_time = send_date_time,
            gt_require_ready_owned_file = False\<rparr>)))
         (\<lambda>accepted. ret (accept_result accepted
            (if ac_error accepted = Success then ''''
             else if ac_diagnostic accepted = '''' then getErrorCodeMsg (ac_error accepted) else ac_diagnostic accepted)
            (ac_recipientUids accepted)
            (Text_message_push \<lparr>tp_message_id = ac_messageId accepted, tp_from = actor_uid, tp_to = 0,
               tp_content = gq_content send, tp_client_message_id = gq_client_message_id send,
               tp_conversation_id = ac_conversationId accepted, tp_conversation_seq = ac_conversationSeq accepted,
               tp_send_date_time = send_date_time, tp_group_id = gq_group_id send\<rparr>)))))"

definition fill_file_info :: "FileObjectRecord \<Rightarrow> FileInfo" where
  "fill_file_info file = \<lparr>fi_file_id = fl_fileId file, fi_file_name = fl_fileName file,
     fi_file_type = fl_fileType file, fi_file_size = fl_fileSize file, fi_sha256 = fl_sha256 file, fi_expired = False\<rparr>"

definition fill_attachment :: "FileAttachment \<Rightarrow> FileInfo" where
  "fill_attachment file = \<lparr>fi_file_id = at_fileId file, fi_file_name = at_fileName file,
     fi_file_type = at_fileType file, fi_file_size = at_fileSize file, fi_sha256 = at_sha256 file,
     fi_expired = at_expired file\<rparr>"

definition accept_file :: "env \<Rightarrow> services \<Rightarrow> int \<Rightarrow> Packet \<Rightarrow> (world, accepted_message) prog" where
  "accept_file E S actor_uid request =
    (let send = send_file_request request in
     case fq_file send of
       None \<Rightarrow> ret (refuse JsonParser ''to, file and client_message_id are required'')
     | Some info \<Rightarrow>
       if actor_uid \<le> 0 \<or> fq_to send \<le> 0 \<or> fq_client_message_id send = ''''
       then ret (refuse JsonParser ''to, file and client_message_id are required'')
       else bind (submit E (sql (execute_find_ready_file E (fi_file_id info) actor_uid))) (\<lambda>found.
         case found of
           None \<Rightarrow> ret (refuse NotFound ''ready file not found'')
         | Some file \<Rightarrow>
           bind (ask (io_datetime S)) (\<lambda>send_date_time.
           bind (submit E (sql (execute_accept_direct_text E
               \<lparr>dt_sender_id = actor_uid, dt_receiver_id = fq_to send, dt_client_message_id = fq_client_message_id send,
                dt_content = fl_fileId file, dt_send_date_time = send_date_time, dt_message_type = type_FILE\<rparr>)))
             (\<lambda>accepted. ret (accept_result accepted (ac_diagnostic accepted) [fq_to send]
                (File_message_push \<lparr>mp_message_id = ac_messageId accepted, mp_from = actor_uid, mp_to = fq_to send,
                   mp_file = Some (fill_file_info file), mp_client_message_id = fq_client_message_id send,
                   mp_conversation_id = ac_conversationId accepted, mp_conversation_seq = ac_conversationSeq accepted,
                   mp_group_id = 0\<rparr>))))))"

definition accept_group_file :: "env \<Rightarrow> services \<Rightarrow> int \<Rightarrow> Packet \<Rightarrow> (world, accepted_message) prog" where
  "accept_group_file E S actor_uid request =
    (let send = send_group_file_request request in
     case hq_file send of
       None \<Rightarrow> ret (refuse JsonParser ''group_id, file and client_message_id are required'')
     | Some info \<Rightarrow>
       if actor_uid \<le> 0 \<or> hq_group_id send \<le> 0 \<or> hq_client_message_id send = ''''
       then ret (refuse JsonParser ''group_id, file and client_message_id are required'')
       else bind (submit E (sql (execute_find_ready_file E (fi_file_id info) actor_uid))) (\<lambda>found.
         case found of
           None \<Rightarrow> ret (refuse NotFound ''ready file not found'')
         | Some file \<Rightarrow>
           bind (ask (io_datetime S)) (\<lambda>send_date_time.
           bind (submit E (sql (execute_accept_group_message E
               \<lparr>gt_sender_id = actor_uid, gt_group_id = hq_group_id send,
                gt_client_message_id = hq_client_message_id send, gt_content = fl_fileId file,
                gt_message_type = type_FILE, gt_send_date_time = send_date_time,
                gt_require_ready_owned_file = True\<rparr>)))
             (\<lambda>accepted. ret (accept_result accepted (ac_diagnostic accepted) (ac_recipientUids accepted)
                (File_message_push \<lparr>mp_message_id = ac_messageId accepted, mp_from = actor_uid, mp_to = 0,
                   mp_file = Some (fill_file_info file), mp_client_message_id = hq_client_message_id send,
                   mp_conversation_id = ac_conversationId accepted, mp_conversation_seq = ac_conversationSeq accepted,
                   mp_group_id = hq_group_id send\<rparr>))))))"

section \<open>Receipts and history\<close>

definition acknowledge ::
  "env \<Rightarrow> services \<Rightarrow> int \<Rightarrow> Packet \<Rightarrow> string \<Rightarrow> (world, acknowledged_message) prog" where
  "acknowledge E S actor_uid request device_id =
    (let r = receipt request;
         result = \<lparr>kn_response = empty_packet, kn_read_receipt = empty_packet, kn_sender_uid = 0,
                   kn_should_forward_read = False\<rparr>;
         answer = (\<lambda>e. result\<lparr>kn_response := SetTcpPacketStatus (code e) '''' empty_packet\<rparr>) in
     if mr_seq r \<le> 0 \<or> mr_conversation_id r \<le> 0 \<or> mr_conversation_seq r \<le> 0 \<or>
        (mr_receipt_type r \<noteq> RECEIPT_TYPE_DELIVERED \<and> mr_receipt_type r \<noteq> RECEIPT_TYPE_READ)
     then ret (answer JsonParser)
     else
       let is_read = (mr_receipt_type r = RECEIPT_TYPE_READ) in
       bind (if is_read then ask (io_datetime S) else ret '''') (\<lambda>read_time.
       bind (submit E (sql (execute_acknowledge_conversation_message E
           \<lparr>ack_message_id = mr_seq r, ack_uid = actor_uid, ack_device_id = device_id,
            ack_conversation_id = mr_conversation_id r, ack_conversation_seq = mr_conversation_seq r,
            ack_status = (if is_read then message_READ else message_DELIVERED), ack_read_date_time = read_time\<rparr>)))
         (\<lambda>acknowledged.
           if ak_updated acknowledged \<le> 0
           then ret (answer (if ak_updated acknowledged = -1 then MysqlFailed else MessageOwnershipInvalid))
           else if is_read \<and> ak_directConversation acknowledged \<and> ak_readStateChanged acknowledged
           then ret ((answer Success)\<lparr>kn_sender_uid := ak_senderUid acknowledged,
                  kn_should_forward_read := (0 < ak_senderUid acknowledged),
                  kn_read_receipt := new_packet (Push (Read_receipt_push
                    \<lparr>rr_message_id = mr_seq r, rr_from = actor_uid, rr_to = ak_senderUid acknowledged,
                     rr_conversation_id = mr_conversation_id r, rr_conversation_seq = mr_conversation_seq r\<rparr>))\<rparr>)
           else ret (answer Success))))"

definition chat_message :: "ConversationMessageRecord \<Rightarrow> ChatMessage" where
  "chat_message m = \<lparr>ch_message_id = cm_messageId m, ch_from = cm_senderId m, ch_to = cm_receiverId m,
     ch_type = cm_type m, ch_content = cm_content m, ch_status = cm_status m, ch_send_date_time = cm_sendDateTime m,
     ch_read_date_time = cm_readDateTime m, ch_conversation_id = cm_conversationId m,
     ch_conversation_seq = cm_conversationSeq m, ch_client_message_id = cm_clientMessageId m,
     ch_file = map_option fill_attachment (cm_file m)\<rparr>"

definition pull_conversation :: "env \<Rightarrow> int \<Rightarrow> Packet \<Rightarrow> (world, Packet) prog" where
  "pull_conversation E actor_uid request =
    (let pull = pull_conversation_messages_request request in
     if cq_conversation_id pull \<le> 0 then ret (SetTcpPacketStatus (code JsonParser) '''' empty_packet)
     else
       let limit = (if cq_limit pull > 0 then cq_limit pull else 50) in
       bind (submit E (sql (execute_sync_conversation E
           \<lparr>sc_uid = actor_uid, sc_conversation_id = cq_conversation_id pull, sc_after_seq = cq_after_seq pull,
            sc_pull_count = limit\<rparr>)))
         (\<lambda>sync. ret (SetTcpPacketStatus (code (sy_error sync)) '''' (new_packet (Response
            (Pull_conversation_messages_response
              \<lparr>cp_conversation_id = cq_conversation_id pull, cp_next_seq = sy_nextSeq sync,
               cp_has_more = sy_hasMore sync, cp_latest_seq = sy_latestSeq sync,
               cp_conversation_type = (if sy_conversationType sync = 1 then CONVERSATION_TYPE_DIRECT
                 else if sy_conversationType sync = 2 then CONVERSATION_TYPE_GROUP
                 else CONVERSATION_TYPE_UNSPECIFIED),
               cp_messages = (if sy_error sync \<noteq> Success then [] else map chat_message (sy_messages sync))\<rparr>))))))"

end
