(* ===== verification/Social_Handlers.thy ===== *)
theory Social_Handlers
  imports Message_Handlers
begin

text \<open>
  The request handlers for friends (\<^verbatim>\<open>message/transaction/friends.cc\<close>) and groups
  (\<^verbatim>\<open>message/transaction/groups.cc\<close>).  A handler takes the request context and returns
  the response with the deliveries of the context.
\<close>

section \<open>Getters\<close>

definition add_friend_request :: "Packet \<Rightarrow> AddFriendRequest" where
  "add_friend_request p = (case pk_payload p of Request (Add_friend_request r) \<Rightarrow> r
     | _ \<Rightarrow> \<lparr>aq_to = 0, aq_request_message = ''''\<rparr>)"

definition reply_friend_request :: "Packet \<Rightarrow> ReplyFriendRequest" where
  "reply_friend_request p = (case pk_payload p of Request (Reply_friend_request r) \<Rightarrow> r
     | _ \<Rightarrow> \<lparr>rq_to = 0, rq_accept = None, rq_reply_message = ''''\<rparr>)"

definition create_group_request :: "Packet \<Rightarrow> CreateGroupRequest" where
  "create_group_request p = (case pk_payload p of Request (Create_group_request r) \<Rightarrow> r
     | _ \<Rightarrow> \<lparr>kq_group_name = ''''\<rparr>)"

definition join_group_request :: "Packet \<Rightarrow> JoinGroupRequest" where
  "join_group_request p = (case pk_payload p of Request (Join_group_request r) \<Rightarrow> r
     | _ \<Rightarrow> \<lparr>jq_group_id = 0, jq_request_message = ''''\<rparr>)"

definition pull_group_members_request :: "Packet \<Rightarrow> PullGroupMembersRequest" where
  "pull_group_members_request p = (case pk_payload p of Request (Pull_group_members_request r) \<Rightarrow> r
     | _ \<Rightarrow> \<lparr>nq_group_id = 0\<rparr>)"

definition reply_join_group_request :: "Packet \<Rightarrow> ReplyJoinGroupRequest" where
  "reply_join_group_request p = (case pk_payload p of Request (Reply_join_group_request r) \<Rightarrow> r
     | _ \<Rightarrow> \<lparr>yq_group_id = 0, yq_requestor_uid = 0, yq_accept = None\<rparr>)"

definition quit_group_request :: "Packet \<Rightarrow> QuitGroupRequest" where
  "quit_group_request p = (case pk_payload p of Request (Quit_group_request r) \<Rightarrow> r
     | _ \<Rightarrow> \<lparr>qq_group_id = 0\<rparr>)"

definition kick_group_member_request :: "Packet \<Rightarrow> KickGroupMemberRequest" where
  "kick_group_member_request p = (case pk_payload p of Request (Kick_group_member_request r) \<Rightarrow> r
     | _ \<Rightarrow> \<lparr>zq_group_id = 0, zq_member_uid = 0\<rparr>)"

section \<open>Friends\<close>

text \<open>The two texts of \<^verbatim>\<open>friends.cc\<close> for a failed write, as UTF-8.\<close>

definition database_changed_badly :: string where
  "database_changed_badly = map char_of
     [230::nat, 149, 176, 230, 141, 174, 229, 186, 147, 228, 191, 174, 230, 148, 185, 229, 188, 130, 229, 184, 184]"

definition database_sent_badly :: string where
  "database_sent_badly = map char_of
     [230::nat, 149, 176, 230, 141, 174, 229, 186, 147, 228, 191, 174, 230, 148, 185, 229, 143, 145, 233, 128, 129,
      229, 188, 130, 229, 184, 184]"

definition store_application :: "env \<Rightarrow> int \<Rightarrow> AddFriendRequest \<Rightarrow> (world, int) prog" where
  "store_application E actor_uid request =
     submit E (sql (execute_insert_friend_apply
       \<lparr>fap_from = actor_uid, fap_to = aq_to request, fap_status = status_Wait,
        fap_content = aq_request_message request, fap_createTime = ''''\<rparr>))"

definition friends_apply ::
  "env \<Rightarrow> services \<Rightarrow> message_options \<Rightarrow> request_context \<Rightarrow> (world, Packet \<times> delivery list) prog" where
  "friends_apply E S options context =
    (let actor_uid = cmd_actor_uid (cx_command context); add = add_friend_request (cx_packet context);
         rsp = new_packet (Response Add_friend_response) in
     bind (submit E (generate_id S options Id_message)) (\<lambda>notification_id.
     bind (store_application E actor_uid add) (\<lambda>stored.
     if stored = -1
     then ret (SetTcpPacketStatus (code MysqlFailed) database_changed_badly rsp, cx_deliveries context)
     else ret (SetTcpPacketStatus (code Success) '''' rsp,
       cx_deliveries context @
         [\<lparr>dl_recipient_uid = aq_to add,
           dl_packet = new_packet (Push (Friend_request_push
             \<lparr>fp_seq = notification_id, fp_from = actor_uid, fp_to = aq_to add,
              fp_request_message = aq_request_message add\<rparr>)),
           dl_excluded_device_id = ''''\<rparr>]))))"

definition store_reply ::
  "env \<Rightarrow> services \<Rightarrow> message_options \<Rightarrow> int \<Rightarrow> ReplyFriendRequest \<Rightarrow> (world, int) prog" where
  "store_reply E S options actor_uid request =
    bind (ask (io_datetime S)) (\<lambda>time.
    let accept = (rq_accept request = Some True); to = rq_to request in
    bind (if accept then
            bind (submit E (generate_id S options Id_friendship)) (\<lambda>friendship_id.
            bind (submit E (generate_id S options Id_conversation)) (\<lambda>conversation_id.
            submit E (sql (execute_insert_friend E
              \<lparr>frd_friendshipId = friendship_id, frd_conversationId = conversation_id, frd_uidA = actor_uid,
               frd_uidB = to, frd_createTime = time\<rparr>))))
          else ret 0) (\<lambda>result.
    if accept \<and> result = -1 then ret (-1)
    else submit E (sql (execute_update_friend_apply_status
           \<lparr>fap_from = actor_uid, fap_to = to, fap_status = (if accept then status_Agree else status_Refuse),
            fap_content = rq_reply_message request, fap_createTime = time\<rparr>))))"

definition friends_reply ::
  "env \<Rightarrow> services \<Rightarrow> message_options \<Rightarrow> request_context \<Rightarrow> (world, Packet \<times> delivery list) prog" where
  "friends_reply E S options context =
    (let actor_uid = cmd_actor_uid (cx_command context); request = reply_friend_request (cx_packet context);
         rsp = new_packet (Response Reply_friend_response) in
     case rq_accept request of
       None \<Rightarrow> ret (SetTcpPacketStatus (code JsonParser) ''accept is required'' rsp, cx_deliveries context)
     | Some accept \<Rightarrow>
       bind (submit E (generate_id S options Id_message)) (\<lambda>notification_id.
       bind (store_reply E S options actor_uid request) (\<lambda>stored.
       if stored = -1
       then ret (SetTcpPacketStatus (code MysqlFailed) database_sent_badly rsp, cx_deliveries context)
       else ret (SetTcpPacketStatus (code Success) '''' rsp,
         cx_deliveries context @
           [\<lparr>dl_recipient_uid = rq_to request,
             dl_packet = new_packet (Push (Friend_reply_push
               \<lparr>ry_seq = notification_id, ry_from = actor_uid, ry_to = rq_to request, ry_accept = Some accept,
                ry_reply_message = rq_reply_message request\<rparr>)),
             dl_excluded_device_id = ''''\<rparr>]))))"

definition friends_pull_applications :: "env \<Rightarrow> request_context \<Rightarrow> (world, Packet \<times> delivery list) prog" where
  "friends_pull_applications E context =
    (let actor_uid = cmd_actor_uid (cx_command context) in
     bind (submit E (sql (execute_get_friend_apply_list actor_uid))) (\<lambda>apply_list.
     let applications = (case apply_list of
           None \<Rightarrow> []
         | Some found \<Rightarrow> map (\<lambda>a. \<lparr>pf_from = int64_of (size_t_of (fap_from a)), pf_status = fap_status a,
                                    pf_content = fap_content a\<rparr>) found) in
     ret (SetTcpPacketStatus (code Success) '''' (new_packet (Response
            (Pull_friend_apply_list_response \<lparr>al_applications = applications\<rparr>))), cx_deliveries context)))"

definition friends_pull_friends :: "env \<Rightarrow> request_context \<Rightarrow> (world, Packet \<times> delivery list) prog" where
  "friends_pull_friends E context =
    (let actor_uid = cmd_actor_uid (cx_command context) in
     bind (submit E (sql (execute_get_friend_list actor_uid))) (\<lambda>friend_list.
     bind (case friend_list of
             None \<Rightarrow> ret []
           | Some list \<Rightarrow>
               fold_prog (\<lambda>friend_object infos.
                   let friend_uid = int64_of (size_t_of (frd_uidB friend_object)) in
                   bind (submit E (sql (execute_get_user_info friend_uid))) (\<lambda>friend_info.
                   case friend_info of
                     None \<Rightarrow> ret infos
                   | Some info \<Rightarrow> ret (infos @ [\<lparr>pu_uid = friend_uid, pu_name = usr_name info, pu_age = usr_age info,
                       pu_sex = usr_sex info, pu_head_image_url = usr_headImageURL info\<rparr>]))) list []) (\<lambda>infos.
     ret (SetTcpPacketStatus (code Success) '''' (new_packet (Response
            (Pull_friend_list_response \<lparr>pl_friends = infos\<rparr>))), cx_deliveries context))))"

section \<open>Groups\<close>

definition notify_application :: "int \<Rightarrow> int \<Rightarrow> int \<Rightarrow> string \<Rightarrow> delivery list \<Rightarrow> delivery list" where
  "notify_application master_uid requestor_uid group_id request_message deliveries =
     deliveries @
       [\<lparr>dl_recipient_uid = master_uid,
         dl_packet = new_packet (Push (Group_join_request_push
           \<lparr>jp_requestor_uid = requestor_uid, jp_group_id = group_id, jp_request_message = request_message\<rparr>)),
         dl_excluded_device_id = ''''\<rparr>]"

definition notify_change ::
  "int list \<Rightarrow> int \<Rightarrow> int \<Rightarrow> int \<Rightarrow> GroupChangeKind \<Rightarrow> string \<Rightarrow> bool \<Rightarrow> delivery list \<Rightarrow> delivery list" where
  "notify_change recipients group_id target_uid actor_uid change group_name accept deliveries =
     deliveries @
       map (\<lambda>uid. \<lparr>dl_recipient_uid = uid,
              dl_packet = new_packet (Push (Group_change_push
                \<lparr>gp_group_id = group_id, gp_requestor_uid = target_uid, gp_replyor_uid = actor_uid,
                 gp_accept = Some accept, gp_change = change, gp_group_name = group_name\<rparr>)),
              dl_excluded_device_id = ''''\<rparr>) recipients"

definition groups_create ::
  "env \<Rightarrow> services \<Rightarrow> message_options \<Rightarrow> request_context \<Rightarrow> (world, Packet \<times> delivery list) prog" where
  "groups_create E S options context =
    (let actor_uid = cmd_actor_uid (cx_command context); create = create_group_request (cx_packet context) in
     if actor_uid \<le> 0 \<or> kq_group_name create = ''''
     then ret (SetTcpPacketStatus (code JsonParser) '''' empty_packet, cx_deliveries context)
     else
       bind (submit E (generate_id S options Id_group)) (\<lambda>group_id.
       bind (submit E (generate_id S options Id_conversation)) (\<lambda>conversation_id.
       bind (ask (io_datetime S)) (\<lambda>now.
       bind (submit E (sql (execute_create_group
           \<lparr>grp_groupId = group_id, grp_masterUid = actor_uid, grp_conversationId = conversation_id,
            grp_name = kq_group_name create, grp_createTime = now\<rparr>))) (\<lambda>result.
       ret (SetTcpPacketStatus (code (go_error result)) (go_diagnostic result) (new_packet (Response
              (Create_group_response \<lparr>kp_group_id = group_id, kp_conversation_id = conversation_id\<rparr>))),
            cx_deliveries context))))))"

definition groups_apply ::
  "env \<Rightarrow> services \<Rightarrow> request_context \<Rightarrow> (world, Packet \<times> delivery list) prog" where
  "groups_apply E S context =
    (let actor_uid = cmd_actor_uid (cx_command context); join = join_group_request (cx_packet context) in
     if actor_uid \<le> 0 \<or> jq_group_id join \<le> 0
     then ret (SetTcpPacketStatus (code JsonParser) '''' empty_packet, cx_deliveries context)
     else
       bind (ask (io_datetime S)) (\<lambda>now.
       bind (submit E (sql (execute_request_group_join E
           \<lparr>rj_group_id = jq_group_id join, rj_uid = actor_uid, rj_message = jq_request_message join, rj_now = now\<rparr>)))
         (\<lambda>result.
           ret (SetTcpPacketStatus (code (go_error result)) (go_diagnostic result)
                  (new_packet (Response Join_group_response)),
                if go_error result = Success \<and> go_recipientUids result \<noteq> []
                then notify_application (go_masterUid result) actor_uid (jq_group_id join) (jq_request_message join)
                       (cx_deliveries context)
                else cx_deliveries context))))"

definition group_member_info :: "GroupMember \<Rightarrow> protocol_GroupMember" where
  "group_member_info m = \<lparr>pm_uid = gmb_uid m, pm_name = gmb_memberName m, pm_join_time = gmb_joinTime m\<rparr>"

definition group_application_info :: "GroupApply \<Rightarrow> GroupJoinApplication" where
  "group_application_info a = \<lparr>pj_requestor_uid = gap_requestor a, pj_request_message = gap_message a,
     pj_create_time = gap_createTime a\<rparr>"

definition groups_pull :: "env \<Rightarrow> request_context \<Rightarrow> (world, Packet \<times> delivery list) prog" where
  "groups_pull E context =
    (let actor_uid = cmd_actor_uid (cx_command context); pull = pull_group_members_request (cx_packet context) in
     if actor_uid \<le> 0 \<or> nq_group_id pull \<le> 0
     then ret (SetTcpPacketStatus (code JsonParser) '''' empty_packet, cx_deliveries context)
     else
       bind (submit E (sql (execute_pull_group E (nq_group_id pull) actor_uid))) (\<lambda>result.
       ret (SetTcpPacketStatus (code (go_error result)) (go_diagnostic result) (new_packet (Response
              (Pull_group_members_response
                \<lparr>np_group_id = nq_group_id pull, np_conversation_id = go_conversationId result,
                 np_master_uid = go_masterUid result, np_group_name = go_groupName result,
                 np_members = (if go_error result \<noteq> Success then [] else map group_member_info (go_members result)),
                 np_applications = (if go_error result \<noteq> Success then []
                                    else map group_application_info (go_applies result))\<rparr>))),
            cx_deliveries context)))"

definition groups_reply ::
  "env \<Rightarrow> services \<Rightarrow> request_context \<Rightarrow> (world, Packet \<times> delivery list) prog" where
  "groups_reply E S context =
    (let actor_uid = cmd_actor_uid (cx_command context); reply = reply_join_group_request (cx_packet context) in
     if actor_uid \<le> 0 \<or> yq_group_id reply \<le> 0 \<or> yq_requestor_uid reply \<le> 0 \<or> yq_accept reply = None
     then ret (SetTcpPacketStatus (code JsonParser) '''' empty_packet, cx_deliveries context)
     else
       let accept = (yq_accept reply = Some True) in
       bind (ask (io_datetime S)) (\<lambda>now.
       bind (submit E (sql (execute_reply_group_join
           \<lparr>rp_group_id = yq_group_id reply, rp_actor_uid = actor_uid, rp_requestor_uid = yq_requestor_uid reply,
            rp_accept = accept, rp_now = now\<rparr>))) (\<lambda>result.
       ret (SetTcpPacketStatus (code (go_error result)) (go_diagnostic result)
              (new_packet (Response Reply_join_group_response)),
            if go_error result \<noteq> Success then cx_deliveries context
            else notify_change (go_recipientUids result) (go_groupId result) (go_targetUid result) (go_actorUid result)
                   (if accept then GROUP_CHANGE_KIND_JOINED else GROUP_CHANGE_KIND_UNSPECIFIED)
                   (go_groupName result) accept (cx_deliveries context)))))"

definition groups_quit :: "env \<Rightarrow> request_context \<Rightarrow> (world, Packet \<times> delivery list) prog" where
  "groups_quit E context =
    (let actor_uid = cmd_actor_uid (cx_command context); group_id = qq_group_id (quit_group_request (cx_packet context)) in
     if actor_uid \<le> 0 \<or> group_id \<le> 0
     then ret (SetTcpPacketStatus (code JsonParser) '''' empty_packet, cx_deliveries context)
     else
       bind (submit E (sql (execute_remove_group_member
           \<lparr>rm_group_id = group_id, rm_actor_uid = actor_uid, rm_target_uid = actor_uid, rm_dissolve_if_master = True\<rparr>)))
         (\<lambda>result.
       ret (SetTcpPacketStatus (code (go_error result)) (go_diagnostic result)
              (new_packet (Response Quit_group_response)),
            if go_error result = Success
            then notify_change (go_recipientUids result) (go_groupId result) (go_targetUid result) (go_actorUid result)
                   (if go_targetUid result = go_masterUid result then GROUP_CHANGE_KIND_DISSOLVED
                    else GROUP_CHANGE_KIND_LEFT)
                   (go_groupName result) False (cx_deliveries context)
            else cx_deliveries context)))"

definition groups_kick :: "env \<Rightarrow> request_context \<Rightarrow> (world, Packet \<times> delivery list) prog" where
  "groups_kick E context =
    (let actor_uid = cmd_actor_uid (cx_command context); kick = kick_group_member_request (cx_packet context) in
     if actor_uid \<le> 0 \<or> zq_group_id kick \<le> 0 \<or> zq_member_uid kick \<le> 0
     then ret (SetTcpPacketStatus (code JsonParser) '''' empty_packet, cx_deliveries context)
     else if actor_uid = zq_member_uid kick
     then ret (SetTcpPacketStatus (code MessageOwnershipInvalid) ''master cannot kick itself'' empty_packet,
               cx_deliveries context)
     else
       bind (submit E (sql (execute_remove_group_member
           \<lparr>rm_group_id = zq_group_id kick, rm_actor_uid = actor_uid, rm_target_uid = zq_member_uid kick,
            rm_dissolve_if_master = False\<rparr>)))
         (\<lambda>result.
       ret (SetTcpPacketStatus (code (go_error result)) (go_diagnostic result)
              (new_packet (Response Kick_group_member_response)),
            if go_error result = Success
            then notify_change (go_recipientUids result) (go_groupId result) (go_targetUid result) (go_actorUid result)
                   GROUP_CHANGE_KIND_KICKED (go_groupName result) False (cx_deliveries context)
            else cx_deliveries context)))"

end
