(* ===== verification/File_Handlers.thy ===== *)
theory File_Handlers
  imports Message_Handlers
begin

text \<open>
  The request handlers for files (\<^verbatim>\<open>message/transaction/files.cc\<close>): upload in pieces
  through the File service with the progress and the finished object recorded in
  the database, and download of a file the requester may see.
\<close>

definition upload_request :: "Packet \<Rightarrow> (FileUploadRequest \<times> (FileUploadResponse \<Rightarrow> response)) option" where
  "upload_request p =
     (case pk_payload p of
        Request (File_upload_request r) \<Rightarrow> Some (r, File_upload_response)
      | Request (File_upload_chunk_request r) \<Rightarrow> Some (r, File_upload_chunk_response)
      | Request (File_upload_complete_request r) \<Rightarrow> Some (r, File_upload_complete_response)
      | _ \<Rightarrow> None)"

definition upload_response :: "(FileUploadResponse \<Rightarrow> response) \<Rightarrow> int \<Rightarrow> bool \<Rightarrow> Packet" where
  "upload_response respond next_offset complete =
     new_packet (Response (respond \<lparr>fv_next_offset = next_offset, fv_complete = complete\<rparr>))"

definition finish_upload ::
  "env \<Rightarrow> services \<Rightarrow> int \<Rightarrow> FileInfo \<Rightarrow> Packet \<Rightarrow> (world, Packet) prog" where
  "finish_upload E S actor_uid info rsp =
     bind (ask (io_datetime S)) (\<lambda>now.
     bind (ask (io_expiry S)) (\<lambda>expiry.
     bind (submit E (sql (execute_upsert_ready_file E
         \<lparr>uf_file = \<lparr>fl_fileId = fi_file_id info, fl_ownerUid = actor_uid, fl_fileName = fi_file_name info,
            fl_fileType = fi_file_type info, fl_fileSize = fi_file_size info, fl_sha256 = fi_sha256 info,
            fl_expired = False\<rparr>,
          uf_created_time = now, uf_expires_time = expiry\<rparr>))) (\<lambda>object_result.
     ret (if object_result \<noteq> 0
          then SetTcpPacketStatus (code MysqlFailed) ''file persisted but metadata write failed'' rsp
          else rsp))))"

definition files_upload ::
  "env \<Rightarrow> services \<Rightarrow> request_context \<Rightarrow> (world, Packet \<times> delivery list) prog" where
  "files_upload E S context =
    (let actor_uid = cmd_actor_uid (cx_command context); deliveries = cx_deliveries context in
     case upload_request (cx_packet context) of
       None \<Rightarrow> ret (SetTcpPacketStatus (code JsonParser) ''file metadata is required'' empty_packet, deliveries)
     | Some (upload, respond) \<Rightarrow>
       (case fw_file upload of
          None \<Rightarrow> ret (SetTcpPacketStatus (code JsonParser) ''file metadata is required''
                        (upload_response respond 0 False), deliveries)
        | Some info \<Rightarrow>
          if actor_uid \<le> 0
          then ret (SetTcpPacketStatus (code JsonParser) ''file metadata is required''
                     (upload_response respond 0 False), deliveries)
          else
            bind (submit E (upload_file S
                \<lparr>ur_file = Some \<lparr>ff_file_id = fi_file_id info, ff_file_name = fi_file_name info,
                   ff_file_type = fi_file_type info, ff_file_size = fi_file_size info, ff_sha256 = fi_sha256 info\<rparr>,
                 ur_user_id = actor_uid, ur_offset = fw_offset upload, ur_data = fw_data upload,
                 ur_complete = fw_complete upload\<rparr>)) (\<lambda>rpc.
            if us_status rpc = FAILED
            then ret (SetTcpPacketStatus (code FileTypeError) (us_message rpc) (upload_response respond 0 False),
                      deliveries)
            else
              let complete = (us_status rpc = SUCCESS \<and> fw_complete upload);
                  rsp = SetTcpPacketStatus (code Success) ''''
                          (upload_response respond (us_next_offset rpc) complete) in
              bind (ask (io_datetime S)) (\<lambda>now.
              bind (submit E (sql (execute_save_file_upload_progress E
                  \<lparr>sp_owner_uid = actor_uid, sp_file_id = fi_file_id info, sp_next_offset = us_next_offset rpc,
                   sp_complete = complete, sp_update_time = now\<rparr>))) (\<lambda>progress_result.
              if progress_result \<noteq> 0
              then ret (SetTcpPacketStatus (code MysqlFailed) ''file progress write failed'' rsp, deliveries)
              else if complete
              then bind (finish_upload E S actor_uid info rsp) (\<lambda>answer. ret (answer, deliveries))
              else ret (rsp, deliveries))))))"

definition file_download_request :: "Packet \<Rightarrow> FileDownloadRequest" where
  "file_download_request p = (case pk_payload p of Request (File_download_request r) \<Rightarrow> r
     | _ \<Rightarrow> \<lparr>dq_file = None, dq_offset = 0, dq_limit = 0\<rparr>)"

definition files_download ::
  "env \<Rightarrow> services \<Rightarrow> request_context \<Rightarrow> (world, Packet \<times> delivery list) prog" where
  "files_download E S context =
    (let actor_uid = cmd_actor_uid (cx_command context); deliveries = cx_deliveries context;
         download = file_download_request (cx_packet context);
         rsp = new_packet (Response (File_download_response
                 \<lparr>dp_data = '''', dp_next_offset = 0, dp_complete = False, dp_file = None\<rparr>));
         invalid = (SetTcpPacketStatus (code JsonParser) '''' rsp, deliveries) in
     case dq_file download of
       None \<Rightarrow> ret invalid
     | Some info \<Rightarrow>
       if actor_uid \<le> 0 \<or> fi_file_id info = '''' then ret invalid
       else
         bind (submit E (sql (execute_find_downloadable_file E (fi_file_id info) actor_uid))) (\<lambda>found.
         case found of
           None \<Rightarrow> ret (SetTcpPacketStatus (code MessageOwnershipInvalid)
                         ''file is unavailable or not owned by this conversation'' rsp, deliveries)
         | Some file_object \<Rightarrow>
           bind (submit E (download_file S
               \<lparr>dr_file = Some \<lparr>ff_file_id = fl_fileId file_object, ff_file_name = fl_fileName file_object,
                  ff_file_type = fl_fileType file_object, ff_file_size = fl_fileSize file_object,
                  ff_sha256 = fl_sha256 file_object\<rparr>,
                dr_user_id = fl_ownerUid file_object, dr_offset = dq_offset download,
                dr_limit = (if dq_limit download > 0 then dq_limit download else 1024 * 1024)\<rparr>)) (\<lambda>rpc.
           if ds_status rpc = FAILED
           then ret (SetTcpPacketStatus (code RPCFailed) (ds_message rpc) rsp, deliveries)
           else ret (SetTcpPacketStatus (code Success) '''' (new_packet (Response (File_download_response
                  \<lparr>dp_data = ds_data rpc, dp_next_offset = ds_next_offset rpc, dp_complete = ds_complete rpc,
                   dp_file = Some (fill_file_info file_object)\<rparr>))), deliveries))))"

end
