(* ===== verification/Message_Service.thy ===== *)
theory Message_Service
  imports Social_Handlers File_Handlers
begin

text \<open>
  The transaction service of a Message shard (\<^verbatim>\<open>message/transaction/service.cc\<close>) with the
  protocol boundary (\<^verbatim>\<open>message/api/protocol.cc\<close>) and the forwarding across shards
  (\<^verbatim>\<open>message/service.cc\<close>): a command is decoded, its session lease is checked against
  the connection it came from, the handler of its operation runs, the result is
  replied to the originating stream, and the staged deliveries are forwarded to the
  gateways of the recipients' current sessions.
\<close>

section \<open>Handlers of the service\<close>

definition stage_message :: "request_context \<Rightarrow> accepted_message \<Rightarrow> Packet \<times> delivery list" where
  "stage_message context accepted =
     (am_response accepted,
      if am_should_forward accepted
      then cx_deliveries context @
           map (\<lambda>recipient. \<lparr>dl_recipient_uid = recipient, dl_packet = am_forward_packet accepted,
                             dl_excluded_device_id = ''''\<rparr>) (am_recipients accepted) @
           [\<lparr>dl_recipient_uid = cmd_actor_uid (cx_command context), dl_packet = am_forward_packet accepted,
             dl_excluded_device_id = cmd_actor_device_id (cx_command context)\<rparr>]
      else cx_deliveries context)"

definition service_send ::
  "(int \<Rightarrow> Packet \<Rightarrow> (world, accepted_message) prog) \<Rightarrow> request_context \<Rightarrow>
   (world, Packet \<times> delivery list) prog" where
  "service_send accept context =
     bind (accept (cmd_actor_uid (cx_command context)) (cx_packet context))
       (\<lambda>accepted. ret (stage_message context accepted))"

definition service_acknowledge ::
  "env \<Rightarrow> services \<Rightarrow> request_context \<Rightarrow> (world, Packet \<times> delivery list) prog" where
  "service_acknowledge E S context =
     bind (acknowledge E S (cmd_actor_uid (cx_command context)) (cx_packet context)
            (cmd_actor_device_id (cx_command context)))
       (\<lambda>result. ret (kn_response result,
          if kn_should_forward_read result
          then cx_deliveries context @ [\<lparr>dl_recipient_uid = kn_sender_uid result, dl_packet = kn_read_receipt result,
                 dl_excluded_device_id = ''''\<rparr>]
          else cx_deliveries context))"

definition service_pull_messages :: "env \<Rightarrow> request_context \<Rightarrow> (world, Packet \<times> delivery list) prog" where
  "service_pull_messages E context =
     bind (pull_conversation E (cmd_actor_uid (cx_command context)) (cx_packet context))
       (\<lambda>response. ret (response, cx_deliveries context))"

section \<open>Protocol\<close>

type_synonym handler = "request_context \<Rightarrow> (world, Packet \<times> delivery list) prog"

definition registry :: "env \<Rightarrow> services \<Rightarrow> message_options \<Rightarrow> (Operation \<times> handler) list" where
  "registry E S options =
    [(OP_SEND_TEXT, service_send (accept_text E S)),
     (OP_SEND_GROUP_TEXT, service_send (accept_group_text E S)),
     (OP_SEND_FILE, service_send (accept_file E S)),
     (OP_SEND_GROUP_FILE, service_send (accept_group_file E S)),
     (OP_ACKNOWLEDGE, service_acknowledge E S),
     (OP_PULL_CONVERSATION_MESSAGES, service_pull_messages E),
     (OP_ADD_FRIEND, friends_apply E S options),
     (OP_REPLY_FRIEND, friends_reply E S options),
     (OP_PULL_FRIEND_LIST, friends_pull_friends E),
     (OP_PULL_FRIEND_APPLICATIONS, friends_pull_applications E),
     (OP_CREATE_GROUP, groups_create E S options),
     (OP_JOIN_GROUP, groups_apply E S),
     (OP_REPLY_JOIN_GROUP, groups_reply E S),
     (OP_PULL_GROUP_MEMBERS, groups_pull E),
     (OP_QUIT_GROUP, groups_quit E),
     (OP_KICK_GROUP_MEMBER, groups_kick E),
     (OP_UPLOAD_FILE, files_upload E S),
     (OP_UPLOAD_FILE_CHUNK, files_upload E S),
     (OP_COMPLETE_FILE_UPLOAD, files_upload E S),
     (OP_DOWNLOAD_FILE, files_download E S)]"

definition route_for :: "env \<Rightarrow> services \<Rightarrow> message_options \<Rightarrow> Operation \<Rightarrow> handler option" where
  "route_for E S options operation = map_option snd (find (\<lambda>r. fst r = operation) (registry E S options))"

definition decode ::
  "env \<Rightarrow> services \<Rightarrow> message_options \<Rightarrow> request_context \<Rightarrow> ErrorCodes \<times> request_context" where
  "decode E S options context =
    (let command = cx_command context in
     if cmd_actor_uid command \<le> 0 \<or> cmd_request_id command = '''' \<or> cmd_connection_id command = '''' \<or>
        cmd_connection_generation command = 0 \<or> cmd_actor_device_id command = '''' \<or>
        36 < length (cmd_actor_device_id command)
     then (AuthenticationRequired, context)
     else case io_parse S (cmd_packet command) of
       None \<Rightarrow> (ProtobufPacket, context)
     | Some packet \<Rightarrow>
         let context' = context\<lparr>cx_packet := packet\<rparr> in
         if \<not> TcpRequestMatchesOperation (cmd_operation command) packet then (ProtobufPacket, context')
         else if route_for E S options (cmd_operation command) = None then (NotFound, context')
         else (Success, context'))"

definition make_forward :: "services \<Rightarrow> delivery \<Rightarrow> string \<Rightarrow> ClientForwardEnvelope" where
  "make_forward S d forward_id =
    (let position = (case pk_payload (dl_packet d) of
           Push (Text_message_push p) \<Rightarrow> (tp_conversation_id p, tp_conversation_seq p)
         | Push (File_message_push p) \<Rightarrow> (mp_conversation_id p, mp_conversation_seq p)
         | Push (Read_receipt_push p) \<Rightarrow> (rr_conversation_id p, rr_conversation_seq p)
         | _ \<Rightarrow> (0, 0)) in
     \<lparr>fwd_forward_id = forward_id, fwd_recipient_uid = dl_recipient_uid d, fwd_expected_connection_id = '''',
      fwd_expected_connection_generation = 0, fwd_message_id = TcpPacketReliableSequence (dl_packet d),
      fwd_conversation_id = fst position, fwd_conversation_seq = snd position,
      fwd_packet = io_serialize S (dl_packet d), fwd_recipient_device_id = ''''\<rparr>)"

section \<open>Requests\<close>

text \<open>A call into the transport of a shard.\<close>

definition on_transport :: "nat \<Rightarrow> (server, 'a) prog \<Rightarrow> (world, 'a) prog" where
  "on_transport shard call w =
     (case call (w_transports w shard) of (r, sv) \<Rightarrow> (r, w\<lparr>w_transports := (w_transports w)(shard := sv)\<rparr>))"

text \<open>\<^verbatim>\<open>isRetryableError\<close> on the number of an error.\<close>

definition retryable :: "int \<Rightarrow> bool" where
  "retryable error =
     (error \<in> {code RPCFailed, code MysqlFailed, code InternalError, code ResourceExhausted, code DependencyUnavailable})"

definition service_reply ::
  "services \<Rightarrow> message_options \<Rightarrow> request_context \<Rightarrow> Packet \<Rightarrow> (world, unit) prog" where
  "service_reply S options context response =
     bind (on_transport (mo_self options) (transport_reply (io_byte_size S) (cx_origin context)
       (Command_result \<lparr>res_request_id = cmd_request_id (cx_command context), res_error = TcpPacketError response,
          res_retryable = retryable (TcpPacketError response),
          res_packet = io_serialize S response\<rparr>)))
       (\<lambda>_. ret ())"

definition service_forward ::
  "services \<Rightarrow> message_options \<Rightarrow> SessionLease \<Rightarrow> ClientForwardEnvelope \<Rightarrow> (world, ClientForwardStatus) prog" where
  "service_forward S options lease envelope =
     on_transport (owner_shard (ls_gateway_id lease) (mo_shards options))
       (transport_forward (io_byte_size S) lease envelope)"

definition target_envelope :: "ClientForwardEnvelope \<Rightarrow> SessionLease \<Rightarrow> ClientForwardEnvelope" where
  "target_envelope envelope lease =
     envelope\<lparr>fwd_forward_id := fwd_forward_id envelope @ '':'' @ ls_device_id lease,
              fwd_recipient_device_id := ls_device_id lease,
              fwd_expected_connection_id := ls_connection_id lease,
              fwd_expected_connection_generation := ls_generation lease\<rparr>"

definition deliver_lease ::
  "env \<Rightarrow> services \<Rightarrow> message_options \<Rightarrow> delivery \<Rightarrow> ClientForwardEnvelope \<Rightarrow> SessionLease \<Rightarrow> (world, unit) prog" where
  "deliver_lease E S options d envelope lease =
     (if ls_device_id lease = dl_excluded_device_id d then ret ()
      else bind (submit E (get_session S options (dl_recipient_uid d) (ls_device_id lease))) (\<lambda>current.
           if current \<noteq> lease then ret ()
           else bind (service_forward S options lease (target_envelope envelope lease)) (\<lambda>_. ret ())))"

definition deliver_one ::
  "env \<Rightarrow> services \<Rightarrow> message_options \<Rightarrow> request_context \<Rightarrow> nat \<Rightarrow> delivery \<Rightarrow> (world, unit) prog" where
  "deliver_one E S options context index d =
     bind (submit E (get_sessions S options (dl_recipient_uid d))) (\<lambda>leases.
       let envelope = make_forward S d (cmd_request_id (cx_command context) @ '':'' @ to_string (int index)) in
       fold_prog (\<lambda>lease _. deliver_lease E S options d envelope lease) leases ())"

definition deliver ::
  "env \<Rightarrow> services \<Rightarrow> message_options \<Rightarrow> request_context \<Rightarrow> delivery list \<Rightarrow> (world, unit) prog" where
  "deliver E S options context deliveries =
     fold_prog (\<lambda>(index, d) _. deliver_one E S options context index d) (enumerate 0 deliveries) ()"

definition lease_matches :: "request_context \<Rightarrow> SessionLease \<Rightarrow> bool" where
  "lease_matches context lease =
     (ls_gateway_id lease = rt_gateway_id (cx_origin context) \<and>
      ls_instance_id lease = rt_instance_id (cx_origin context) \<and>
      ls_shard_id lease = rt_shard_id (cx_origin context) \<and>
      ls_connection_id lease = cmd_connection_id (cx_command context) \<and>
      ls_generation lease = cmd_connection_generation (cx_command context))"

fun failure_packet :: "exn \<Rightarrow> Packet" where
  "failure_packet Overloaded = MakeErrorPacket (code ResourceExhausted) ''''"
| "failure_packet _ = MakeErrorPacket (code DependencyUnavailable) ''''"

definition run_request ::
  "env \<Rightarrow> services \<Rightarrow> message_options \<Rightarrow> handler \<Rightarrow> request_context \<Rightarrow> (world, Packet \<times> delivery list) prog" where
  "run_request E S options handle context =
     bind (submit E (get_session S options (cmd_actor_uid (cx_command context))
             (cmd_actor_device_id (cx_command context)))) (\<lambda>lease.
     if \<not> lease_matches context lease
     then ret (MakeErrorPacket (code AuthenticationRequired) '''', cx_deliveries context)
     else handle context)"

definition service_process ::
  "env \<Rightarrow> services \<Rightarrow> message_options \<Rightarrow> handler \<Rightarrow> request_context \<Rightarrow> (world, unit) prog" where
  "service_process E S options handle context =
     bind (catch (run_request E S options handle context) (\<lambda>e. ret (failure_packet e, [])))
       (\<lambda>(response, deliveries).
         bind (service_reply S options context response) (\<lambda>_.
         if TcpPacketError response = code Success
         then catch (deliver E S options context deliveries) (\<lambda>_. ret ())
         else ret ()))"

definition service_submit ::
  "env \<Rightarrow> services \<Rightarrow> message_options \<Rightarrow> bool \<Rightarrow> stream_route \<Rightarrow> CommandEnvelope \<Rightarrow> (world, unit) prog" where
  "service_submit E S options stopping origin command w =
    (let context = \<lparr>cx_origin = origin, cx_command = command, cx_packet = empty_packet, cx_deliveries = []\<rparr> in
     if stopping then service_reply S options context (failure_packet Stopped) w
     else case acquire (int (io_request_size S command)) (w_requests w) of
       (Inl e, b) \<Rightarrow> service_reply S options context (failure_packet e) w
     | (Inr permit, b) \<Rightarrow>
         let (error, context') = decode E S options context;
             finished = (\<lambda>(r, w'). (r, w'\<lparr>w_requests := release permit (w_requests w')\<rparr>)) in
         if error \<noteq> Success
         then finished (service_reply S options context' (MakeErrorPacket (code error) '''') (w\<lparr>w_requests := b\<rparr>))
         else case route_for E S options (cmd_operation command) of
           None \<Rightarrow> finished (Inr (), w\<lparr>w_requests := b\<rparr>)
         | Some handle \<Rightarrow> finished (service_process E S options handle context' (w\<lparr>w_requests := b\<rparr>)))"

section \<open>What every handler respects\<close>

lemma retryable_code: "retryable (code e) = isRetryableError e"
  by (cases e) (simp_all add: retryable_def)

lemmas store_keeps = keeps_messages keeps_friend_group keeps_reads keeps_writes keeps_pull_group

context request_relation
begin

lemma messages_within:
  "within R (accept_text E S uid p)" "within R (accept_group_text E S uid p)"
  "within R (acknowledge E S uid p device)" "within R (pull_conversation E uid p)"
  unfolding accept_text_def accept_group_text_def acknowledge_def pull_conversation_def Let_def
  by (intro request_intros store_keeps)+

lemma message_files_within:
  "within R (accept_file E S uid p)" "within R (accept_group_file E S uid p)"
  unfolding accept_file_def accept_group_file_def Let_def
  by (auto intro!: request_intros store_keeps split: option.split)

lemma friends_within:
  "within R (friends_apply E S options cx)" "within R (friends_reply E S options cx)"
  "within R (friends_pull_applications E cx)" "within R (friends_pull_friends E cx)"
  unfolding friends_apply_def friends_reply_def friends_pull_applications_def friends_pull_friends_def
    store_application_def store_reply_def Let_def
  by (auto intro!: request_intros store_keeps split: option.split)

text \<open>The guards of the group handlers are what \<open>submitted_ok\<close> asks for.\<close>

lemma groups_within:
  "within R (groups_create E S options cx)" "within R (groups_apply E S cx)"
  "within R (groups_pull E cx)" "within R (groups_reply E S cx)"
  "within R (groups_quit E cx)" "within R (groups_kick E cx)"
  unfolding groups_create_def groups_apply_def groups_pull_def groups_reply_def groups_quit_def groups_kick_def Let_def
  by (intro request_intros store_keeps; simp)+

lemma files_within:
  "within R (files_upload E S cx)" "within R (files_download E S cx)"
  unfolding files_upload_def finish_upload_def files_download_def Let_def
  by (auto intro!: request_intros store_keeps split: option.split prod.split)

lemma registry_within:
  assumes "route_for E S options operation = Some handle"
  shows "within R (handle cx)"
proof -
  have sends: "within R (service_send accept cx)" if "\<And>uid p. within R (accept uid p)" for accept
    unfolding service_send_def using that by (intro request_intros)
  have rest: "within R (service_acknowledge E S cx)" "within R (service_pull_messages E cx)"
    unfolding service_acknowledge_def service_pull_messages_def by (intro request_intros messages_within)+
  have "(op, h) \<in> set (registry E S options) \<Longrightarrow> within R (h cx)" for op h
    unfolding registry_def list.set
    by (elim insertE emptyE; simp add: sends rest messages_within message_files_within friends_within groups_within
        files_within)
  moreover obtain op where "find (\<lambda>r. fst r = operation) (registry E S options) = Some (op, handle)"
    using assms by (auto simp: route_for_def)
  then have "(op, handle) \<in> set (registry E S options)" by (auto simp: find_Some_iff)
  ultimately show ?thesis by blast
qed

lemma run_request_within:
  assumes "route_for E S options operation = Some handle"
  shows "within R (run_request E S options handle cx)"
  unfolding run_request_def by (intro request_intros registry_within [OF assms])

text \<open>A relation that also allows the replies and the forwards of a request allows the whole request.\<close>

lemma process_within:
  assumes "route_for E S options operation = Some handle" "\<And>packet. within R (service_reply S options cx packet)"
    and "\<And>deliveries. within R (deliver E S options cx deliveries)"
  shows "within R (service_process E S options handle cx)"
  unfolding service_process_def
  by (intro request_intros run_request_within [OF assms(1)]) (auto intro!: request_intros assms(2,3))

end

section \<open>The database under requests\<close>

lemma stored_transport [intro]: "within (keeps_world E) (on_transport shard call)"
  by (auto simp: within_def on_transport_def keeps_world_def world_ok_def split: prod.splits)

lemma stored_deliver: "within (keeps_world E) (deliver E S options cx deliveries)"
  unfolding deliver_def deliver_one_def deliver_lease_def service_forward_def Let_def
  by (auto intro!: stored.request_intros stored_transport split: prod.split)

lemma stored_reply: "within (keeps_world E) (service_reply S options cx packet)"
  unfolding service_reply_def by (intro stored.request_intros stored_transport)

lemma world_ok_requests [simp]: "world_ok E (w\<lparr>w_requests := b\<rparr>) = world_ok E w"
  by (simp add: world_ok_def)

text \<open>A submission ends in a reply at once, or in the processing of the request.\<close>

lemma service_reply_packet:
  "service_reply S options (context\<lparr>cx_packet := p\<rparr>) packet = service_reply S options context packet"
  by (simp add: service_reply_def)

lemma decode_context: "snd (decode E S options cx) = cx\<lparr>cx_packet := cx_packet (snd (decode E S options cx))\<rparr>"
  by (simp add: decode_def Let_def split: option.split)

lemma decode_route:
  assumes "fst (decode E S options cx) = Success"
  obtains handle where "route_for E S options (cmd_operation (cx_command cx)) = Some handle"
  using assms by (auto simp: decode_def Let_def split: option.splits if_splits)

lemma service_submit_cases:
  assumes "service_submit E S options stopping origin command w = (r, w')"
  obtains (replied) packet b b' w1 where
      "service_reply S options \<lparr>cx_origin = origin, cx_command = command, cx_packet = empty_packet, cx_deliveries = []\<rparr> packet
         (w\<lparr>w_requests := b\<rparr>) = (r, w1)" "w' = w1\<lparr>w_requests := b'\<rparr>"
  | (processed) handle packet b b' w1 where "route_for E S options (cmd_operation command) = Some handle"
      "service_process E S options handle
         \<lparr>cx_origin = origin, cx_command = command, cx_packet = packet, cx_deliveries = []\<rparr>
         (w\<lparr>w_requests := b\<rparr>) = (r, w1)" "w' = w1\<lparr>w_requests := b'\<rparr>"
proof -
  define cx where "cx = \<lparr>cx_origin = origin, cx_command = command, cx_packet = empty_packet, cx_deliveries = []\<rparr>"
  have same: "w = w\<lparr>w_requests := w_requests w\<rparr>" "v = v\<lparr>w_requests := w_requests v\<rparr>" for v :: world by simp_all
  have at_once: thesis if "service_reply S options cx packet w = (r, w')" for packet
    using replied [of packet "w_requests w" w' "w_requests w'"] that by (simp add: cx_def)
  obtain r1 b where permit: "acquire (int (io_request_size S command)) (w_requests w) = (r1, b)" by fastforce
  obtain e cx1 where dec: "decode E S options cx = (e, cx1)" by fastforce
  have cx1: "cx1 = cx\<lparr>cx_packet := cx_packet cx1\<rparr>" using decode_context [of E S options cx] dec by simp
  show thesis
  proof (cases "stopping \<or> (\<exists>x. r1 = Inl x)")
    case True
    then show thesis
      using at_once assms [unfolded service_submit_def Let_def, folded cx_def, unfolded permit]
      by (auto split: if_splits)
  next
    case False
    then obtain u where r1: "\<not> stopping" "r1 = Inr u" by (cases r1) auto
    note run = assms [unfolded service_submit_def Let_def, folded cx_def, unfolded permit r1 dec]
    show thesis
    proof (cases "e = Success")
      case True
      then obtain handle where route: "route_for E S options (cmd_operation command) = Some handle"
        using decode_route [of E S options cx] dec by (auto simp: cx_def)
      obtain r2 w1 where p: "service_process E S options handle cx1 (w\<lparr>w_requests := b\<rparr>) = (r2, w1)" by fastforce
      with run r1 True route have "r = r2" "w' = w1\<lparr>w_requests := release u (w_requests w1)\<rparr>" by simp_all
      with processed [OF route, of "cx_packet cx1" b w1] p cx1 show thesis by (simp add: cx_def)
    next
      case False
      obtain r2 w1 where p: "service_reply S options cx1 (MakeErrorPacket (code e) '''') (w\<lparr>w_requests := b\<rparr>) = (r2, w1)"
        by fastforce
      with run r1 False have "r = r2" "w' = w1\<lparr>w_requests := release u (w_requests w1)\<rparr>" by simp_all
      with replied [of "MakeErrorPacket (code e) ''''" b w1] p cx1 service_reply_packet show thesis
        unfolding cx_def [symmetric] by metis
    qed
  qed
qed

lemma stored_service_submit: "within (keeps_world E) (service_submit E S options stopping origin command)"
  unfolding within_def
proof (intro allI impI)
  fix w r w' assume "service_submit E S options stopping origin command w = (r, w')"
  then show "keeps_world E w w'"
  proof (cases rule: service_submit_cases)
    case (replied packet b b' w1)
    with withinD [OF stored_reply replied(1), of E] show ?thesis by (simp add: keeps_world_def)
  next
    case (processed handle packet b b' w1)
    from withinD [OF stored.process_within [OF processed(1) stored_reply stored_deliver] processed(2)] processed(3)
    show ?thesis by (simp add: keeps_world_def)
  qed
qed

end
