(* ===== verification/Store_Facts.thy ===== *)
theory Store_Facts
  imports Store_System
begin

text \<open>
  Lemmas between the operations and the properties: what one call, or any
  number of interrupted calls, of \<^verbatim>\<open>driver::execute\<close> leaves in the tables.
\<close>

definition position_moves :: "int \<Rightarrow> userState_row \<Rightarrow> userState_row \<Rightarrow> bool" where
  "position_moves uid s s' =
     (s' = s\<lparr>us_deliveredSeq := us_deliveredSeq s', us_readSeq := us_readSeq s'\<rparr> \<and>
      us_deliveredSeq s \<le> us_deliveredSeq s' \<and> us_readSeq s \<le> us_readSeq s' \<and>
      (us_uid s \<noteq> uid \<longrightarrow> s' = s))"

definition status_moves :: "int \<Rightarrow> message_row \<Rightarrow> message_row \<Rightarrow> bool" where
  "status_moves uid m m' =
     (m' = m\<lparr>ms_status := ms_status m', ms_readDateTime := ms_readDateTime m'\<rparr> \<and>
      ms_status m \<le> ms_status m' \<and> (ms_receiverId m \<noteq> uid \<longrightarrow> m' = m))"

lemma void_state: "snd (driver_execute stopping (void p) c) = snd (driver_execute stopping p c)"
  by (auto simp: driver_execute_def void_def bind_def ret_def split: sum.splits prod.splits)

lemma tx_commit:
  assumes "clean b (d, n) = Inr (Some Commit, a, d', n')"
  shows "tx_rows b (d, n) = d'" "tx_result b (d, n) = Inr a"
  using assms by (simp_all add: tx_rows_def tx_result_def)

lemma attempt_once:
  assumes "closes b" "ids_grow b"
    and fresh: "\<And>n. n0 \<le> n \<Longrightarrow> clean b (d, n) = Inr (Some Commit, a n, eff n, n + 1)"
    and again: "\<And>n n'. n0 \<le> n \<Longrightarrow> clean b (eff n, n') = Inr (Some Commit, a' n, eff n, n')"
    and c: "saved c = None" "n0 \<le> auto_id c" "rows c = d \<or> (\<exists>n \<ge> n0. rows c = eff n)"
    and run: "driver_execute stopping (transaction b h) c = (r, c')"
  shows "saved c' = None" "n0 \<le> auto_id c'" "rows c' = d \<or> (\<exists>n \<ge> n0. rows c' = eff n)"
proof -
  have eff: "tx_rows b (rows c, auto_id c) = d \<or> (\<exists>n \<ge> n0. tx_rows b (rows c, auto_id c) = eff n)"
    using c(3)
  proof
    assume "rows c = d"
    with fresh [OF c(2)] c(2) show ?thesis by (metis tx_commit(1))
  next
    assume "\<exists>n \<ge> n0. rows c = eff n"
    with again show ?thesis by (metis tx_commit(1))
  qed
  have "saved c' = None \<and> n0 \<le> auto_id c' \<and> (rows c' = d \<or> (\<exists>n \<ge> n0. rows c' = eff n))"
    by (rule driver_transaction [OF assms(1,2) c(1) run]) (use c eff in simp_all)
  then show "saved c' = None" "n0 \<le> auto_id c'" "rows c' = d \<or> (\<exists>n \<ge> n0. rows c' = eff n)" by simp_all
qed

text \<open>Any number of attempts, each cut off anywhere, and then one that is not: the effect is there once.\<close>

lemma attempts_once:
  assumes b: "closes b" "ids_grow b"
    and fresh: "\<And>n. n0 \<le> n \<Longrightarrow> clean b (d, n) = Inr (Some Commit, a n, eff n, n + 1)"
    and again: "\<And>n n'. n0 \<le> n \<Longrightarrow> clean b (eff n, n') = Inr (Some Commit, a' n, eff n, n')"
    and op: "\<And>stopping c. snd (driver_execute stopping (execute x) c) = snd (driver_execute stopping (transaction b h) c)"
    and c: "saved c = None" "n0 \<le> auto_id c" "rows c = d"
    and run: "driver_execute False (transaction b h) ((driver_run execute (replicate k x) c)\<lparr>faults := []\<rparr>) = (r, c')"
  shows "\<exists>n \<ge> n0. rows c' = eff n \<and> (r = Inr (a n) \<or> r = Inr (a' n))"
proof -
  have many: "saved (driver_run execute (replicate k x) s) = None \<and> n0 \<le> auto_id (driver_run execute (replicate k x) s) \<and>
      (rows (driver_run execute (replicate k x) s) = d \<or>
       (\<exists>n \<ge> n0. rows (driver_run execute (replicate k x) s) = eff n))"
    if "saved s = None" "n0 \<le> auto_id s" "rows s = d \<or> (\<exists>n \<ge> n0. rows s = eff n)" for s
    using that
  proof (induction k arbitrary: s)
    case (Suc k)
    obtain r1 s1 where s1: "driver_execute False (transaction b h) s = (r1, s1)" by fastforce
    then have "snd (driver_execute False (execute x) s) = s1" using op by simp
    with Suc.IH [OF attempt_once [OF b fresh again Suc.prems s1]] show ?case by simp
  qed simp
  let ?s = "(driver_run execute (replicate k x) c)\<lparr>faults := []\<rparr>"
  have s: "saved ?s = None" "n0 \<le> auto_id ?s" "rows ?s = d \<or> (\<exists>n \<ge> n0. rows ?s = eff n)" "faults ?s = []"
    using many [of c] c by simp_all
  from s(3) show ?thesis
  proof
    assume "rows ?s = d"
    then have "clean b (rows ?s, auto_id ?s) = Inr (Some Commit, a (auto_id ?s), eff (auto_id ?s), auto_id ?s + 1)"
      using fresh [OF s(2)] by simp
    from driver_transaction_clean [OF b(1) s(1,4) tx_commit(2) [OF this] run] tx_commit(1) [OF this] s(2)
    show ?thesis by auto
  next
    assume "\<exists>n \<ge> n0. rows ?s = eff n"
    then obtain n where n: "n0 \<le> n" "rows ?s = eff n" by blast
    then have "clean b (rows ?s, auto_id ?s) = Inr (Some Commit, a' n, eff n, auto_id ?s)" using again by simp
    from driver_transaction_clean [OF b(1) s(1,4) tx_commit(2) [OF this] run] tx_commit(1) [OF this] n(1)
    show ?thesis by auto
  qed
qed

lemma direct_states_again:
  "direct_states op c (append_message m (direct_states op c d)) = append_message m (direct_states op c d)"
proof -
  let ?s = "direct_states op c d"
  let ?new = "[new_userState c (dt_sender_id op) 1, new_userState c (dt_receiver_id op) 1]"
  have keys: "userState_key r \<in> userState_key ` set (conversationUserStates ?s)" if "r \<in> set ?new" for r
    using that by (auto simp: direct_states_def ignore_userStates_def fold_insert_ignore_keys simp del: fold.simps)
  have "insert_ignore userState_clash r (conversationUserStates ?s) = conversationUserStates ?s"
    if "r \<in> set ?new" for r
    using keys [OF that] by (auto simp: insert_ignore_def list_ex_iff userState_clash_def)
  then have "fold (insert_ignore userState_clash) ?new (conversationUserStates ?s) = conversationUserStates ?s" by simp
  then show ?thesis unfolding direct_states_def [of op c "append_message m ?s"] ignore_userStates_def by simp
qed

lemma direct_friends_append:
  "direct_friends op (append_message m (direct_states op' c d)) = direct_friends op d"
proof -
  have "direct_conversation a b (append_message m (direct_states op' c d)) = direct_conversation a b d" for a b
    by (simp add: direct_conversation_def append_message_conversations direct_states_def map_update_where
        cong: if_cong)
  then show ?thesis by (simp add: direct_friends_def)
qed

lemma ids_below_mono: "ids_below d n \<Longrightarrow> n \<le> n' \<Longrightarrow> ids_below d n'"
  by (fastforce simp: ids_below_def)

lemma direct_again:
  assumes "db_inv E d" "ids_below d n" "direct_friends op d = Some c" "direct_known E op d = None"
    and "cv \<in> set (conversations d)" "cv_conversationId cv = c"
  defines "m \<equiv> direct_message E op c (cv_latestSeq cv + 1) n"
  shows "clean (accept_direct_text_body E op) (append_message m (direct_states op c d), n') =
    Inr (Some Commit, \<lparr>ac_error = Success, ac_diagnostic = '''', ac_duplicate = True,
            ac_messageId = n, ac_conversationId = c, ac_conversationSeq = cv_latestSeq cv + 1\<rparr>,
            append_message m (direct_states op c d), n')"
proof -
  let ?d = "append_message m (direct_states op c d)"
  have inv: "db_inv E ?d" unfolding m_def by (rule direct_fresh(2) [OF assms(1-6)])
  have "client_messages E (dt_sender_id op) (dt_client_message_id op) d = []"
    using assms(4) by (simp add: direct_known_def)
  then have known: "direct_known E op ?d = Some m"
    by (simp add: direct_known_def client_messages_def direct_states_def m_def direct_message_def new_message_def
        same_client_def same_text_def)
  have same: "same_command m c (dt_receiver_id op) (dt_message_type op) (dt_content op)"
    by (simp add: same_command_def m_def direct_message_def new_message_def)
  have "direct_friends op ?d = Some c" using assms(3) by (simp add: direct_friends_append)
  from direct_repeat [OF inv this known, of n'] same show ?thesis
    by (simp add: direct_states_again) (simp add: m_def direct_message_def new_message_def)
qed

lemma group_append_reads [simp]:
  "group_of op (append_message m d) = group_of op d"
  "group_file_ok E op (append_message m d) = group_file_ok E op d"
  "group_accepted op (append_message m d) = group_accepted op d"
  by (simp_all add: group_of_def group_conversation_of_def group_file_ok_def ready_owned_files_def
      group_accepted_def other_members_def fun_eq_iff cong: if_cong)

lemma group_again:
  assumes "db_inv E d" "ids_below d n" "group_of op d = Some c" "group_file_ok E op d"
    and "group_known E op d = None" "cv \<in> set (conversations d)" "cv_conversationId cv = c"
  defines "m \<equiv> group_message E op c (cv_latestSeq cv + 1) n"
  shows "clean (accept_group_message_body E op) (append_message m d, n') =
    Inr (Some Commit, group_accepted op d c True n (cv_latestSeq cv + 1), append_message m d, n')"
proof -
  have inv: "db_inv E (append_message m d)" unfolding m_def by (rule group_fresh(2) [OF assms(1-7)])
  have "client_messages E (gt_sender_id op) (gt_client_message_id op) d = []"
    using assms(5) by (simp add: group_known_def)
  then have known: "group_known E op (append_message m d) = Some m"
    by (simp add: group_known_def client_messages_def m_def group_message_def new_message_def same_client_def same_text_def)
  have same: "same_command m c (gt_group_id op) (gt_message_type op) (gt_content op)"
    by (simp add: same_command_def m_def group_message_def new_message_def)
  from group_repeat [OF inv _ _ known, of c n'] assms(3,4) same show ?thesis
    by simp (simp add: m_def group_message_def new_message_def)
qed

lemma driver_transaction_result:
  assumes "closes b" "ids_grow b" "saved c = None"
    and "driver_execute stopping (transaction b h) c = (Inr a, c')" "\<And>m l. h (RuntimeError m) l \<noteq> Inr a"
  shows "tx_result b (rows c, auto_id c) = Inr a" "rows c' = tx_rows b (rows c, auto_id c)"
  by (rule driver_transaction [OF assms(1-4)]; use assms(5) in blast)+

lemma driver_transaction_changed:
  assumes "closes b" "ids_grow b" "saved c = None"
    and "driver_execute stopping (transaction b h) c = (r, c')" "rows c' \<noteq> rows c"
  obtains a n' where "clean b (rows c, auto_id c) = Inr (Some Commit, a, rows c', n')"
proof -
  have "rows c' = tx_rows b (rows c, auto_id c)"
    by (rule driver_transaction [OF assms(1-4)]) (use assms(5) in simp_all)
  with assms(5) that show thesis
    by (auto simp: tx_rows_def split: sum.splits option.splits ending.splits)
qed

lemma accept_handler_fails: "accept_handler e l = Inr acc \<Longrightarrow> ac_error acc = MysqlFailed"
  by (auto simp: accept_handler_def)

lemma run_clean:
  assumes "run b c = (Inr a, c')"
  shows "\<exists>e s. clean b (rows c, auto_id c) = Inr (e, a, s)"
  using assms
proof (induction b arbitrary: c)
  case (Finish e l x)
  obtain flt c1 where "next_fault c = (flt, c1)" by fastforce
  with Finish show ?case by (cases "aborted c"; cases flt) auto
next
  case (Step l f k)
  obtain flt c1 where nf: "next_fault c = (flt, c1)" by fastforce
  let ?s = "(rows c, auto_id c)"
  show ?case
  proof (cases "f ?s")
    case (Inl m)
    with Step.prems nf next_fault_same [OF nf] show ?thesis by (cases "aborted c"; cases flt) auto
  next
    case (Inr s')
    with Step.prems nf next_fault_same [OF nf]
    have "run (k ?s) (c1\<lparr>rows := fst s', auto_id := snd s'\<rparr>) = (Inr a, c')"
      by (cases "aborted c"; cases flt) auto
    from Step.IH [OF _ this] Inr show ?thesis by simp
  qed
qed simp

lemma driver_read:
  assumes "plain b" "steps_in (\<lambda>s t. s = t) b" "saved c = None"
    and run: "driver_execute stopping (autocommit b) c = (r, c')"
  shows "rows c' = rows c" "r = Inr a \<Longrightarrow> \<exists>e s. clean b (rows c, auto_id c) = Inr (e, a, s)"
proof -
  have "rows c' = rows c \<and> (r = Inr a \<longrightarrow> (\<exists>e s. clean b (rows c, auto_id c) = Inr (e, a, s)))"
  proof (rule driver_execute_cases [OF run assms(3)])
    fix c1 r1 c2
    assume c1: "saved c1 = None" "rows c1 = rows c" "auto_id c1 = auto_id c"
      and op: "autocommit b c1 = (r1, c2)" and r: "r = r1"
      and c': "c' = (case r1 of Inr a \<Rightarrow> c2 | Inl e \<Rightarrow> abort c2)"
    obtain r2 c3 where b: "run b c1 = (r2, c3)" by fastforce
    with op have "c3 = c2" and r1: "r1 = Inr a \<Longrightarrow> r2 = Inr a"
      by (auto simp: autocommit_def split: sum.splits prod.splits)
    from run_plain [where R = "\<lambda>s t. s = t", OF assms(1) c1(1) assms(2) refl _ b]
    have "saved c2 = None" "rows c2 = rows c" using c1 \<open>c3 = c2\<close> by auto
    moreover have "\<exists>e s. clean b (rows c, auto_id c) = Inr (e, a, s)" if "r = Inr a"
      using run_clean [of b c1 a c3] b r1 that r c1 by simp
    ultimately show ?thesis by (auto simp: c' committed_def split: sum.splits)
  qed simp_all
  then show "rows c' = rows c" "r = Inr a \<Longrightarrow> \<exists>e s. clean b (rows c, auto_id c) = Inr (e, a, s)" by simp_all
qed

lemma list_all2_update_where:
  "(\<And>x. x \<in> set xs \<Longrightarrow> R x (if P x then f x else x)) \<Longrightarrow> list_all2 R xs (update_where P f xs)"
  by (induction xs) (simp_all add: update_where_def)

text \<open>What an acknowledgement may do to a reader's position and to a message.\<close>

lemma ack_effect_moves:
  assumes "direct \<Longrightarrow> \<forall>m \<in> set (messages d). ms_messageId m = ack_message_id op \<longrightarrow> ms_receiverId m = ack_uid op"
  shows "list_all2 (position_moves (ack_uid op)) (conversationUserStates d)
           (conversationUserStates (ack_effect E op direct d))"
    and "list_all2 (status_moves (ack_uid op)) (messages d) (messages (ack_effect E op direct d))"
proof -
  show "list_all2 (position_moves (ack_uid op)) (conversationUserStates d)
           (conversationUserStates (ack_effect E op direct d))"
    by (auto simp: ack_effect_def advance_user_def advance_device_def mark_message_def position_moves_def
        intro!: list_all2_update_where)
  have refl: "list_all2 (status_moves u) ms ms" for u ms
    by (simp add: list_all2_refl status_moves_def)
  show "list_all2 (status_moves (ack_uid op)) (messages d) (messages (ack_effect E op direct d))"
  proof (cases direct)
    case True
    with assms show ?thesis
      by (auto simp: ack_effect_def advance_user_def advance_device_def mark_message_def status_moves_def
          intro!: list_all2_update_where)
  next
    case False
    then show ?thesis by (simp add: ack_effect_def advance_user_def advance_device_def refl)
  qed
qed

lemma insert_friend_rows:
  assumes "clean (insert_friend_body E f) (d, n) = Inr (Some Commit, a, d', n')"
    and "0 \<le> frd_uidA f" "frd_uidA f < 2 ^ 63" "0 \<le> frd_uidB f" "frd_uidB f < 2 ^ 63"
    and "0 \<le> frd_friendshipId f" "frd_friendshipId f < 2 ^ 63" "0 \<le> frd_conversationId f" "frd_conversationId f < 2 ^ 63"
  shows "\<exists>x \<in> set (friends d'). fr_friendshipId x = frd_friendshipId f \<and>
      fr_uidA x = min (frd_uidA f) (frd_uidB f) \<and> fr_uidB x = max (frd_uidA f) (frd_uidB f)"
    and "\<exists>x \<in> set (conversations d'). cv_conversationId x = frd_conversationId f \<and> cv_type x = 1 \<and>
      cv_businessId x = frd_friendshipId f"
proof -
  have ids: "int64_of (min (frd_uidA f) (frd_uidB f)) = min (frd_uidA f) (frd_uidB f)"
    "int64_of (max (frd_uidA f) (frd_uidB f)) = max (frd_uidA f) (frd_uidB f)"
    "int64_of (frd_friendshipId f) = frd_friendshipId f" "int64_of (frd_conversationId f) = frd_conversationId f"
    using assms(2-9) by (auto simp: int64_of_def min_def max_def)
  have words: "size_t_of (frd_uidA f) = frd_uidA f" "size_t_of (frd_uidB f) = frd_uidB f"
    "size_t_of (frd_friendshipId f) = frd_friendshipId f" "size_t_of (frd_conversationId f) = frd_conversationId f"
    using assms(2-9) by simp_all
  show "\<exists>x \<in> set (friends d'). fr_friendshipId x = frd_friendshipId f \<and>
      fr_uidA x = min (frd_uidA f) (frd_uidB f) \<and> fr_uidB x = max (frd_uidA f) (frd_uidB f)"
    using assms(1) by (auto simp: insert_friend_body_def Let_def words ids insert_friendship_def insert_row_Inr
        dest!: insert_conversation_result(1) insert_userStates_result split: if_splits sum.splits)
  show "\<exists>x \<in> set (conversations d'). cv_conversationId x = frd_conversationId f \<and> cv_type x = 1 \<and>
      cv_businessId x = frd_friendshipId f"
    using assms(1) by (auto simp: insert_friend_body_def Let_def words ids
        dest!: insert_conversation_result(1) insert_userStates_result split: if_splits sum.splits)
qed

text \<open>A direct message answered with Success is in the committed log.\<close>

lemma direct_stored:
  assumes "saved c = None" "store_inv E (rows c) (auto_id c)"
    and "driver_execute stopping (execute_accept_direct_text E op) c = (Inr acc, c')" "ac_error acc = Success"
  shows "\<exists>m \<in> set (messages (rows c')). ms_messageId m = ac_messageId acc \<and>
    ms_conversationId m = ac_conversationId acc \<and> ms_conversationSeq m = ac_conversationSeq acc \<and>
    ms_senderId m = dt_sender_id op \<and> ms_receiverId m = dt_receiver_id op \<and>
    ms_type m = dt_message_type op \<and> ms_content m = dt_content op"
proof -
  let ?d = "rows c" and ?n = "auto_id c"
  have db: "db_inv E ?d" and ids: "ids_below ?d ?n" using assms(2) by (simp_all add: store_inv_def)
  have "accept_handler (RuntimeError m) l \<noteq> Inr acc" for m l
    using assms(4) accept_handler_fails [of "RuntimeError m" l acc] by auto
  note res = driver_transaction_result [OF accept_direct_closes accept_ids_grow(1) assms(1)
      assms(3) [unfolded execute_accept_direct_text_def] this]
  show ?thesis
  proof (cases "direct_friends op ?d")
    case None
    from res(1) direct_stranger [OF this, of E ?n] assms(4) show ?thesis by (auto simp: tx_result_def)
  next
    case (Some k)
    show ?thesis
    proof (cases "direct_known E op ?d")
      case None
      obtain cv where cv: "cv \<in> set (conversations ?d)" "cv_conversationId cv = k"
        by (rule direct_latest [OF db Some])
      from res direct_fresh(1) [OF db ids Some None cv] show ?thesis
        by (auto simp: tx_result_def tx_rows_def direct_message_def new_message_def)
    next
      case known: (Some m)
      then have "m \<in> set (messages ?d)" "ms_senderId m = dt_sender_id op"
        by (auto simp: direct_known_def client_messages_def same_client_def dest: first_row_SomeD)
      with res direct_repeat [OF db Some known, of ?n] assms(4) show ?thesis
        by (intro bexI [of _ m])
          (auto simp: tx_result_def tx_rows_def same_command_def direct_states_def split: if_splits)
    qed
  qed
qed

end
