(* ===== verification/Store_Properties.thy ===== *)
theory Store_Properties
  imports Store_Facts
begin

text \<open>
  The properties of the message store: what a caller of \<^verbatim>\<open>driver::execute\<close> may
  rely on, for every schedule of failing statements.  The concrete runs start
  from the seed data of the SQL script with one device added.
\<close>

fun text_less :: "string \<Rightarrow> string \<Rightarrow> bool" where
  "text_less _ [] = False"
| "text_less [] (y # ys) = True"
| "text_less (x # xs) (y # ys) = ((of_char x :: nat) < of_char y \<or> x = y \<and> text_less xs ys)"

definition sample_env :: env where
  "sample_env = \<lparr>collate = (\<lambda>s. s), str_less = text_less, varchar = take,
                 std_hash = length, current_time = ''2026-05-20 00:00:00''\<rparr>"

definition sample_db :: db where
  "sample_db = seed_db\<lparr>devices :=
     [\<lparr>dv_deviceId = ''phone'', dv_uid = 1002, dv_platform = ''ios'', dv_deviceName = ''Phone''\<rparr>]\<rparr>"

definition sample_conn :: "fault list \<Rightarrow> db conn" where
  "sample_conn fs = \<lparr>rows = sample_db, auto_id = 1000003, saved = None, aborted = False, faults = fs\<rparr>"

definition sample_text :: "int \<Rightarrow> accept_direct_text" where
  "sample_text receiver = \<lparr>dt_sender_id = 1001, dt_receiver_id = receiver, dt_client_message_id = ''m-1'',
     dt_content = ''hi'', dt_send_date_time = ''2026-05-20 00:00:00'', dt_message_type = 1\<rparr>"

definition sample_group_text :: accept_group_message where
  "sample_group_text = \<lparr>gt_sender_id = 1001, gt_group_id = 3001, gt_client_message_id = ''m-2'',
     gt_content = ''all'', gt_message_type = 1, gt_send_date_time = ''2026-05-20 00:00:00'',
     gt_require_ready_owned_file = False\<rparr>"


definition sample_sync :: sync_conversation where
  "sample_sync = \<lparr>sc_uid = 1002, sc_conversation_id = 92001, sc_after_seq = 0, sc_pull_count = 1\<rparr>"

definition sample_kick :: remove_group_member where
  "sample_kick = \<lparr>rm_group_id = 3001, rm_actor_uid = 1001, rm_target_uid = 1002, rm_dissolve_if_master = False\<rparr>"

definition sample_reply :: reply_group_join where
  "sample_reply = \<lparr>rp_group_id = 3001, rp_actor_uid = 1001, rp_requestor_uid = 1003, rp_accept = True,
     rp_now = ''2026-05-20 00:00:00''\<rparr>"

definition sample_friend :: Friend where
  "sample_friend = \<lparr>frd_friendshipId = 9001003, frd_conversationId = 92002, frd_uidA = 1003, frd_uidB = 1001,
     frd_createTime = ''2026-05-20 00:00:00''\<rparr>"

definition sample_direct_run :: "fault list \<Rightarrow> (exn + MessageAcceptResult) \<times> db conn" where
  "sample_direct_run fs =
     driver_execute False (execute_accept_direct_text sample_env (sample_text 1002)) (sample_conn fs)"

definition sample_group_run :: "(exn + GroupMessageAcceptResult) \<times> db conn" where
  "sample_group_run =
     driver_execute False (execute_accept_group_message sample_env sample_group_text) (sample_conn [])"

definition sample_sync_run :: "(exn + ConversationSyncResult) \<times> db conn" where
  "sample_sync_run = driver_execute False (execute_sync_conversation sample_env sample_sync) (sample_conn [])"

definition sample_friend_run :: "(exn + int) \<times> db conn" where
  "sample_friend_run = driver_execute False (execute_insert_friend sample_env sample_friend) (sample_conn [])"

section \<open>The sample runs\<close>

lemma seed_devices_inv: "db_inv E (seed_db\<lparr>devices := ds\<rparr>)"
  using seed_inv [of E] by (simp add: db_inv_def inv_keys_def inv_log_def inv_states_def inv_friends_iff inv_groups_iff
      rel_defs conv_messages_def)

lemma sample_store [simp]:
  "saved (sample_conn fs) = None" "store_inv E (rows (sample_conn fs)) (auto_id (sample_conn fs))"
  "db_inv E (rows (sample_conn fs))" "rows (sample_conn fs) = sample_db"
  by (simp_all add: sample_conn_def store_inv_def sample_db_def seed_devices_inv ids_below_def)
    (simp_all add: seed_db_def)

lemma sample_direct:
  "direct_friends (sample_text 1002) sample_db = Some 92001"
  "direct_known sample_env (sample_text 1002) sample_db = None"
  "hd (conversations sample_db) \<in> set (conversations sample_db)"
  "cv_conversationId (hd (conversations sample_db)) = 92001"
  "direct_friends (sample_text 1003) sample_db = None"
  by code_simp+

lemma sample_group:
  "group_of sample_group_text sample_db = Some 93001" "group_file_ok sample_env sample_group_text sample_db"
  "group_known sample_env sample_group_text sample_db = None"
  "conversations sample_db ! 1 \<in> set (conversations sample_db)"
  "cv_conversationId (conversations sample_db ! 1) = 93001"
  by code_simp+

lemma sample_clean [simp]: "faults (sample_conn []) = []" "auto_id (sample_conn fs) = 1000003"
  by (simp_all add: sample_conn_def)

lemma sample_ids: "ids_below sample_db 1000003"
  using sample_store(2) [of sample_env "[]"] by (simp add: store_inv_def)

lemma sample_run_result:
  assumes "closes b" "tx_result b (sample_db, 1000003) = Inr a"
  shows "driver_execute False (transaction b h) (sample_conn []) =
    (Inr a, snd (driver_execute False (transaction b h) (sample_conn [])))"
    and "rows (snd (driver_execute False (transaction b h) (sample_conn []))) = tx_rows b (sample_db, 1000003)"
  using driver_transaction_clean [OF assms(1), of "sample_conn []" a h] assms(2)
  by (simp_all add: prod_eq_iff)

lemma sample_direct_result:
  "sample_direct_run [] = (Inr \<lparr>ac_error = Success, ac_diagnostic = [], ac_duplicate = False,
      ac_messageId = 1000003, ac_conversationId = 92001, ac_conversationSeq = 3\<rparr>, snd (sample_direct_run []))"
proof -
  have "cv_latestSeq (hd (conversations sample_db)) = 2" by code_simp
  with tx_commit(2) [OF direct_fresh(1) [OF sample_store(3) [of sample_env "[]", unfolded sample_store(4)] sample_ids sample_direct(1-4)]]
  show ?thesis unfolding sample_direct_run_def execute_accept_direct_text_def
    by (intro sample_run_result(1)) simp_all
qed

lemma sample_group_result:
  "sample_group_run = (Inr \<lparr>ac_error = Success, ac_diagnostic = [], ac_duplicate = False,
      ac_messageId = 1000003, ac_conversationId = 93001, ac_conversationSeq = 1, ac_groupId = 3001,
      ac_recipientUids = [1002]\<rparr>, snd sample_group_run)"
proof -
  have "cv_latestSeq (conversations sample_db ! 1) = 0" "other_members 3001 1001 sample_db = [1002]" by code_simp+
  with tx_commit(2) [OF group_fresh(1) [OF sample_store(3) [of sample_env "[]", unfolded sample_store(4)] sample_ids sample_group(1-5)]]
  show ?thesis unfolding sample_group_run_def execute_accept_group_message_def
    by (intro sample_run_result(1)) (simp_all add: group_accepted_def sample_group_text_def)
qed

lemma sample_friend_result: "sample_friend_run = (Inr 0, snd sample_friend_run)"
  unfolding sample_friend_run_def execute_insert_friend_def
  by (rule sample_run_result(1), simp) code_simp

lemma sample_sync_ok: "sample_sync_run = (Inr (projr (fst sample_sync_run)), snd sample_sync_run)"
  "sy_error (projr (fst sample_sync_run)) = Success"
  by (rule prod_eqI, code_simp, simp) code_simp

lemma sample_sync_reads:
  "membership 92001 1002 sample_db \<noteq> []" "length (visible_log sample_env 1002 92001 sample_db) < 3"
  by code_simp+

lemma sample_changes:
  "rows (snd (driver_execute False (execute_remove_group_member sample_kick) (sample_conn []))) \<noteq> rows (sample_conn [])"
  "rows (snd (driver_execute False (execute_reply_group_join sample_reply) (sample_conn []))) \<noteq> rows (sample_conn [])"
proof -
  have size: "length (groupMembers (tx_rows (remove_group_member_body sample_kick) (sample_db, 1000003))) = 1"
    "length (groupMembers (tx_rows (reply_group_join_body sample_reply) (sample_db, 1000003))) = 3"
    "length (groupMembers sample_db) = 2"
    by code_simp+
  have "\<not> isl (tx_result (remove_group_member_body sample_kick) (sample_db, 1000003))"
    "\<not> isl (tx_result (reply_group_join_body sample_reply) (sample_db, 1000003))"
    by code_simp+
  then obtain a b where "tx_result (remove_group_member_body sample_kick) (sample_db, 1000003) = Inr a"
    "tx_result (reply_group_join_body sample_reply) (sample_db, 1000003) = Inr b"
    by (metis sum.collapse(2))
  note kick = sample_run_result(2) [OF bodies_close(5) this(1), of group_handler]
    and reply = sample_run_result(2) [OF bodies_close(4) this(2), of group_handler]
  show "rows (snd (driver_execute False (execute_remove_group_member sample_kick) (sample_conn []))) \<noteq> rows (sample_conn [])"
    unfolding execute_remove_group_member_def kick using size by auto
  show "rows (snd (driver_execute False (execute_reply_group_join sample_reply) (sample_conn []))) \<noteq> rows (sample_conn [])"
    unfolding execute_reply_group_join_def reply using size by auto
qed

section \<open>Properties\<close>

text \<open>C13: Whatever sequence of store operations the handlers submit and whatever statement fails, the
  committed database keeps its invariant: gap-free sequence numbers per conversation, unique client
  message ids, positions within the log, friendships and groups with their conversations.\<close>

theorem store_keeps_invariant:
  assumes "saved c = None" "store_inv E (rows c) (auto_id c)" "list_all submitted_ok ops"
  shows "saved (driver_run (execute_op E) ops c) = None \<and>
    store_inv E (rows (driver_run (execute_op E) ops c)) (auto_id (driver_run (execute_op E) ops c))"
  by (rule store.driver_run_keeps [OF assms])

theorem store_keeps_invariant_witness:
  "db_inv sample_env (rows (driver_run (execute_op sample_env)
     [Reply_group_join sample_reply, Accept_direct_text (sample_text 1002), Delete_friend 1001 1002]
     (sample_conn [Fine, Lost ''timeout'', Refused ''gone''])))"
  using store_keeps_invariant [OF sample_store(1,2), of
     "[Reply_group_join sample_reply, Accept_direct_text (sample_text 1002), Delete_friend 1001 1002]"
     sample_env "[Fine, Lost ''timeout'', Refused ''gone'']"]
  by (simp add: store_inv_def)

text \<open>C1: A client that repeats a direct text any number of times, each attempt cut off at any statement
  (also after COMMIT), and then gets through once, has its message in the log exactly once: the final
  answer is Success with the next sequence number, and the database is the original one extended by that
  single message.\<close>

theorem direct_retry_exactly_once:
  assumes "saved c = None" "store_inv E (rows c) (auto_id c)"
    and "direct_friends op (rows c) = Some conversation" "direct_known E op (rows c) = None"
    and "cv \<in> set (conversations (rows c))" "cv_conversationId cv = conversation"
    and "driver_execute False (execute_accept_direct_text E op)
           ((driver_run (execute_op E) (replicate k (Accept_direct_text op)) c)\<lparr>faults := []\<rparr>) = (r, c')"
  shows "\<exists>acc. r = Inr acc \<and> ac_error acc = Success \<and> ac_conversationId acc = conversation \<and>
    ac_conversationSeq acc = cv_latestSeq cv + 1 \<and>
    rows c' = append_message (direct_message E op conversation (cv_latestSeq cv + 1) (ac_messageId acc))
                (direct_states op conversation (rows c))"
proof -
  have db: "db_inv E (rows c)" and ids: "\<And>n. auto_id c \<le> n \<Longrightarrow> ids_below (rows c) n"
    using assms(2) by (auto simp: store_inv_def intro: ids_below_mono)
  note fresh = direct_fresh(1) [OF db ids assms(3-6)] and again = direct_again [OF db ids assms(3-6)]
  have op: "snd (driver_execute st (execute_op E (Accept_direct_text op)) s) =
      snd (driver_execute st (transaction (accept_direct_text_body E op) accept_handler) s)" for st s
    by (simp add: void_state execute_accept_direct_text_def)
  from attempts_once [OF accept_direct_closes accept_ids_grow(1) fresh again op assms(1) order_refl refl
      assms(7) [unfolded execute_accept_direct_text_def]]
  show ?thesis by auto
qed

theorem direct_retry_exactly_once_witness:
  "\<exists>acc. fst (driver_execute False (execute_accept_direct_text sample_env (sample_text 1002))
      ((driver_run (execute_op sample_env) (replicate 3 (Accept_direct_text (sample_text 1002)))
          (sample_conn [Fine, Fine, Refused ''gone'', Fine, Lost ''timeout'']))\<lparr>faults := []\<rparr>)) = Inr acc \<and>
    ac_error acc = Success"
  using direct_retry_exactly_once [OF sample_store(1,2), unfolded sample_store(4),
      OF sample_direct(1-4) prod.collapse [symmetric]]
  by metis

text \<open>C19: The same for a group message: after any number of interrupted attempts and one that gets through,
  the group log has the message exactly once, and the answer lists the other members.\<close>

theorem group_retry_exactly_once:
  assumes "saved c = None" "store_inv E (rows c) (auto_id c)"
    and "group_of op (rows c) = Some conversation" "group_file_ok E op (rows c)"
    and "group_known E op (rows c) = None"
    and "cv \<in> set (conversations (rows c))" "cv_conversationId cv = conversation"
    and "driver_execute False (execute_accept_group_message E op)
           ((driver_run (execute_op E) (replicate k (Accept_group_message op)) c)\<lparr>faults := []\<rparr>) = (r, c')"
  shows "\<exists>duplicate mid. r = Inr (group_accepted op (rows c) conversation duplicate mid (cv_latestSeq cv + 1)) \<and>
    rows c' = append_message (group_message E op conversation (cv_latestSeq cv + 1) mid) (rows c)"
proof -
  have db: "db_inv E (rows c)" and ids: "\<And>n. auto_id c \<le> n \<Longrightarrow> ids_below (rows c) n"
    using assms(2) by (auto simp: store_inv_def intro: ids_below_mono)
  note fresh = group_fresh(1) [OF db ids assms(3-7)] and again = group_again [OF db ids assms(3-7)]
  have op: "snd (driver_execute st (execute_op E (Accept_group_message op)) s) =
      snd (driver_execute st (transaction (accept_group_message_body E op) accept_handler) s)" for st s
    by (simp add: void_state execute_accept_group_message_def)
  from attempts_once [OF accept_group_closes accept_ids_grow(2) fresh again op assms(1) order_refl refl
      assms(8) [unfolded execute_accept_group_message_def]]
  show ?thesis by auto
qed

theorem group_retry_exactly_once_witness:
  "\<exists>duplicate mid. fst (driver_execute False (execute_accept_group_message sample_env sample_group_text)
      ((driver_run (execute_op sample_env) (replicate 2 (Accept_group_message sample_group_text))
          (sample_conn [Lost ''timeout'']))\<lparr>faults := []\<rparr>)) =
    Inr (group_accepted sample_group_text sample_db 93001 duplicate mid
      (cv_latestSeq (conversations sample_db ! 1) + 1))"
  using group_retry_exactly_once [OF sample_store(1,2), unfolded sample_store(4),
      OF sample_group(1-5) prod.collapse [symmetric]]
  by metis



text \<open>C29: A group message is accepted only from a member, the recipients of the answer are exactly the other
  members, each once, and the message is in the log under the sequence number of the answer.\<close>

theorem group_success_recipients:
  assumes "saved c = None" "store_inv E (rows c) (auto_id c)"
    and "driver_execute stopping (execute_accept_group_message E op) c = (Inr acc, c')" "ac_error acc = Success"
  shows "(gt_group_id op, gt_sender_id op) \<in> members (rows c') \<and> distinct (ac_recipientUids acc) \<and>
    set (ac_recipientUids acc) = {u. (gt_group_id op, u) \<in> members (rows c') \<and> u \<noteq> gt_sender_id op} \<and>
    (\<exists>m \<in> set (messages (rows c')). ms_messageId m = ac_messageId acc \<and>
       ms_conversationId m = ac_conversationId acc \<and> ms_conversationSeq m = ac_conversationSeq acc \<and>
       ms_senderId m = gt_sender_id op \<and> ms_content m = gt_content op)"
proof -
  let ?d = "rows c" and ?n = "auto_id c"
  have db: "db_inv E ?d" and ids: "ids_below ?d ?n" using assms(2) by (simp_all add: store_inv_def)
  have "accept_handler (RuntimeError m) l \<noteq> Inr acc" for m l
    using assms(4) accept_handler_fails [of "RuntimeError m" l acc] by auto
  note res = driver_transaction_result [OF accept_group_closes accept_ids_grow(2) assms(1)
      assms(3) [unfolded execute_accept_group_message_def] this]
  have uniq: "unique_key groupMember_key (groupMembers ?d)" using db by (simp add: db_inv_def inv_keys_def)
  have others: "distinct (other_members g u ?d)"
    "set (other_members g u ?d) = {v. (g, v) \<in> members ?d \<and> v \<noteq> u}" for g u
    using uniq by (auto simp: other_members_def unique_key_def members_def groupMember_key_def distinct_map
        inj_on_def image_iff)
  show ?thesis
  proof (cases "group_of op ?d")
    case None
    from res(1) group_outsider [OF this, of E ?n] assms(4) show ?thesis by (auto simp: tx_result_def)
  next
    case (Some k)
    obtain cv where cv: "cv \<in> set (conversations ?d)" "cv_conversationId cv = k"
      "(gt_group_id op, gt_sender_id op) \<in> members ?d"
      by (rule group_conversation_row [OF db Some])
    have ready: "group_file_ok E op ?d"
      using res(1) group_file_missing [OF Some, of E ?n] assms(4) by (force simp: tx_result_def)
    show ?thesis
    proof (cases "group_known E op ?d")
      case None
      from res group_fresh(1) [OF db ids Some ready None cv(1,2)] cv(3) others show ?thesis
        by (auto simp: tx_result_def tx_rows_def group_message_def new_message_def group_accepted_def)
    next
      case known: (Some m)
      then have "m \<in> set (messages ?d)" "ms_senderId m = gt_sender_id op"
        by (auto simp: group_known_def client_messages_def same_client_def dest: first_row_SomeD)
      with res group_repeat [OF db Some ready known, of ?n] cv(3) others assms(4) show ?thesis
        by (auto simp: tx_result_def tx_rows_def same_command_def group_accepted_def split: if_splits)
    qed
  qed
qed

theorem group_success_recipients_witness:
  "set [1002] = {u. (3001, u) \<in> members (rows (snd sample_group_run)) \<and> u \<noteq> 1001}"
  using group_success_recipients [OF sample_store(1,2) sample_group_result [unfolded sample_group_run_def]]
  by (simp add: sample_group_run_def sample_group_text_def)

text \<open>C30: Pulling history changes nothing, needs membership, returns at most 100 messages, and these are
  exactly the next messages after the cursor of the part of the log the reader may see, with has_more and
  next_seq telling truly whether and where to go on.\<close>

theorem sync_returns_next_page:
  assumes "saved c = None" "db_inv E (rows c)"
    and run: "driver_execute stopping (execute_sync_conversation E op) c = (Inr res, c')"
    and ok: "sy_error res = Success"
  shows "rows c' = rows c \<and> membership (sc_conversation_id op) (sc_uid op) (rows c) \<noteq> [] \<and>
    length (sy_messages res) \<le> 100 \<and>
    (\<exists>rest. filter (\<lambda>m. sc_after_seq op < cm_conversationSeq m)
                (visible_log E (sc_uid op) (sc_conversation_id op) (rows c)) = sy_messages res @ rest \<and>
       (sy_hasMore res \<longleftrightarrow> rest \<noteq> []) \<and>
       (sy_messages res \<noteq> [] \<longrightarrow> sy_nextSeq res = cm_conversationSeq (last (sy_messages res))))"
proof -
  let ?d = "rows c"
  note rd = driver_read [OF reads_plain(6) reads_read(6) assms(1) run [unfolded execute_sync_conversation_def]]
  obtain e s where cl: "clean (sync_conversation_script E op) (?d, auto_id c) = Inr (e, res, s)"
    using rd(2) [OF refl] by blast
  have args: "0 < sc_uid op" "0 < sc_conversation_id op" "0 \<le> sc_after_seq op"
    using cl ok by (auto simp: sync_conversation_script_def Let_def split: if_splits)
  then have mem: "membership (sc_conversation_id op) (sc_uid op) ?d \<noteq> []"
    using cl ok by (auto simp: sync_conversation_script_def Let_def new_sync_def)
  then obtain latest joined left t where
    row: "first_row (membership (sc_conversation_id op) (sc_uid op) ?d) = Some (latest, joined, left, t)"
    by (cases "first_row (membership (sc_conversation_id op) (sc_uid op) ?d)") auto
  have "sync_result E op ?d = res"
    unfolding sync_result_def using sync_member [OF assms(2) args row] cl by simp
  then have "sync_page E (sc_uid op) (sc_conversation_id op) (sc_pull_count op) ?d (sc_after_seq op) =
      (sy_messages res, sy_nextSeq res, sy_hasMore res)"
    by (cases op) (simp add: sync_page_def)
  from sync_page_member [OF _ args(3) this] have "\<exists>rest. filter (\<lambda>m. sc_after_seq op < cm_conversationSeq m)
        (visible_log E (sc_uid op) (sc_conversation_id op) ?d) = sy_messages res @ rest \<and>
      (sy_hasMore res \<longleftrightarrow> rest \<noteq> []) \<and>
      (sy_messages res \<noteq> [] \<longrightarrow> sy_nextSeq res = cm_conversationSeq (last (sy_messages res)))"
    using assms(2) args mem by (fastforce simp: may_read_def)
  moreover have "length (sy_messages res) \<le> 100"
    using sync_member [OF assms(2) args row, of "auto_id c"] cl by (auto simp: bounded_count_def)
  ultimately show ?thesis using rd(1) mem by simp
qed

theorem sync_returns_next_page_witness:
  "rows (snd sample_sync_run) = sample_db \<and> length (sy_messages (projr (fst sample_sync_run))) \<le> 100"
  using sync_returns_next_page [OF sample_store(1,3) sample_sync_ok(1) [unfolded sample_sync_run_def]]
    sample_sync_ok(2)
  by (simp add: sample_sync_run_def)

text \<open>C6: A client that pages from the start with next_seq until has_more is false gets the whole visible log,
  in order, without a gap or a repetition, for every page size; one page more than there are messages is
  enough.\<close>

theorem history_paging_complete:
  assumes "may_read E uid conversation d" "length (visible_log E uid conversation d) < fuel"
  shows "pull_all (sync_page E uid conversation count) fuel d 0 = Some (visible_log E uid conversation d)"
  by (rule history.pull_all_from_start [OF assms])

theorem history_paging_complete_witness:
  "pull_all (sync_page sample_env 1002 92001 1) 3 sample_db 0 = Some (visible_log sample_env 1002 92001 sample_db)"
proof (rule history_paging_complete)
  show "may_read sample_env 1002 92001 sample_db"
    unfolding may_read_def using sample_store(3) [of sample_env "[]"] sample_sync_reads(1) by simp
  show "length (visible_log sample_env 1002 92001 sample_db) < 3" by (rule sample_sync_reads(2))
qed



text \<open>C25: Membership of a group is taken away only by its master or by the member; then exactly that member
  goes, or, when the master leaves with the dissolve flag, the group goes with all members, applications
  and reader states; messages stay.\<close>

theorem remove_member_authorised:
  assumes "saved c = None" "db_inv E (rows c)"
    and run: "driver_execute stopping (execute_remove_group_member op) c = (r, c')"
    and changed: "rows c' \<noteq> rows c"
  shows "\<exists>g. first_row (group_rows (rm_group_id op) (rows c)) = Some g \<and>
    (rm_actor_uid op = gi_masterUid g \<or> rm_actor_uid op = rm_target_uid op) \<and>
    (rm_group_id op, rm_target_uid op) \<in> members (rows c) \<and> messages (rows c') = messages (rows c) \<and>
    (if rm_target_uid op = gi_masterUid g \<and> rm_dissolve_if_master op
     then members (rows c') = {(x, u) \<in> members (rows c). x \<noteq> rm_group_id op} \<and>
          states (rows c') = {(x, u) \<in> states (rows c). x \<noteq> gi_conversationId g} \<and>
          applies (rows c') = {(x, u) \<in> applies (rows c). x \<noteq> rm_group_id op} \<and>
          group_rows (rm_group_id op) (rows c') = []
     else members (rows c') = members (rows c) - {(rm_group_id op, rm_target_uid op)} \<and>
          states (rows c') = states (rows c) - {(gi_conversationId g, rm_target_uid op)} \<and>
          applies (rows c') = applies (rows c) \<and> groupInfo (rows c') = groupInfo (rows c))"
proof -
  obtain a n' where cl: "clean (remove_group_member_body op) (rows c, auto_id c) = Inr (Some Commit, a, rows c', n')"
    by (rule driver_transaction_changed [OF bodies_close(5) bodies_ids_grow(5) assms(1)
          run [unfolded execute_remove_group_member_def] changed])
  obtain g where g: "first_row (group_rows (rm_group_id op) (rows c)) = Some g"
    "rm_actor_uid op = gi_masterUid g \<or> rm_actor_uid op = rm_target_uid op"
    "(rm_group_id op, rm_target_uid op) \<in> members (rows c)" "rows c' = remove_outcome op g (rows c)"
    by (rule remove_commit [OF cl])
  have "group_rows gid (dissolved_db gid k d) = []" for gid k d
    by (simp add: group_rows_def dissolved_db_def delete_group_def delete_where_def)
  moreover have "groupInfo (removed_db gid k u d) = groupInfo d" for gid k u d
    by (simp add: removed_db_def delete_member_def delete_state_def)
  ultimately show ?thesis using g by (intro exI [of _ g]) (simp add: remove_outcome_def)
qed

theorem remove_member_authorised_witness:
  "\<exists>g. first_row (group_rows 3001 sample_db) = Some g \<and> (1001 = gi_masterUid g \<or> (1001 :: int) = 1002)"
  using remove_member_authorised [OF sample_store(1,3) prod.collapse [symmetric] sample_changes(1)]
  by (auto simp: sample_kick_def)

text \<open>C26: A reply to a join request changes the database only if the actor is the master and the application
  is pending; it removes the application, adds exactly the applicant when accepted, and the new member sees
  none of the earlier messages.\<close>

theorem join_needs_application:
  assumes "saved c = None" "db_inv E (rows c)"
    and run: "driver_execute stopping (execute_reply_group_join op) c = (r, c')"
    and changed: "rows c' \<noteq> rows c"
  shows "\<exists>g. reply_group op (rows c) = Some g \<and> gi_masterUid g = rp_actor_uid op \<and>
    (rp_group_id op, rp_requestor_uid op) \<in> applies (rows c) \<and>
    (rp_group_id op, rp_requestor_uid op) \<notin> applies (rows c') \<and>
    members (rows c') = members (rows c) \<union> (if rp_accept op then {(rp_group_id op, rp_requestor_uid op)} else {}) \<and>
    (rp_accept op \<longrightarrow> visible_log E (rp_requestor_uid op) (gi_conversationId g) (rows c') = [])"
proof -
  obtain a n' where cl: "clean (reply_group_join_body op) (rows c, auto_id c) = Inr (Some Commit, a, rows c', n')"
    by (rule driver_transaction_changed [OF bodies_close(4) bodies_ids_grow(4) assms(1)
          run [unfolded execute_reply_group_join_def] changed])
  obtain g where g: "reply_group op (rows c) = Some g" "gi_masterUid g = rp_actor_uid op"
    "(rp_group_id op, rp_requestor_uid op) \<in> applies (rows c)" "reply_outcome op g (rows c) a (rows c')"
    "db_inv E (rows c')"
    by (rule reply_join_commit [OF assms(2) cl])
  have rels: "members (delete_apply x u d) = members d" "applies (delete_apply x u d) = applies d - {(x, u)}"
    for x u d
    by (auto simp: rel_defs delete_apply_def delete_where_def groupApply_key_def)
  have log: "visible_log E (rp_requestor_uid op) (gi_conversationId g) (rows c') = []" if acc: "rp_accept op"
  proof -
    let ?u = "rp_requestor_uid op" and ?k = "gi_conversationId g"
    obtain cv where cv: "cv \<in> set (conversations (rows c))" "cv_conversationId cv = ?k"
      "rows c' = joined_db op ?k (cv_latestSeq cv) (rows c)"
      using g(4) acc by (auto simp: reply_outcome_def)
    have same: "conversations (rows c') = conversations (rows c)" "messages (rows c') = messages (rows c)"
      by (simp_all add: cv(3) joined_db_def delete_apply_def)
    have inv: "inv_keys E (rows c')" "inv_log (rows c')" using g(5) by (simp_all add: db_inv_def)
    have state: "new_userState ?k ?u (cv_latestSeq cv + 1) \<in> set (conversationUserStates (rows c'))"
      by (simp add: cv(3) joined_db_def)
    show ?thesis
    proof (cases "first_row (membership ?k ?u (rows c'))")
      case (Some p)
      obtain latest joined left t where p: "p = (latest, joined, left, t)" by (cases p)
      obtain s where s: "s \<in> set (conversationUserStates (rows c'))" "us_conversationId s = ?k" "us_uid s = ?u"
        "us_joinedSeq s = joined"
        by (rule membership_row [OF Some [unfolded p]])
      have "s = new_userState ?k ?u (cv_latestSeq cv + 1)"
        using s(1-3) state inv(1)
        by (auto simp: inv_keys_def unique_key_def distinct_map inj_on_def userState_key_def new_userState_def)
      then have "joined = cv_latestSeq cv + 1" using s(4) by (simp add: new_userState_def)
      moreover have "ms_conversationSeq m \<le> cv_latestSeq cv" if "m \<in> set (conv_messages ?k (rows c'))" for m
        using that inv_log_seq(2) [OF inv(2,1), of m cv] cv(1,2) same by (simp add: conv_messages_def)
      ultimately show ?thesis using Some p by (force simp: visible_log_def filter_empty_conv)
    qed (simp add: visible_log_def)
  qed
  show ?thesis
  proof (intro exI conjI)
    show "(rp_group_id op, rp_requestor_uid op) \<notin> applies (rows c')"
      "members (rows c') = members (rows c) \<union> (if rp_accept op then {(rp_group_id op, rp_requestor_uid op)} else {})"
      using g(4) by (auto simp: reply_outcome_def joined_db_def rels rel_defs groupMember_key_def
          delete_apply_def delete_where_def groupApply_key_def split: if_splits)
  qed (use g log in auto)
qed

theorem join_needs_application_witness:
  "\<exists>g. reply_group sample_reply sample_db = Some g \<and> gi_masterUid g = 1001 \<and>
    visible_log sample_env 1003 (gi_conversationId g)
      (rows (snd (driver_execute False (execute_reply_group_join sample_reply) (sample_conn [])))) = []"
  using join_needs_application [OF sample_store(1,3) prod.collapse [symmetric] sample_changes(2)]
  by (auto simp: sample_reply_def)

text \<open>C31: Storing a friendship makes both friends reach one another: a direct text in either direction finds
  the conversation that was created with the friendship.\<close>

theorem friendship_opens_conversation:
  assumes "saved c = None" "db_inv E (rows c)"
    and run: "driver_execute stopping (execute_insert_friend E' f) c = (Inr x, c')"
    and ids: "0 \<le> frd_uidA f" "frd_uidA f < 2 ^ 63" "0 \<le> frd_uidB f" "frd_uidB f < 2 ^ 63"
      "0 \<le> frd_friendshipId f" "frd_friendshipId f < 2 ^ 63" "0 \<le> frd_conversationId f" "frd_conversationId f < 2 ^ 63"
    and pair: "{dt_sender_id op, dt_receiver_id op} = {frd_uidA f, frd_uidB f}"
  shows "direct_friends op (rows c') = Some (frd_conversationId f)"
proof -
  let ?b = "insert_friend_body E' f"
  have "rethrow e l \<noteq> Inr x" for e l by (simp add: rethrow_def)
  note res = driver_transaction_result [OF bodies_close(1) bodies_ids_grow(1) assms(1)
      run [unfolded execute_insert_friend_def] this]
  from res(1) obtain n' where cl: "clean ?b (rows c, auto_id c) = Inr (Some Commit, x, rows c', n')"
    using res(2) by (auto simp: tx_result_def tx_rows_def insert_friend_body_def Let_def split: sum.splits)
  have inv: "inv_keys E (rows c')" using insert_friend_commit [OF assms(2) cl] by (simp add: db_inv_def)
  obtain fr where fr: "fr \<in> set (friends (rows c'))" "fr_friendshipId fr = frd_friendshipId f"
    "fr_uidA fr = min (frd_uidA f) (frd_uidB f)" "fr_uidB fr = max (frd_uidA f) (frd_uidB f)"
    using insert_friend_rows(1) [OF cl ids] by blast
  obtain cv where cv: "cv \<in> set (conversations (rows c'))" "cv_conversationId cv = frd_conversationId f"
    "cv_type cv = 1" "cv_businessId cv = frd_friendshipId f"
    using insert_friend_rows(2) [OF cl ids] by blast
  have ends: "min (dt_sender_id op) (dt_receiver_id op) = fr_uidA fr" "max (dt_sender_id op) (dt_receiver_id op) = fr_uidB fr"
    using pair fr(3,4) by (auto simp: doubleton_eq_iff min.commute max.commute)
  have "frd_conversationId f \<in> set (direct_conversation (fr_uidA fr) (fr_uidB fr) (rows c'))"
    using fr(1,2) cv by (force simp: direct_conversation_def)
  then obtain k where k: "direct_friends op (rows c') = Some k"
    unfolding direct_friends_def ends by (cases "first_row (direct_conversation (fr_uidA fr) (fr_uidB fr) (rows c'))") auto
  obtain cv' fr' where other: "cv' \<in> set (conversations (rows c'))" "cv_conversationId cv' = k" "cv_type cv' = 1"
    "fr' \<in> set (friends (rows c'))" "fr_uidA fr' = fr_uidA fr" "fr_uidB fr' = fr_uidB fr"
    "cv_businessId cv' = fr_friendshipId fr'"
    using k unfolding direct_friends_def ends by (rule direct_conversation_row)
  have "fr' = fr" using inv fr(1) other(4-6)
    by (auto simp: inv_keys_def unique_key_def distinct_map inj_on_def friend_pair_def)
  then have "cv' = cv" using inv cv other fr(2)
    by (auto simp: inv_keys_def unique_key_def distinct_map inj_on_def conversation_business_def)
  with k cv(2) other(2) show ?thesis by simp
qed

theorem friendship_opens_conversation_witness:
  "direct_friends (sample_text 1003) (rows (snd sample_friend_run)) = Some 92002"
  using friendship_opens_conversation [OF sample_store(1,3) sample_friend_result [unfolded sample_friend_run_def],
      where op = "sample_text 1003"]
  by (simp add: sample_friend_def sample_text_def sample_friend_run_def insert_commute)

end
