(* ===== verification/Message_Properties.thy ===== *)
theory Message_Properties
  imports Message_Service Store_Properties
begin

text \<open>
  What the Message service promises as a whole: its requests, their answers and
  the pushes they cause, on top of the store, the driver and the transport.
\<close>

section \<open>Frames a program adds to the streams\<close>

definition frames_added :: "(nat \<Rightarrow> nat \<Rightarrow> MessageToGatewayFrame \<Rightarrow> bool) \<Rightarrow> world \<Rightarrow> world \<Rightarrow> bool" where
  "frames_added P w w' =
     (\<forall>shard t. \<exists>fs. sm_accepted (sv_objects (w_transports w' shard) t) =
        sm_accepted (sv_objects (w_transports w shard) t) @ fs \<and> (\<forall>f \<in> set fs. P shard t f))"

lemma frames_same: "w_transports w' = w_transports w \<Longrightarrow> frames_added P w w'"
  by (simp add: frames_added_def)

lemma frames_trans:
  assumes "frames_added P u v" "frames_added P v w"
  shows "frames_added P u w"
  unfolding frames_added_def
proof (intro allI)
  fix shard t
  from assms obtain fs gs where
    "sm_accepted (sv_objects (w_transports v shard) t) = sm_accepted (sv_objects (w_transports u shard) t) @ fs"
    "sm_accepted (sv_objects (w_transports w shard) t) = sm_accepted (sv_objects (w_transports v shard) t) @ gs"
    "\<forall>f \<in> set fs. P shard t f" "\<forall>f \<in> set gs. P shard t f"
    unfolding frames_added_def by metis
  then show "\<exists>fs. sm_accepted (sv_objects (w_transports w shard) t) =
      sm_accepted (sv_objects (w_transports u shard) t) @ fs \<and> (\<forall>f \<in> set fs. P shard t f)"
    by (intro exI [of _ "fs @ gs"]) auto
qed

interpretation frames: request_relation "frames_added P" E for P E
proof
  show "frames_added P u v \<Longrightarrow> frames_added P v w \<Longrightarrow> frames_added P u w" for u v w by (rule frames_trans)
  show "next_slot w = (s, w1) \<Longrightarrow> frames_added P w (enter_slot E s w1)" for w s w1
    by (rule frames_same) (auto simp: enter_slot_def next_slot_def split: list.splits)
qed (auto intro: frames_same simp: quiet_def)

lemma enqueue_accepted:
  "enqueue byte_size u frame sv = (r, sv') \<Longrightarrow>
   \<exists>fs. sm_accepted (sv_objects sv' t) = sm_accepted (sv_objects sv t) @ fs \<and> (\<forall>f \<in> set fs. f = frame \<and> t = u)"
  by (erule enqueue_cases) auto

lemma stop_stream_accepted [simp]: "sm_accepted (sv_objects (stop_stream u sv) t) = sm_accepted (sv_objects sv t)"
  by (simp add: stop_stream_def)

lemma forward_accepted:
  assumes "transport_forward byte_size lease envelope sv = (r, sv')"
  shows "\<exists>fs. sm_accepted (sv_objects sv' t) = sm_accepted (sv_objects sv t) @ fs \<and>
    (\<forall>f \<in> set fs. f = Client_forward envelope \<and>
       sv_registered sv (ls_gateway_id lease, ls_instance_id lease, ls_shard_id lease) = Some t)"
proof (cases "\<not> sv_stopping sv \<and> (\<exists>u. sv_registered sv (ls_gateway_id lease, ls_instance_id lease, ls_shard_id lease) = Some u \<and>
    u \<in> set (sv_streams sv))")
  case True
  then obtain u where u: "\<not> sv_stopping sv"
    "sv_registered sv (ls_gateway_id lease, ls_instance_id lease, ls_shard_id lease) = Some u" "u \<in> set (sv_streams sv)" by blast
  obtain r1 s1 where e: "enqueue byte_size u (Client_forward envelope) sv = (r1, s1)" by fastforce
  with assms u have "sv' = s1"
    by (cases r1) (auto simp: transport_forward_def stream_at_def bind_def catch_def ret_def raise_def split: exn.splits)
  with enqueue_accepted [OF e, of t] u(2) show ?thesis by auto
next
  case False
  with assms have "sv' = sv"
    by (auto simp: transport_forward_def stream_at_def bind_def catch_def ret_def raise_def
        split: if_splits option.splits exn.splits)
  then show ?thesis by simp
qed

lemma reply_accepted:
  assumes "transport_reply byte_size route frame sv = (r, sv')"
  shows "\<exists>fs. sm_accepted (sv_objects sv' t) = sm_accepted (sv_objects sv t) @ fs \<and> length fs \<le> 1 \<and>
    (\<forall>f \<in> set fs. f = frame \<and> t = rt_token route)"
proof (cases "\<not> sv_stopping sv \<and> sv_registered sv (route_key route) = Some (rt_token route) \<and>
    rt_token route \<in> set (sv_streams sv)")
  case True
  obtain r1 s1 where e: "enqueue byte_size (rt_token route) frame sv = (r1, s1)" by fastforce
  from e show ?thesis
  proof (cases rule: enqueue_cases)
    case (refused x)
    with assms True e have "sv' = sv \<or> sv' = stop_stream (rt_token route) sv"
      by (auto simp: transport_reply_def stream_at_def bind_def catch_def ret_def)
    then show ?thesis by auto
  next
    case accepted
    with assms True e have "sv' = s1"
      by (simp add: transport_reply_def stream_at_def bind_def catch_def ret_def)
    with accepted(5) show ?thesis by auto
  qed
next
  case False
  with assms have "sv' = sv"
    by (auto simp: transport_reply_def stream_at_def bind_def catch_def ret_def raise_def
        split: if_splits option.splits exn.splits)
  then show ?thesis by simp
qed

lemma frames_forward:
  assumes "\<And>t. P (owner_shard (ls_gateway_id lease) (mo_shards options)) t (Client_forward envelope)"
  shows "within (frames_added P) (service_forward S options lease envelope)"
  unfolding within_def
proof (intro allI impI)
  fix w r w' assume run: "service_forward S options lease envelope w = (r, w')"
  let ?shard = "owner_shard (ls_gateway_id lease) (mo_shards options)"
  obtain r1 sv where f: "transport_forward (io_byte_size S) lease envelope (w_transports w ?shard) = (r1, sv)" by fastforce
  with run have w': "w' = w\<lparr>w_transports := (w_transports w)(?shard := sv)\<rparr>"
    by (simp add: service_forward_def on_transport_def)
  show "frames_added P w w'" unfolding frames_added_def
  proof (intro allI)
    fix shard t
    show "\<exists>fs. sm_accepted (sv_objects (w_transports w' shard) t) =
        sm_accepted (sv_objects (w_transports w shard) t) @ fs \<and> (\<forall>f \<in> set fs. P shard t f)"
      using forward_accepted [OF f, of t] assms w' by (cases "shard = ?shard") auto
  qed
qed


text \<open>A frame that a delivery may cause: the push for one current session of its recipient.\<close>

definition pushed :: "env \<Rightarrow> services \<Rightarrow> message_options \<Rightarrow> delivery list \<Rightarrow> nat \<Rightarrow> MessageToGatewayFrame \<Rightarrow> bool" where
  "pushed E S options deliveries shard f =
     (\<exists>d \<in> set deliveries. \<exists>lease envelope u v. f = Client_forward envelope \<and>
        submit E (get_session S options (dl_recipient_uid d) (ls_device_id lease)) u = (Inr lease, v) \<and>
        shard = owner_shard (ls_gateway_id lease) (mo_shards options) \<and>
        ls_device_id lease \<noteq> dl_excluded_device_id d \<and>
        fwd_recipient_uid envelope = dl_recipient_uid d \<and> fwd_packet envelope = io_serialize S (dl_packet d) \<and>
        fwd_recipient_device_id envelope = ls_device_id lease \<and>
        fwd_expected_connection_id envelope = ls_connection_id lease \<and>
        fwd_expected_connection_generation envelope = ls_generation lease)"

lemma frames_deliver_lease:
  assumes "d \<in> set ds" "fwd_recipient_uid envelope = dl_recipient_uid d" "fwd_packet envelope = io_serialize S (dl_packet d)"
  shows "within (frames_added (\<lambda>shard t. pushed E S options ds shard)) (deliver_lease E S options d envelope lease)"
proof -
  have "within (frames_added (\<lambda>shard t. pushed E S options ds shard))
      (service_forward S options lease (target_envelope envelope lease))"
    if "ls_device_id lease \<noteq> dl_excluded_device_id d"
      "submit E (get_session S options (dl_recipient_uid d) (ls_device_id lease)) w = (Inr lease, w1)" for w w1
    using assms that by (intro frames_forward) (auto simp: pushed_def target_envelope_def)
  then show ?thesis unfolding deliver_lease_def
    by (intro frames.within_if frames.within_ret frames.within_bind_run frames.within_submit frames.within_calls) auto
qed

lemma frames_deliver:
  "within (frames_added (\<lambda>shard t. pushed E S options deliveries shard)) (deliver E S options cx deliveries)"
proof -
  let ?R = "frames_added (\<lambda>shard t. pushed E S options deliveries shard)"
  have one: "within ?R (deliver_one E S options cx i d)" if "d \<in> set deliveries" for i d
    unfolding deliver_one_def Let_def
    by (intro frames.within_intros frames.within_submit frames.within_calls frames_deliver_lease that)
      (simp_all add: make_forward_def Let_def)
  have "within ?R (fold_prog (\<lambda>(i, d) _. deliver_one E S options cx i d) xs u)"
    if "\<And>i d. (i, d) \<in> set xs \<Longrightarrow> d \<in> set deliveries" for xs u
    using that
  proof (induction xs arbitrary: u)
    case (Cons x xs)
    obtain i d where x: "x = (i, d)" by fastforce
    with Cons.prems [of i d] have d: "d \<in> set deliveries" by simp
    have "within ?R (fold_prog (\<lambda>(i, d) _. deliver_one E S options cx i d) xs v)" for v
      by (rule Cons.IH) (use Cons.prems in auto)
    with one [OF d] show ?case by (simp add: x frames.within_bind)
  qed (auto intro: frames.within_intros)
  from this [of "enumerate 0 deliveries" "()"] show ?thesis
    by (auto simp: deliver_def in_set_enumerate_eq)
qed

lemma frames_addedD:
  "frames_added P w w' \<Longrightarrow>
   \<exists>fs. sm_accepted (sv_objects (w_transports w' shard) t) = sm_accepted (sv_objects (w_transports w shard) t) @ fs \<and>
     (\<forall>f \<in> set fs. P shard t f)"
  by (simp add: frames_added_def)

lemma reply_frames:
  assumes "service_reply S options cx packet w = (r, w')"
  shows "\<exists>fs. sm_accepted (sv_objects (w_transports w' shard) t) = sm_accepted (sv_objects (w_transports w shard) t) @ fs \<and>
    length fs \<le> (if shard = mo_self options \<and> t = rt_token (cx_origin cx) then 1 else 0) \<and>
    (\<forall>f \<in> set fs. \<exists>res. f = Command_result res \<and> res_request_id res = cmd_request_id (cx_command cx))"
proof -
  let ?res = "\<lparr>res_request_id = cmd_request_id (cx_command cx), res_error = TcpPacketError packet,
    res_retryable = retryable (TcpPacketError packet), res_packet = io_serialize S packet\<rparr>"
  obtain r1 sv where f: "transport_reply (io_byte_size S) (cx_origin cx) (Command_result ?res)
      (w_transports w (mo_self options)) = (r1, sv)" by fastforce
  with assms have w': "w' = w\<lparr>w_transports := (w_transports w)(mo_self options := sv)\<rparr>"
    by (auto simp: service_reply_def on_transport_def bind_def ret_def split: sum.splits)
  show ?thesis
  proof (cases "shard = mo_self options")
    case True
    obtain fs where fs: "sm_accepted (sv_objects sv t) = sm_accepted (sv_objects (w_transports w (mo_self options)) t) @ fs"
      "length fs \<le> 1" "\<forall>g \<in> set fs. g = Command_result ?res \<and> t = rt_token (cx_origin cx)"
      using reply_accepted [OF f, of t] by blast
    then have "t \<noteq> rt_token (cx_origin cx) \<longrightarrow> fs = []" by (cases fs) auto
    with fs True show ?thesis by (intro exI [of _ fs]) (auto simp: w')
  qed (simp add: w')
qed

lemma process_phases:
  assumes "route_for E S options operation = Some handle" "service_process E S options handle cx w = (r, w')"
  obtains w1 packet deliveries r2 w2 where
    "catch (run_request E S options handle cx) (\<lambda>e. ret (failure_packet e, [])) w = (Inr (packet, deliveries), w1)"
    "frames_added (\<lambda>_ _ _. False) w w1" "service_reply S options cx packet w1 = (r2, w2)"
    "frames_added (\<lambda>shard t. pushed E S options deliveries shard) w2 w'"
    "TcpPacketError packet = code Success \<or> w' = w2"
proof -
  let ?run = "catch (run_request E S options handle cx) (\<lambda>e. ret (failure_packet e, []))"
  obtain r1 w1 where run: "?run w = (r1, w1)" by fastforce
  then have "\<not> isl r1" by (auto simp: catch_def ret_def split: prod.splits sum.splits)
  then obtain packet deliveries where r1: "r1 = Inr (packet, deliveries)" by (cases r1) auto
  obtain r2 w2 where reply: "service_reply S options cx packet w1 = (r2, w2)" by fastforce
  let ?rest = "if TcpPacketError packet = code Success
    then catch (deliver E S options cx deliveries) (\<lambda>_. ret ()) else ret ()"
  have tail: "w' = (case r2 of Inl _ \<Rightarrow> w2 | Inr _ \<Rightarrow> snd (?rest w2))"
    using assms(2) run r1 reply by (auto simp: service_process_def bind_def split: sum.splits)
  have "within (frames_added (\<lambda>shard t. pushed E S options deliveries shard)) ?rest"
    by (intro frames.within_intros frames_deliver)
  then have "frames_added (\<lambda>shard t. pushed E S options deliveries shard) w2 w'"
    using tail frames.step_refl by (auto simp: within_snd split: sum.splits)
  moreover have "TcpPacketError packet = code Success \<or> w' = w2"
    using tail by (auto simp: ret_def split: sum.splits)
  moreover have "within (frames_added (\<lambda>_ _ _. False)) ?run"
    by (intro frames.within_intros frames.run_request_within [OF assms(1)])
  from withinD [OF this run] have "frames_added (\<lambda>_ _ _. False) w w1" .
  ultimately show thesis using that run r1 reply by blast
qed

fun is_result :: "MessageToGatewayFrame \<Rightarrow> bool" where
  "is_result (Command_result _) = True"
| "is_result _ = False"

lemma process_frames:
  assumes "route_for E S options operation = Some handle" "service_process E S options handle cx w = (r, w')"
  shows "\<exists>fs. sm_accepted (sv_objects (w_transports w' shard) t) = sm_accepted (sv_objects (w_transports w shard) t) @ fs \<and>
    length (filter is_result fs) \<le> (if shard = mo_self options \<and> t = rt_token (cx_origin cx) then 1 else 0) \<and>
    (\<forall>f \<in> set fs. (\<exists>res. f = Command_result res \<and> res_request_id res = cmd_request_id (cx_command cx)) \<or>
       (\<exists>envelope. f = Client_forward envelope))"
proof -
  let ?at = "\<lambda>v. sm_accepted (sv_objects (w_transports v shard) t)"
  obtain w1 packet deliveries r2 w2 where p: "frames_added (\<lambda>_ _ _. False) w w1"
    "service_reply S options cx packet w1 = (r2, w2)"
    "frames_added (\<lambda>shard t. pushed E S options deliveries shard) w2 w'"
    by (rule process_phases [OF assms])
  from p(1) have a: "?at w1 = ?at w" by (fastforce simp: frames_added_def)
  from reply_frames [OF p(2), of shard t] obtain fs where b: "?at w2 = ?at w1 @ fs"
    "length fs \<le> (if shard = mo_self options \<and> t = rt_token (cx_origin cx) then 1 else 0)"
    "\<forall>f \<in> set fs. \<exists>res. f = Command_result res \<and> res_request_id res = cmd_request_id (cx_command cx)" by blast
  from p(3) obtain gs where c: "?at w' = ?at w2 @ gs" "\<forall>g \<in> set gs. pushed E S options deliveries shard g"
    using frames_addedD [OF p(3), of shard t] by blast
  then have pushes: "\<forall>g \<in> set gs. \<exists>envelope. g = Client_forward envelope" by (auto simp: pushed_def)
  then have "filter is_result gs = []" by (auto simp: filter_empty_conv)
  then have "length (filter is_result (fs @ gs)) \<le> (if shard = mo_self options \<and> t = rt_token (cx_origin cx) then 1 else 0)"
    using b(2) le_trans [OF length_filter_le] by (simp only: filter_append append_Nil2) blast
  with a b c pushes show ?thesis by (intro exI [of _ "fs @ gs"]) auto
qed

lemma generate_id_result:
  assumes "generate_id S options kind w = (Inr a, w')"
  obtains m n ip port h where "a = id_layout (io_clock S m - 1672531200000) (mo_machine_id options) (hr_integer h)"
    "io_redis S n ip port [''INCR'', id_prefix kind @ '':'' @ to_string (io_clock S m - 1672531200000)] = Some h"
    "hr_type h = REDIS_REPLY_INTEGER" "0 < hr_integer h" "hr_integer h \<le> 4095" "w_tick w \<le> n" "n < w_tick w'"
proof -
  let ?made = "\<lambda>w. \<exists>m n ip port h. a = id_layout (io_clock S m - 1672531200000) (mo_machine_id options) (hr_integer h) \<and>
    io_redis S n ip port [''INCR'', id_prefix kind @ '':'' @ to_string (io_clock S m - 1672531200000)] = Some h \<and>
    hr_type h = REDIS_REPLY_INTEGER \<and> 0 < hr_integer h \<and> hr_integer h \<le> 4095 \<and> w_tick w \<le> n \<and> n < w_tick w'"
  have turn: "?made w" if "generate_id_turn S options kind retry w = (Inr a, w')"
    "\<And>v. w_tick w \<le> w_tick v \<Longrightarrow> retry v = (Inr a, w') \<Longrightarrow> ?made v" for w retry
  proof -
    from that(1) obtain reply w2 where
      incr: "redis_command S options [''INCR'', id_prefix kind @ '':'' @ to_string (io_clock S (w_tick w) - 1672531200000)]
          (w\<lparr>w_tick := Suc (w_tick w)\<rparr>) = (Inr reply, w2)" "rd_type reply = REDIS_REPLY_INTEGER" "0 < rd_integer reply"
      and rest: "(if rd_integer reply \<le> 4095
         then ret (id_layout (io_clock S (w_tick w) - 1672531200000) (mo_machine_id options) (rd_integer reply)) else retry) w2 =
        (Inr a, w')"
      unfolding generate_id_turn_def by (auto simp: ask_def require_reply_Inr elim!: bind_Inr)
    have "within quiet (redis_command S options
        [''INCR'', id_prefix kind @ '':'' @ to_string (io_clock S (w_tick w) - 1672531200000)])" by blast
    from withinD [OF this incr(1)] have later: "w_tick w \<le> w_tick w2" by (simp add: quiet_def)
    show ?thesis
    proof (cases "rd_integer reply \<le> 4095")
      case True
      obtain n ip port h where "Suc (w_tick w) \<le> n" "n < w_tick w2" "io_redis S n ip port
          [''INCR'', id_prefix kind @ '':'' @ to_string (io_clock S (w_tick w) - 1672531200000)] = Some h"
        "rd_type reply = hr_type h" "rd_integer reply = hr_integer h"
        by (rule redis_command_asked [OF incr(1)]) simp
      note asked = this
      from True rest have "a = id_layout (io_clock S (w_tick w) - 1672531200000) (mo_machine_id options) (hr_integer h)"
        "w' = w2" using asked(5) by (simp_all add: ret_def)
      moreover have "hr_type h = REDIS_REPLY_INTEGER" "0 < hr_integer h" "hr_integer h \<le> 4095" "w_tick w \<le> n"
        using asked True incr(2,3) by simp_all
      ultimately show ?thesis using asked(2,3) by blast
    next
      case False
      with rest that(2) [OF later] later show ?thesis by (auto intro: order_trans)
    qed
  qed
  have "?made v" if "generate_id_loop S options kind sleeps v = (Inr a, w')" for sleeps v
    using that
  proof (induction sleeps arbitrary: v)
    case 0
    show ?case by (rule turn [OF 0 [simplified]]) simp
  next
    case (Suc sleeps)
    show ?case by (rule turn [OF Suc.prems [simplified]]) (rule Suc.IH)
  qed
  moreover have "generate_id_loop S options kind (w_sleeps w) w = (Inr a, w')"
    using assms by (auto simp: generate_id_def check_running_def split: if_splits elim!: bind_Inr)
  ultimately have "?made w" by blast
  with that show thesis by blast
qed

text \<open>C18: Ids never repeat: with a clock between 2023 and 2092 and a Redis whose INCR answers grow, two ids of one
  kind that are given out one after the other, or by nodes with different machine ids, differ.\<close>

theorem ids_unique:
  assumes "generate_id S options kind w = (Inr a, w1)" "generate_id S options' kind w2 = (Inr b, w3)"
    and "mo_machine_id options \<noteq> mo_machine_id options' \<or> w_tick w1 \<le> w_tick w2"
    and incr: "\<And>n n' ip ip' port port' key h h'. n < n' \<Longrightarrow> io_redis S n ip port [''INCR'', key] = Some h \<Longrightarrow>
      io_redis S n' ip' port' [''INCR'', key] = Some h' \<Longrightarrow> hr_type h = REDIS_REPLY_INTEGER \<Longrightarrow>
      hr_type h' = REDIS_REPLY_INTEGER \<Longrightarrow> hr_integer h < hr_integer h'"
    and clock: "\<And>n. 1672531200000 \<le> io_clock S n \<and> io_clock S n < 1672531200000 + 2 ^ 41"
    and ids: "mo_machine_id options \<in> {0..1023}" "mo_machine_id options' \<in> {0..1023}"
  shows "a \<noteq> b"
proof
  assume eq: "a = b"
  obtain m n ip port h where a: "a = id_layout (io_clock S m - 1672531200000) (mo_machine_id options) (hr_integer h)"
    "io_redis S n ip port [''INCR'', id_prefix kind @ '':'' @ to_string (io_clock S m - 1672531200000)] = Some h"
    "hr_type h = REDIS_REPLY_INTEGER" "0 < hr_integer h" "hr_integer h \<le> 4095" "n < w_tick w1"
    by (rule generate_id_result [OF assms(1)])
  obtain m' n' ip' port' h' where b: "b = id_layout (io_clock S m' - 1672531200000) (mo_machine_id options') (hr_integer h')"
    "io_redis S n' ip' port' [''INCR'', id_prefix kind @ '':'' @ to_string (io_clock S m' - 1672531200000)] = Some h'"
    "hr_type h' = REDIS_REPLY_INTEGER" "0 < hr_integer h'" "hr_integer h' \<le> 4095" "w_tick w2 \<le> n'"
    by (rule generate_id_result [OF assms(2)])
  have same: "io_clock S m - 1672531200000 = io_clock S m' - 1672531200000 \<and>
      mo_machine_id options = mo_machine_id options' \<and> hr_integer h = hr_integer h'"
    by (rule id_layout_inj) (use clock [of m] clock [of m'] ids a b eq in auto)
  with assms(3) a(6) b(6) have "n < n'" by simp
  from incr [OF this a(2) _ a(3) b(3)] b(2) same show False by simp
qed

section \<open>A sample node\<close>

text \<open>A Redis that answers every command, a clock that moves with the calls, and one gateway.\<close>

definition redis_ok :: redisReply where
  "redis_ok = \<lparr>hr_type = REDIS_REPLY_STATUS, hr_integer = 0, hr_str = Some ''OK'', hr_element = []\<rparr>"

definition sample_redis :: "nat \<Rightarrow> string \<Rightarrow> int \<Rightarrow> string list \<Rightarrow> redisReply option" where
  "sample_redis n ip port arguments = Some
     (if hd arguments = ''SENTINEL''
      then redis_ok\<lparr>hr_type := REDIS_REPLY_ARRAY, hr_element := [Some ''redis'', Some ''6379'']\<rparr>
      else if hd arguments = ''SMEMBERS''
      then redis_ok\<lparr>hr_type := REDIS_REPLY_ARRAY, hr_element := [Some ''phone'']\<rparr>
      else if hd arguments = ''GET'' then redis_ok\<lparr>hr_type := REDIS_REPLY_STRING, hr_str := Some ''lease''\<rparr>
      else if hd arguments = ''INCR'' then redis_ok\<lparr>hr_type := REDIS_REPLY_INTEGER, hr_integer := int n + 1\<rparr>
      else redis_ok)"

definition sample_lease :: SessionLease where
  "sample_lease = \<lparr>ls_device_id = ''phone'', ls_gateway_id = ''g'', ls_instance_id = ''i'', ls_connection_id = ''c'',
     ls_generation = 1, ls_shard_id = 0\<rparr>"

definition sample_request :: Packet where
  "sample_request = new_packet (Request (Send_text_request \<lparr>tq_to = 1002, tq_content = ''hi'', tq_client_message_id = ''m-1'', tq_conversation_id = 0\<rparr>))"

definition sample_services :: services where
  "sample_services = \<lparr>io_resolve = (\<lambda>_ host. Inr host), io_connect = (\<lambda>_ _ _. Inr ()), io_redis = sample_redis,
     io_clock = (\<lambda>n. 1700000000000), io_datetime = (\<lambda>_. ''2026-05-20 00:00:00''),
     io_expiry = (\<lambda>_. ''2026-06-20 00:00:00''),
     io_lease = (\<lambda>s. Some sample_lease), io_upload = (\<lambda>_ _. Inl ''unavailable''), io_download = (\<lambda>_ _. Inl ''unavailable''),
     io_parse = (\<lambda>_. Some sample_request), io_serialize = (\<lambda>_. ''packet''), io_byte_size = (\<lambda>_. 10),
     io_request_size = (\<lambda>_. 100)\<rparr>"

definition sample_options :: message_options where
  "sample_options = \<lparr>mo_shards = 1, mo_self = 0, mo_sentinels = [\<lparr>ep_host = ''sentinel'', ep_port = 26379\<rparr>],
     mo_master_name = ''master'', mo_redis_password = '''', mo_sentinel_password = '''', mo_machine_id = 1\<rparr>"

definition sample_world :: world where
  "sample_world = \<lparr>w_sql = sample_conn [], w_slots = [], w_tick = 0, w_redis = None, w_sleeps = 0, w_stopping = False,
     w_requests = \<lparr>b_count = 10, b_bytes = 1000\<rparr>, w_transports = (\<lambda>_. sample_server1)\<rparr>"

definition sample_origin :: stream_route where
  "sample_origin = \<lparr>rt_gateway_id = ''g'', rt_instance_id = ''i'', rt_shard_id = 0, rt_token = 1\<rparr>"

definition sample_send :: CommandEnvelope where
  "sample_send = \<lparr>cmd_request_id = ''q'', cmd_actor_uid = 1001, cmd_connection_id = ''c'', cmd_connection_generation = 1,
     cmd_operation = OP_SEND_TEXT, cmd_conversation_id = 0, cmd_packet = [], cmd_actor_device_id = ''phone''\<rparr>"

definition sample_context :: request_context where
  "sample_context = \<lparr>cx_origin = sample_origin, cx_command = sample_send, cx_packet = sample_request, cx_deliveries = []\<rparr>"

lemma stoul_sample: "stoul ''6379'' = Inr 6379"
  by (simp add: stoul_def is_space_def is_digit_def digits_value_def Let_def)

lemma sample_redis_command:
  assumes "w_stopping w = False" "hd arguments \<noteq> ''SENTINEL''"
    "w_redis w = None \<or> w_redis w = Some \<lparr>rl_host = ''redis'', rl_port = 6379, rl_ip = ''redis''\<rparr>"
  shows "redis_command sample_services sample_options arguments w =
    (let n = w_tick w + (if w_redis w = None then 5 else 3) in
     (completed (sample_redis n ''redis'' 6379 arguments),
      w\<lparr>w_tick := Suc n, w_redis := Some \<lparr>rl_host = ''redis'', rl_port = 6379, rl_ip = ''redis''\<rparr>\<rparr>))"
proof -
  have "ask_sentinel sample_services sample_options \<lparr>ep_host = ''sentinel'', ep_port = 26379\<rparr> v =
      (Inr \<lparr>ep_host = ''redis'', ep_port = 6379\<rparr>, v\<lparr>w_tick := w_tick v + 3\<rparr>)" if "w_stopping v = False" for v
    using that by (simp add: ask_sentinel_def bind_def await_def check_running_def redis_call_def sample_services_def
      sample_options_def sample_redis_def redis_ok_def completed_def require_reply_def ret_def stoul_sample)
  then have sentinel: "discover_redis_master sample_services sample_options (mo_sentinels sample_options) e w =
      (Inr \<lparr>ep_host = ''redis'', ep_port = 6379\<rparr>, w\<lparr>w_tick := w_tick w + 3\<rparr>)" for e
    using assms(1) by (simp add: sample_options_def bind_def check_running_def catch_def)
  have link: "master_link sample_services sample_options \<lparr>ep_host = ''redis'', ep_port = 6379\<rparr> (w\<lparr>w_tick := w_tick w + 3\<rparr>) =
      (Inr \<lparr>rl_host = ''redis'', rl_port = 6379, rl_ip = ''redis''\<rparr>,
       w\<lparr>w_tick := w_tick w + (if w_redis w = None then 5 else 3),
         w_redis := Some \<lparr>rl_host = ''redis'', rl_port = 6379, rl_ip = ''redis''\<rparr>\<rparr>)"
    using assms(1,3) by (auto simp: master_link_def connect_redis_def bind_def await_def check_running_def
        sample_services_def sample_options_def ret_def)
  have ok: "\<exists>r. completed (sample_redis n ''redis'' 6379 arguments) = Inr r \<and> rd_type r \<noteq> REDIS_REPLY_ERROR" for n
    by (simp add: completed_def sample_redis_def redis_ok_def)
  show ?thesis
    using assms(1) sentinel link ok [of "w_tick w + (if w_redis w = None then 5 else 3)"]
    by (auto simp: redis_command_def bind_def check_running_def catch_def redis_call_def await_def require_reply_def
        ret_def sample_services_def Let_def)
qed

lemma sample_session:
  assumes "w_stopping w = False" "w_slots w = []"
    "w_redis w = None \<or> w_redis w = Some \<lparr>rl_host = ''redis'', rl_port = 6379, rl_ip = ''redis''\<rparr>"
  shows "submit E (get_session sample_services sample_options uid device) w =
    (Inr sample_lease, w\<lparr>w_tick := w_tick w + (if w_redis w = None then 6 else 4),
       w_redis := Some \<lparr>rl_host = ''redis'', rl_port = 6379, rl_ip = ''redis''\<rparr>\<rparr>)"
proof -
  have "enter_slot E free_slot w = w" using assms(1) by (simp add: enter_slot_def free_slot_def)
  then show ?thesis using assms
    by (simp add: submit_def next_slot_def get_session_def session_def bind_def check_running_def sample_redis_command
        Let_def completed_def sample_redis_def redis_ok_def require_reply_def ret_def free_slot_def) (auto simp: sample_services_def ret_def add.commute)
qed

lemma sample_id:
  assumes "w_stopping w = False" "w_tick w < 4000"
    "w_redis w = None \<or> w_redis w = Some \<lparr>rl_host = ''redis'', rl_port = 6379, rl_ip = ''redis''\<rparr>"
  shows "\<exists>a w'. generate_id sample_services sample_options kind w = (Inr a, w') \<and> w_tick w' < w_tick w + 10 \<and>
    w_stopping w' = False \<and> w_redis w' = Some \<lparr>rl_host = ''redis'', rl_port = 6379, rl_ip = ''redis''\<rparr>"
proof -
  have "generate_id_turn sample_services sample_options kind retry w =
      (let n = w_tick w + (if w_redis w = None then 6 else 4) in
       (Inr (id_layout 27468800000 1 (int n + 1)),
        w\<lparr>w_tick := Suc n, w_redis := Some \<lparr>rl_host = ''redis'', rl_port = 6379, rl_ip = ''redis''\<rparr>\<rparr>))" for retry
    using assms by (simp add: generate_id_turn_def bind_def ask_def sample_redis_command completed_def sample_redis_def
        redis_ok_def require_reply_def ret_def Let_def) (simp add: sample_services_def sample_options_def)
  then have "generate_id_loop sample_services sample_options kind sleeps w =
      (let n = w_tick w + (if w_redis w = None then 6 else 4) in
       (Inr (id_layout 27468800000 1 (int n + 1)),
        w\<lparr>w_tick := Suc n, w_redis := Some \<lparr>rl_host = ''redis'', rl_port = 6379, rl_ip = ''redis''\<rparr>\<rparr>))" for sleeps
    by (cases sleeps) simp_all
  then show ?thesis using assms(1) by (simp add: generate_id_def bind_def check_running_def Let_def)
qed

theorem ids_unique_witness:
  "\<exists>a b w1 w2. generate_id sample_services sample_options Id_message sample_world = (Inr a, w1) \<and>
     generate_id sample_services sample_options Id_message w1 = (Inr b, w2) \<and> a \<noteq> b"
proof -
  obtain a w1 where first: "generate_id sample_services sample_options Id_message sample_world = (Inr a, w1)"
    "w_tick w1 < 10" "w_stopping w1 = False" "w_redis w1 = Some \<lparr>rl_host = ''redis'', rl_port = 6379, rl_ip = ''redis''\<rparr>"
    using sample_id [of sample_world Id_message] by (auto simp: sample_world_def)
  then obtain b w2 where second: "generate_id sample_services sample_options Id_message w1 = (Inr b, w2)"
    using sample_id [of w1 Id_message] by auto
  have "a \<noteq> b"
    by (rule ids_unique [OF first(1) second])
      (auto simp: sample_services_def sample_options_def sample_redis_def redis_ok_def)
  with first(1) second show ?thesis by blast
qed

text \<open>C12: Whatever requests arrive, in whatever order their store operations interleave with those of others, and
  whatever fails, the committed database keeps its invariant.\<close>

theorem service_keeps_store:
  assumes "world_ok E w" "service_submit E S options stopping origin command w = (r, w')"
  shows "world_ok E w'"
  using withinD [OF stored_service_submit assms(2)] assms(1) by (simp add: keeps_world_def)

lemma sample_world_ok: "world_ok E sample_world"
  using sample_store(1,2) by (simp add: world_ok_def conn_ok_def sample_world_def)

theorem service_keeps_store_witness:
  "\<exists>w'. world_ok sample_env sample_world \<and> world_ok sample_env w' \<and>
     w' = snd (service_submit sample_env sample_services sample_options False sample_origin sample_send sample_world)"
  using service_keeps_store [OF sample_world_ok [of sample_env] prod.collapse [symmetric]] sample_world_ok by blast

text \<open>C8: A command whose connection is not the one of the current session of its user and device is answered with
  AuthenticationRequired and nothing else happens: no handler runs, nothing is pushed.\<close>

theorem stale_session_rejected:
  assumes "submit E (get_session S options (cmd_actor_uid (cx_command cx)) (cmd_actor_device_id (cx_command cx))) w =
      (Inr lease, w1)"
    and "(ls_gateway_id lease, ls_instance_id lease, ls_shard_id lease) \<noteq> route_key (cx_origin cx) \<or>
      ls_connection_id lease \<noteq> cmd_connection_id (cx_command cx) \<or>
      ls_generation lease \<noteq> cmd_connection_generation (cx_command cx)"
  shows "service_process E S options handle cx w =
    service_reply S options cx (MakeErrorPacket (code AuthenticationRequired) '''') w1"
proof -
  have "\<not> lease_matches cx lease" using assms(2) by (auto simp: lease_matches_def route_key_def)
  then have run: "run_request E S options handle cx w =
      (Inr (MakeErrorPacket (code AuthenticationRequired) '''', cx_deliveries cx), w1)"
    using assms(1) by (simp add: run_request_def bind_def ret_def)
  have "TcpPacketError (MakeErrorPacket (code AuthenticationRequired) '''') \<noteq> code Success"
    by (simp add: TcpPacketError_def MakeErrorPacket_def SetTcpPacketStatus_def)
  with run show ?thesis
    by (auto simp: service_process_def bind_def catch_def ret_def split: sum.splits prod.splits)
qed

theorem stale_session_rejected_witness:
  "\<exists>w1. submit sample_env (get_session sample_services sample_options 1001 ''phone'') sample_world = (Inr sample_lease, w1) \<and>
     service_process sample_env sample_services sample_options (friends_pull_friends sample_env)
       (sample_context\<lparr>cx_command := sample_send\<lparr>cmd_connection_generation := 2\<rparr>\<rparr>) sample_world =
     service_reply sample_services sample_options
       (sample_context\<lparr>cx_command := sample_send\<lparr>cmd_connection_generation := 2\<rparr>\<rparr>)
       (MakeErrorPacket (code AuthenticationRequired) '''') w1"
proof -
  obtain w1 where get: "submit sample_env (get_session sample_services sample_options 1001 ''phone'') sample_world =
      (Inr sample_lease, w1)"
    using sample_session [of sample_world] by (simp add: sample_world_def)
  show ?thesis
    using stale_session_rejected [of sample_env sample_services sample_options
        "sample_context\<lparr>cx_command := sample_send\<lparr>cmd_connection_generation := 2\<rparr>\<rparr>" sample_world sample_lease w1] get
    by (auto simp: sample_context_def sample_send_def sample_lease_def)
qed

lemma code_Success [simp]: "code e = 0 \<longleftrightarrow> e = Success"
  by (cases e) simp_all







text \<open>C14: Every command is answered at most once, and only on the stream it came from; apart from that answer a
  request puts nothing but pushes on any stream of any shard.\<close>

theorem one_result_per_command:
  assumes "service_submit E S options stopping origin command w = (r, w')"
  shows "\<exists>fs. sm_accepted (sv_objects (w_transports w' shard) t) = sm_accepted (sv_objects (w_transports w shard) t) @ fs \<and>
    length (filter is_result fs) \<le> (if shard = mo_self options \<and> t = rt_token origin then 1 else 0) \<and>
    (\<forall>f \<in> set fs. (\<exists>res. f = Command_result res \<and> res_request_id res = cmd_request_id command) \<or>
       (\<exists>envelope. f = Client_forward envelope))"
  using assms
proof (cases rule: service_submit_cases)
  case (replied packet b b' w1)
  obtain fs where fs: "sm_accepted (sv_objects (w_transports w1 shard) t) = sm_accepted (sv_objects (w_transports w shard) t) @ fs"
    "length fs \<le> (if shard = mo_self options \<and> t = rt_token origin then 1 else 0)"
    "\<forall>f \<in> set fs. \<exists>res. f = Command_result res \<and> res_request_id res = cmd_request_id command"
    using reply_frames [OF replied(1), of shard t] by auto
  have "length (filter is_result fs) \<le> (if shard = mo_self options \<and> t = rt_token origin then 1 else 0)"
    by (rule le_trans [OF length_filter_le fs(2)])
  with fs(1,3) replied(2) show ?thesis by (intro exI [of _ fs]) simp
next
  case (processed handle packet b b' w1)
  from process_frames [OF processed(1,2), of shard t] processed(3) show ?thesis by simp
qed

theorem one_result_per_command_witness:
  "\<exists>fs. sm_accepted (sv_objects (w_transports (snd (service_submit sample_env sample_services sample_options False
      sample_origin sample_send sample_world)) 0) 1) = sm_accepted (sv_objects sample_server1 1) @ fs \<and>
    length (filter is_result fs) \<le> 1"
  using one_result_per_command [OF prod.collapse [symmetric], of sample_env sample_services sample_options False
      sample_origin sample_send sample_world 0 1]
  by (auto simp: sample_world_def sample_origin_def sample_options_def)



end
