(* ===== verification/File_Storage.thy ===== *)
theory File_Storage
  imports Gateway_Frames
begin

text \<open>
  The object store of the File service (\<^verbatim>\<open>file/protocol.cc\<close>, \<^verbatim>\<open>file/storage.cc\<close>).  The disk maps paths
  to bytes; every call of the file system may fail, and a write may stop short, as a schedule
  of faults decides.  The SHA-256 of OpenSSL is a parameter.
\<close>

section \<open>Requests\<close>

definition max_file_size :: int where
  "max_file_size = 100 * 1024 * 1024"

definition max_chunk_size :: nat where
  "max_chunk_size = 1024 * 1024"

definition no_file :: file_FileInfo where
  "no_file = \<lparr>ff_file_id = '''', ff_file_name = '''', ff_file_type = '''', ff_file_size = 0, ff_sha256 = ''''\<rparr>"

definition upload_info :: "UploadRequest \<Rightarrow> file_FileInfo" where
  "upload_info request = (case ur_file request of None \<Rightarrow> no_file | Some f \<Rightarrow> f)"

definition download_info :: "DownloadRequest \<Rightarrow> file_FileInfo" where
  "download_info request = (case dr_file request of None \<Rightarrow> no_file | Some f \<Rightarrow> f)"

definition byte :: "char \<Rightarrow> nat" where
  "byte c = of_char c"

definition isalnum :: "char \<Rightarrow> bool" where
  "isalnum c = (48 \<le> byte c \<and> byte c \<le> 57 \<or> 65 \<le> byte c \<and> byte c \<le> 90 \<or> 97 \<le> byte c \<and> byte c \<le> 122)"

definition safe_id :: "string \<Rightarrow> bool" where
  "safe_id file_id = (length file_id = 36 \<and> list_all (\<lambda>value. isalnum value \<or> value = CHR ''-'') file_id)"

definition display_name :: "string \<Rightarrow> nat \<Rightarrow> bool" where
  "display_name value maximum =
     (value \<noteq> [] \<and> length value \<le> maximum \<and> list_all (\<lambda>c. 32 \<le> byte c \<and> byte c \<noteq> 127) value)"

definition valid_upload :: "UploadRequest \<Rightarrow> bool" where
  "valid_upload request =
    (let info = upload_info request in
     ur_file request \<noteq> None \<and> 0 < ur_user_id request \<and> safe_id (ff_file_id info) \<and>
     display_name (ff_file_name info) 255 \<and> display_name (ff_file_type info) 128 \<and>
     CHR ''/'' \<in> set (ff_file_type info) \<and> length (ff_sha256 info) = 32 \<and>
     0 \<le> ff_file_size info \<and> ff_file_size info \<le> max_file_size \<and> 0 \<le> ur_offset request \<and>
     length (ur_data request) \<le> max_chunk_size)"

definition valid_download :: "DownloadRequest \<Rightarrow> bool" where
  "valid_download request =
     (dr_file request \<noteq> None \<and> 0 < dr_user_id request \<and> safe_id (ff_file_id (download_info request)) \<and>
      0 \<le> dr_offset request)"

definition object_key :: "int \<Rightarrow> string \<Rightarrow> string" where
  "object_key uid file_id = to_string uid @ ''/'' @ file_id"

definition key_shard :: "string \<Rightarrow> nat \<Rightarrow> nat" where
  "key_shard key shards = unat (fnv_hash 14695981039346656037 key) mod shards"

section \<open>Disk\<close>

datatype disk_fault = Io_ok | Io_error | Io_short nat

record disk =
  dk_files :: "string \<Rightarrow> string option"
  dk_faults :: "disk_fault list"
  dk_alignment :: nat

definition next_fault :: "disk \<Rightarrow> disk_fault \<times> disk" where
  "next_fault d = (case dk_faults d of [] \<Rightarrow> (Io_ok, d) | f # fs \<Rightarrow> (f, d\<lparr>dk_faults := fs\<rparr>))"

definition io_call :: "(disk, unit) prog" where
  "io_call d = (case next_fault d of (f, d') \<Rightarrow>
     (if f = Io_ok then Inr () else Inl (RuntimeError ''I/O error''), d'))"

definition contents :: "string \<Rightarrow> (disk, string) prog" where
  "contents path d = (case dk_files d path of None \<Rightarrow> Inl (RuntimeError ''I/O error'') | Some bytes \<Rightarrow> Inr bytes, d)"

definition file_size :: "string \<Rightarrow> (disk, nat option) prog" where
  "file_size path = bind io_call (\<lambda>_ d. (Inr (map_option length (dk_files d path)), d))"

definition read_range :: "string \<Rightarrow> nat \<Rightarrow> nat \<Rightarrow> (disk, string) prog" where
  "read_range path offset count =
     bind io_call (\<lambda>_. bind (contents path) (\<lambda>bytes. ret (take count (drop offset bytes))))"

definition zero :: char where
  "zero = char_of (0 :: nat)"

text \<open>Bytes beyond the end of a file that is extended are zero.\<close>

definition extend :: "nat \<Rightarrow> string \<Rightarrow> string" where
  "extend n bytes = bytes @ replicate (n - length bytes) zero"

definition write_at :: "nat \<Rightarrow> string \<Rightarrow> string \<Rightarrow> string" where
  "write_at offset buffer bytes = take offset (extend offset bytes) @ buffer @ drop (offset + length buffer) bytes"

definition set_file :: "string \<Rightarrow> string \<Rightarrow> disk \<Rightarrow> disk" where
  "set_file path bytes d = d\<lparr>dk_files := (dk_files d)(path \<mapsto> bytes)\<rparr>"

definition dma_write :: "string \<Rightarrow> nat \<Rightarrow> string \<Rightarrow> (disk, nat) prog" where
  "dma_write path offset buffer =
     bind (contents path) (\<lambda>bytes d.
       case next_fault d of
         (Io_ok, d') \<Rightarrow> (Inr (length buffer), set_file path (write_at offset buffer bytes) d')
       | (Io_error, d') \<Rightarrow> (Inl (RuntimeError ''I/O error''), d')
       | (Io_short n, d') \<Rightarrow> (Inr (min n (length buffer)), set_file path (write_at offset (take n buffer) bytes) d'))"

definition truncate :: "string \<Rightarrow> nat \<Rightarrow> (disk, unit) prog" where
  "truncate path bytes_in =
     bind io_call (\<lambda>_. bind (contents path) (\<lambda>bytes d. (Inr (), set_file path (take bytes_in (extend bytes_in bytes)) d)))"

definition rename_file :: "string \<Rightarrow> string \<Rightarrow> (disk, unit) prog" where
  "rename_file source target =
     bind io_call (\<lambda>_. bind (contents source) (\<lambda>bytes d.
       (Inr (), d\<lparr>dk_files := (dk_files d)(source := None, target \<mapsto> bytes)\<rparr>)))"

text \<open>The file is closed on every way out; a failing \<^verbatim>\<open>close\<close> fails the call.\<close>

definition with_file :: "string \<Rightarrow> bool \<Rightarrow> (disk, 'a) prog \<Rightarrow> (disk, 'a) prog" where
  "with_file path create body =
     bind io_call (\<lambda>_.
     bind (if create then (\<lambda>d. (Inr (), if dk_files d path = None then set_file path [] d else d))
           else bind (contents path) (\<lambda>_. ret ())) (\<lambda>_.
     bind (catch body (\<lambda>e. bind io_call (\<lambda>_. raise e))) (\<lambda>result.
     bind io_call (\<lambda>_. ret result))))"

section \<open>Hashing and appending\<close>

function sha256_loop ::
  "(string \<Rightarrow> string) \<Rightarrow> string \<Rightarrow> nat \<Rightarrow> nat \<Rightarrow> string \<Rightarrow> (disk, string) prog" where
  "sha256_loop digest path bytes_in offset hashed d =
     (if offset < bytes_in
      then case read_range path offset (min 65536 (bytes_in - offset)) d of
             (Inl e, d') \<Rightarrow> (Inl e, d')
           | (Inr bytes, d') \<Rightarrow>
               if bytes = [] then (Inl (RuntimeError ''cannot hash file''), d')
               else sha256_loop digest path bytes_in (offset + length bytes) (hashed @ bytes) d'
      else (Inr (digest hashed), d))"
  by pat_completeness auto
termination
  by (relation "measure (\<lambda>(_, _, bytes_in, offset, _, _). bytes_in - offset)") (auto simp flip: length_greater_0_conv)

declare sha256_loop.simps [simp del]

definition sha256 :: "(string \<Rightarrow> string) \<Rightarrow> string \<Rightarrow> nat \<Rightarrow> (disk, string) prog" where
  "sha256 digest path bytes_in = sha256_loop digest path bytes_in 0 []"

definition append :: "string \<Rightarrow> nat \<Rightarrow> string \<Rightarrow> (disk, unit) prog" where
  "append path offset data d =
    (if data = [] then ret () d
     else
       let alignment = dk_alignment d;
           start = offset div alignment * alignment;
           stop_at = (offset + length data + alignment - 1) div alignment * alignment in
       bind (if start < offset
             then bind (read_range path start (offset - start)) (\<lambda>prefix.
                    if length prefix \<noteq> offset - start then raise (RuntimeError ''cannot read upload tail'')
                    else ret prefix)
             else ret []) (\<lambda>prefix.
       let buffer = prefix @ data @ replicate (stop_at - start - (length prefix + length data)) zero in
       bind (dma_write path start buffer) (\<lambda>written.
       if written \<noteq> length buffer then raise (RuntimeError ''short file write'')
       else truncate path (offset + length data))) d)"

definition write_and_hash ::
  "(string \<Rightarrow> string) \<Rightarrow> string \<Rightarrow> UploadRequest \<Rightarrow> nat \<Rightarrow> nat \<Rightarrow> (disk, string) prog" where
  "write_and_hash digest path request current finish =
     bind (append path current (ur_data request)) (\<lambda>_.
     if ur_complete request \<and> int finish = ff_file_size (upload_info request) then sha256 digest path finish
     else ret '''')"

section \<open>Objects\<close>

definition u64 :: "int \<Rightarrow> int" where
  "u64 i = i mod 2 ^ 64"

definition upload_answer :: "UploadRequest \<Rightarrow> TransferStatus \<Rightarrow> int \<Rightarrow> string \<Rightarrow> UploadResponse" where
  "upload_answer request status offset message =
     \<lparr>us_user_id = ur_user_id request, us_status = status, us_next_offset = offset, us_message = message\<rparr>"

definition object_path :: "string \<Rightarrow> int \<Rightarrow> string \<Rightarrow> string" where
  "object_path root uid file_id = root @ ''/'' @ object_key uid file_id"

definition partial_path :: "string \<Rightarrow> int \<Rightarrow> string \<Rightarrow> string" where
  "partial_path root uid file_id = object_path root uid file_id @ ''.part''"

definition completed_upload ::
  "(string \<Rightarrow> string) \<Rightarrow> string \<Rightarrow> UploadRequest \<Rightarrow> nat \<Rightarrow> (disk, UploadResponse) prog" where
  "completed_upload digest object request completed =
     bind (with_file object False (sha256 digest object completed)) (\<lambda>hash.
     ret (if int completed \<noteq> u64 (ff_file_size (upload_info request)) \<or> hash \<noteq> ff_sha256 (upload_info request)
          then upload_answer request FAILED 0 ''completed file metadata mismatch''
          else upload_answer request SUCCESS (int completed) ''''))"

definition differing_upload :: "string \<Rightarrow> UploadRequest \<Rightarrow> nat \<Rightarrow> (disk, UploadResponse) prog" where
  "differing_upload partial request current =
    (let offset = u64 (ur_offset request); data = ur_data request;
         differs = upload_answer request PARTIAL (int current) ''upload offset differs from stored progress'' in
     if offset < int current \<and> data \<noteq> []
     then let count = min (length data) (current - nat offset) in
          bind (with_file partial False (read_range partial (nat offset) count)) (\<lambda>existing.
          ret (if existing \<noteq> take count data
               then upload_answer request FAILED 0 ''retried chunk does not match stored bytes''
               else differs))
     else ret differs)"

definition store_chunk ::
  "(string \<Rightarrow> string) \<Rightarrow> string \<Rightarrow> string \<Rightarrow> UploadRequest \<Rightarrow> nat \<Rightarrow> (disk, UploadResponse) prog" where
  "store_chunk digest object partial request current =
    (let info = upload_info request; finish = current + length (ur_data request) in
     bind (with_file partial True (write_and_hash digest partial request current finish)) (\<lambda>hash.
     if ur_complete request \<and> int finish = u64 (ff_file_size info)
     then (if hash \<noteq> ff_sha256 info then ret (upload_answer request FAILED 0 ''file sha256 mismatch'')
           else bind (rename_file partial object) (\<lambda>_.
                ret (upload_answer request SUCCESS (int finish) '''')))
     else ret (upload_answer request PARTIAL (int finish) '''')))"

definition upload :: "(string \<Rightarrow> string) \<Rightarrow> string \<Rightarrow> UploadRequest \<Rightarrow> (disk, UploadResponse) prog" where
  "upload digest root request =
    (let info = upload_info request; declared = u64 (ff_file_size info);
         object = object_path root (ur_user_id request) (ff_file_id info);
         partial = partial_path root (ur_user_id request) (ff_file_id info) in
     bind io_call (\<lambda>_.
     bind (file_size object) (\<lambda>completed.
     case completed of
       Some bytes_in \<Rightarrow> completed_upload digest object request bytes_in
     | None \<Rightarrow>
         bind (file_size partial) (\<lambda>stored.
         let current = (case stored of None \<Rightarrow> 0 | Some n \<Rightarrow> n) in
         if u64 (ur_offset request) \<noteq> int current then differing_upload partial request current
         else if declared < int current \<or> declared - int current < int (length (ur_data request))
         then ret (upload_answer request FAILED 0 ''chunk exceeds declared size'')
         else store_chunk digest object partial request current))))"

definition download_answer :: "TransferStatus \<Rightarrow> string \<Rightarrow> int \<Rightarrow> bool \<Rightarrow> string \<Rightarrow> DownloadResponse" where
  "download_answer status data offset complete message =
     \<lparr>ds_data = data, ds_next_offset = offset, ds_complete = complete, ds_status = status, ds_message = message\<rparr>"

definition download :: "string \<Rightarrow> DownloadRequest \<Rightarrow> (disk, DownloadResponse) prog" where
  "download root request =
    (let object = object_path root (dr_user_id request) (ff_file_id (download_info request));
         offset = u64 (dr_offset request) in
     bind (file_size object) (\<lambda>stored.
     case stored of
       None \<Rightarrow> ret (download_answer FAILED '''' 0 False ''file unavailable'')
     | Some bytes_in \<Rightarrow>
         if int bytes_in < offset then ret (download_answer FAILED '''' 0 False ''offset exceeds file bytes_in'')
         else
           let count = min (nat (max (dr_limit request) 1)) (min max_chunk_size (bytes_in - nat offset)) in
           bind (if count \<noteq> 0
                 then bind (with_file object False (read_range object (nat offset) count)) (\<lambda>data.
                      if length data \<noteq> count then raise (RuntimeError ''short file read'') else ret data)
                 else ret '''') (\<lambda>data.
           ret (download_answer SUCCESS data (dr_offset request + int (length data))
                 (dr_offset request + int (length data) = int bytes_in) ''''))))"

section \<open>Runs without faults\<close>

lemma bind_step: "p s = (Inr a, t) \<Longrightarrow> bind p k s = k a t"
  by (simp add: bind_def)

lemma calm_call [simp]: "dk_faults d = [] \<Longrightarrow> io_call d = (Inr (), d)"
  by (simp add: io_call_def next_fault_def)

lemma calm_contents [simp]: "dk_files d path = Some bytes \<Longrightarrow> contents path d = (Inr bytes, d)"
  by (simp add: contents_def)

lemma calm_size [simp]: "dk_faults d = [] \<Longrightarrow> file_size path d = (Inr (map_option length (dk_files d path)), d)"
  by (simp add: file_size_def bind_def)

lemma calm_read [simp]:
  "dk_faults d = [] \<Longrightarrow> dk_files d path = Some bytes \<Longrightarrow>
   read_range path offset count d = (Inr (take count (drop offset bytes)), d)"
  by (simp add: read_range_def bind_def ret_def)

lemma set_file_simps [simp]:
  "dk_faults (set_file path bytes d) = dk_faults d" "dk_alignment (set_file path bytes d) = dk_alignment d"
  "dk_files (set_file path bytes d) = (dk_files d)(path \<mapsto> bytes)"
  "set_file path a (set_file path b d) = set_file path a d"
  by (simp_all add: set_file_def)

lemma calm_with_file:
  assumes "dk_faults d = []" "dk_files d path \<noteq> None \<or> create"
    and "body (if dk_files d path = None then set_file path [] d else d) = (Inr a, d')" "dk_faults d' = []"
  shows "with_file path create body d = (Inr a, d')"
  using assms by (cases "dk_files d path") (auto simp: with_file_def bind_def catch_def ret_def)

lemma calm_rename:
  "dk_faults d = [] \<Longrightarrow> dk_files d source = Some bytes \<Longrightarrow>
   rename_file source target d = (Inr (), d\<lparr>dk_files := (dk_files d)(source := None, target \<mapsto> bytes)\<rparr>)"
  by (simp add: rename_file_def bind_def)

lemma sha256_loop_calm:
  assumes "dk_faults d = []" "dk_files d path = Some bytes" "bytes_in \<le> length bytes"
    and "offset \<le> bytes_in" "hashed = take offset bytes"
  shows "sha256_loop digest path bytes_in offset hashed d = (Inr (digest (take bytes_in bytes)), d)"
  using assms
proof (induction digest path bytes_in offset hashed d rule: sha256_loop.induct)
  case (1 digest path bytes_in offset hashed d)
  show ?case
  proof (cases "offset < bytes_in")
    case True
    let ?block = "take (min 65536 (bytes_in - offset)) (drop offset bytes)"
    have len: "length ?block = min 65536 (bytes_in - offset)" using 1(4) True by simp
    then have some: "?block \<noteq> []" using True by (metis diff_is_0_eq length_0_conv linorder_not_le min_def zero_neq_numeral)
    have read: "read_range path offset (min 65536 (bytes_in - offset)) d = (Inr ?block, d)" using 1(2,3) by simp
    have "hashed @ ?block = take (offset + length ?block) bytes"
      using 1(6) by (simp only: len take_add)
    with 1(1) [OF True read [symmetric] refl some] 1(2-5) len True
    have "sha256_loop digest path bytes_in (offset + length ?block) (hashed @ ?block) d =
        (Inr (digest (take bytes_in bytes)), d)" by simp
    with True read some show ?thesis by (subst sha256_loop.simps) simp
  next
    case False
    with 1 show ?thesis by (subst sha256_loop.simps) simp
  qed
qed

lemma sha256_calm:
  "dk_faults d = [] \<Longrightarrow> dk_files d path = Some bytes \<Longrightarrow> bytes_in \<le> length bytes \<Longrightarrow>
   sha256 digest path bytes_in d = (Inr (digest (take bytes_in bytes)), d)"
  unfolding sha256_def by (rule sha256_loop_calm) auto

text \<open>Reading the tail of the last block, writing whole blocks and cutting off the padding appends.\<close>

lemma block_append:
  assumes "start \<le> length bytes" "length bytes + length data \<le> start + length buffer"
    "buffer = drop start bytes @ data @ padding"
  shows "take (length bytes + length data) (extend (length bytes + length data) (write_at start buffer bytes)) = bytes @ data"
proof -
  have "write_at start buffer bytes = take start bytes @ buffer"
    using assms(1,2) by (simp add: write_at_def extend_def)
  also have "\<dots> = bytes @ data @ padding" by (simp add: assms(3) flip: append_assoc)
  finally show ?thesis by (simp add: extend_def)
qed

lemma aligned_bounds:
  assumes "0 < (a :: nat)"
  shows "n div a * a \<le> n" "n \<le> (n + a - 1) div a * a"
proof -
  show "n div a * a \<le> n" by simp
  have "n + a - 1 < (n + a - 1) div a * a + a" using assms by (metis add.commute dividend_less_div_times)
  then show "n \<le> (n + a - 1) div a * a" using assms by linarith
qed

lemma append_calm:
  assumes "dk_faults d = []" "dk_files d path = Some bytes" "0 < dk_alignment d"
  shows "append path (length bytes) data d = (Inr (), set_file path (bytes @ data) d)"
proof (cases "data = []")
  case True
  with assms show ?thesis by (simp add: append_def ret_def set_file_def fun_upd_idem)
next
  case False
  let ?a = "dk_alignment d"
  define start where "start = length bytes div ?a * ?a"
  define stop_at where "stop_at = (length bytes + length data + ?a - 1) div ?a * ?a"
  have low: "start \<le> length bytes" unfolding start_def by (rule aligned_bounds(1) [OF assms(3)])
  define buffer where "buffer = drop start bytes @ data @
    replicate (stop_at - start - (length (drop start bytes) + length data)) zero"
  have fits: "length bytes + length data \<le> start + length buffer" using low by (simp add: buffer_def)
  define tail where "tail = (if start < length bytes
      then bind (read_range path start (length bytes - start)) (\<lambda>prefix.
             if length prefix \<noteq> length bytes - start then raise (RuntimeError ''cannot read upload tail'') else ret prefix)
      else ret [])"
  have kept: "tail d = (Inr (drop start bytes), d)" using assms(1,2) low by (auto simp: tail_def bind_def ret_def)
  have wrote: "dma_write path start buffer d = (Inr (length buffer), set_file path (write_at start buffer bytes) d)"
    using assms(1,2) by (simp add: dma_write_def bind_def next_fault_def)
  have cut: "truncate path (length bytes + length data) (set_file path (write_at start buffer bytes) d) =
      (Inr (), set_file path (bytes @ data) d)"
    using assms(1) block_append [OF low fits buffer_def] by (simp add: truncate_def bind_def)
  show ?thesis
    by (simp only: append_def Let_def False if_False start_def [symmetric] stop_at_def [symmetric]
        tail_def [symmetric] bind_step [of tail, OF kept] buffer_def [symmetric]
        bind_step [of "dma_write path start buffer", OF wrote] cut HOL.simp_thms)
qed

lemma u64_small: "0 \<le> i \<Longrightarrow> i < 2 ^ 64 \<Longrightarrow> u64 i = i"
  by (simp add: u64_def)

lemma partial_not_object [simp]: "partial_path root uid file_id \<noteq> object_path root uid file_id"
  by (simp add: partial_path_def)

definition stored_part :: "string \<Rightarrow> disk \<Rightarrow> string" where
  "stored_part path d = (case dk_files d path of None \<Rightarrow> [] | Some bytes \<Rightarrow> bytes)"

lemma write_and_hash_calm:
  assumes "dk_faults d = []" "dk_files d path = Some bytes" "0 < dk_alignment d"
  shows "write_and_hash digest path request (length bytes) (length bytes + length (ur_data request)) d =
    (Inr (if ur_complete request \<and> int (length bytes + length (ur_data request)) = ff_file_size (upload_info request)
          then digest (bytes @ ur_data request) else ''''), set_file path (bytes @ ur_data request) d)"
proof -
  have "sha256 digest path (length bytes + length (ur_data request)) (set_file path (bytes @ ur_data request) d) =
      (Inr (digest (bytes @ ur_data request)), set_file path (bytes @ ur_data request) d)"
    using sha256_calm [of "set_file path (bytes @ ur_data request) d" path "bytes @ ur_data request"
        "length bytes + length (ur_data request)"] assms(1) by simp
  with append_calm [OF assms, of "ur_data request"] show ?thesis
    by (simp add: write_and_hash_def bind_def ret_def)
qed

lemma upload_calm:
  fixes request root d
  defines "object \<equiv> object_path root (ur_user_id request) (ff_file_id (upload_info request))"
    and "partial \<equiv> partial_path root (ur_user_id request) (ff_file_id (upload_info request))"
    and "finish \<equiv> length (stored_part (partial_path root (ur_user_id request) (ff_file_id (upload_info request))) d) +
      length (ur_data request)"
  assumes calm: "dk_faults d = []" "0 < dk_alignment d" and new: "dk_files d object = None"
    and offset: "ur_offset request = int (length (stored_part partial d))"
    and fits: "int finish \<le> ff_file_size (upload_info request)" "ff_file_size (upload_info request) \<le> max_file_size"
  shows "upload digest root request d =
    (let bytes = stored_part partial d @ ur_data request in
     if ur_complete request \<and> int finish = ff_file_size (upload_info request)
     then if digest bytes \<noteq> ff_sha256 (upload_info request)
          then (Inr (upload_answer request FAILED 0 ''file sha256 mismatch''), set_file partial bytes d)
          else (Inr (upload_answer request SUCCESS (int finish) ''''),
                d\<lparr>dk_files := (dk_files d)(partial := None, object \<mapsto> bytes)\<rparr>)
     else (Inr (upload_answer request PARTIAL (int finish) ''''), set_file partial bytes d))"
proof -
  let ?old = "stored_part partial d" and ?info = "upload_info request"
  let ?d0 = "if dk_files d partial = None then set_file partial [] d else d"
  have at: "dk_files ?d0 partial = Some ?old" "dk_faults ?d0 = []" "0 < dk_alignment ?d0"
    using calm by (auto simp: stored_part_def split: option.splits)
  have put: "set_file partial bytes ?d0 = set_file partial bytes d" for bytes
    by (simp add: set_file_def)
  have "int (length ?old) \<le> ff_file_size ?info" using fits(1) by (simp add: finish_def partial_def)
  then have u: "u64 (ur_offset request) = int (length ?old)" "u64 (ff_file_size ?info) = ff_file_size ?info"
    using fits offset by (auto intro!: u64_small simp: max_file_size_def)
  have current: "(case dk_files d partial of None \<Rightarrow> 0 | Some x \<Rightarrow> ((\<lambda>n. n) \<circ> length) x) = length ?old"
    "(case map_option length (dk_files d partial) of None \<Rightarrow> 0 | Some n \<Rightarrow> n) = length ?old"
    by (simp_all add: stored_part_def split: option.split)
  define body where "body = write_and_hash digest partial request (length ?old) finish"
  define hash where "hash = (if ur_complete request \<and> int finish = ff_file_size ?info
      then digest (?old @ ur_data request) else '''')"
  have "body ?d0 = (Inr hash, set_file partial (?old @ ur_data request) d)"
    using write_and_hash_calm [OF at(2,1,3), of digest request]
    by (simp add: body_def hash_def put finish_def flip: partial_def)
  then have wrote: "with_file partial True body d = (Inr hash, set_file partial (?old @ ur_data request) d)"
    using calm by (intro calm_with_file) auto
  have moved: "rename_file partial object (set_file partial (?old @ ur_data request) d) =
      (Inr (), d\<lparr>dk_files := (dk_files d)(partial := None, object \<mapsto> ?old @ ur_data request)\<rparr>)"
    using calm by (subst calm_rename [where bytes = "?old @ ur_data request"]) (simp_all add: set_file_def)
  have bounds: "\<not> (ff_file_size ?info < int (length ?old) \<or>
      ff_file_size ?info - int (length ?old) < int (length (ur_data request)))"
    using fits(1) by (simp add: finish_def partial_def)
  have fin: "length ?old + length (ur_data request) = finish" by (simp add: finish_def partial_def)
  have "upload digest root request d =
      bind (with_file partial True body) (\<lambda>hash.
        if ur_complete request \<and> int finish = ff_file_size ?info
        then (if hash \<noteq> ff_sha256 ?info then ret (upload_answer request FAILED 0 ''file sha256 mismatch'')
              else bind (rename_file partial object) (\<lambda>_. ret (upload_answer request SUCCESS (int finish) '''')))
        else ret (upload_answer request PARTIAL (int finish) '''')) d"
    unfolding upload_def store_chunk_def Let_def object_def [symmetric] partial_def [symmetric] u
    using calm new bounds
    by (simp add: bind_step [of io_call] bind_step [OF calm_size] current fin flip: body_def cong: if_cong)
      (simp flip: fin cong: if_cong)
  also have "\<dots> = (let bytes = ?old @ ur_data request in
     if ur_complete request \<and> int finish = ff_file_size ?info
     then if digest bytes \<noteq> ff_sha256 ?info
          then (Inr (upload_answer request FAILED 0 ''file sha256 mismatch''), set_file partial bytes d)
          else (Inr (upload_answer request SUCCESS (int finish) ''''),
                d\<lparr>dk_files := (dk_files d)(partial := None, object \<mapsto> bytes)\<rparr>)
     else (Inr (upload_answer request PARTIAL (int finish) ''''), set_file partial bytes d))"
    using wrote moved by (simp add: bind_def ret_def hash_def Let_def)
  finally show ?thesis .
qed

section \<open>Round trip\<close>

text \<open>A client that sends a file in chunks, and one that reads it page by page.\<close>

fun upload_chunks ::
  "(string \<Rightarrow> string) \<Rightarrow> string \<Rightarrow> UploadRequest \<Rightarrow> nat \<Rightarrow> string list \<Rightarrow> (disk, UploadResponse list) prog" where
  "upload_chunks digest root request offset [] = ret []"
| "upload_chunks digest root request offset (c # cs) =
     bind (upload digest root (request\<lparr>ur_offset := int offset, ur_data := c, ur_complete := (cs = [])\<rparr>)) (\<lambda>answer.
     bind (upload_chunks digest root request (offset + length c) cs) (\<lambda>answers. ret (answer # answers)))"

fun download_pages :: "nat \<Rightarrow> string \<Rightarrow> DownloadRequest \<Rightarrow> (disk, string option) prog" where
  "download_pages 0 root request = ret None"
| "download_pages (Suc n) root request =
     bind (download root request) (\<lambda>answer.
     if ds_status answer \<noteq> SUCCESS then ret None
     else if ds_complete answer then ret (Some (ds_data answer))
     else bind (download_pages n root (request\<lparr>dr_offset := ds_next_offset answer\<rparr>)) (\<lambda>rest.
          ret (map_option (\<lambda>bytes. ds_data answer @ bytes) rest)))"

lemma download_calm:
  assumes "dk_faults d = []" "dk_files d (object_path root (dr_user_id request) (ff_file_id (download_info request))) = Some bytes"
    and "dr_offset request = int offset" "offset \<le> length bytes" "int (length bytes) \<le> max_file_size"
  shows "download root request d =
    (let data = take (min (nat (max (dr_limit request) 1)) max_chunk_size) (drop offset bytes) in
     (Inr (download_answer SUCCESS data (int (offset + length data)) (offset + length data = length bytes) ''''), d))"
proof -
  define object where "object = object_path root (dr_user_id request) (ff_file_id (download_info request))"
  define count where "count = min (nat (max (dr_limit request) 1)) (min max_chunk_size (length bytes - offset))"
  define page where "page = (if count \<noteq> 0
      then bind (with_file object False (read_range object offset count)) (\<lambda>data.
           if length data \<noteq> count then raise (RuntimeError ''short file read'') else ret data)
      else ret '''')"
  let ?data = "take (min (nat (max (dr_limit request) 1)) max_chunk_size) (drop offset bytes)"
  have u: "u64 (dr_offset request) = int offset"
    using assms(3-5) by (auto intro!: u64_small simp: max_file_size_def)
  have cut: "take count (drop offset bytes) = ?data" by (simp add: count_def min.assoc [symmetric] min_def)
  have "with_file object False (read_range object offset count) d = (Inr (take count (drop offset bytes)), d)"
    using assms(1,2) by (intro calm_with_file) (simp_all add: object_def)
  moreover have "length (take count (drop offset bytes)) = count" by (simp add: count_def)
  ultimately have page: "page d = (Inr ?data, d)" by (auto simp: page_def bind_def ret_def simp flip: cut)
  have found: "file_size object d = (Inr (Some (length bytes)), d)" using assms(1,2) by (simp add: object_def)
  have "download root request d = bind page (\<lambda>data. ret (download_answer SUCCESS data (dr_offset request + int (length data))
      (dr_offset request + int (length data) = int (length bytes)) '''')) d"
    unfolding download_def Let_def u nat_int object_def [symmetric] bind_step [of "file_size object", OF found] option.case
      count_def [symmetric] page_def [symmetric] using assms(4) by simp
  also have "\<dots> = (let data = ?data in
     (Inr (download_answer SUCCESS data (int (offset + length data)) (offset + length data = length bytes) ''''), d))"
    unfolding bind_step [of page, OF page] Let_def ret_def assms(3) by (simp only: of_nat_add [symmetric] of_nat_eq_iff)
  finally show ?thesis .
qed

lemma download_pages_calm:
  assumes "dk_faults d = []" "dk_files d (object_path root (dr_user_id request) (ff_file_id (download_info request))) = Some bytes"
    and "dr_offset request = int offset" "offset \<le> length bytes" "int (length bytes) \<le> max_file_size"
    and "length bytes - offset < n"
  shows "download_pages n root request d = (Inr (Some (drop offset bytes)), d)"
  using assms(2-4,6)
proof (induction n arbitrary: offset request)
  case (Suc n)
  let ?k = "min (nat (max (dr_limit request) 1)) max_chunk_size"
  let ?data = "take ?k (drop offset bytes)"
  have page: "download root request d = (Inr (download_answer SUCCESS ?data (int (offset + length ?data))
      (offset + length ?data = length bytes) ''''), d)"
    using download_calm [OF assms(1) Suc.prems(1-3) assms(5)] by (simp add: Let_def)
  show ?case
  proof (cases "offset + length ?data = length bytes")
    case True
    then have "?data = drop offset bytes" by (simp add: min_def split: if_splits)
    with page True show ?thesis by (simp add: bind_step [of "download root request"] download_answer_def ret_def)
  next
    case False
    have k: "0 < ?k" by (simp add: max_chunk_size_def)
    define m where "m = length ?data"
    let ?next = "request\<lparr>dr_offset := int (offset + m)\<rparr>"
    have "download_info ?next = download_info request" by (simp add: download_info_def)
    moreover have more: "offset + m < length bytes" using False Suc.prems(3) by (auto simp: m_def min_def)
    moreover have "0 < m" unfolding m_def using k False Suc.prems(3) by (cases "drop offset bytes") auto
    ultimately have rest: "download_pages n root ?next d = (Inr (Some (drop (offset + m) bytes)), d)"
      using Suc.prems by (intro Suc.IH) auto
    have "?data = take m (drop offset bytes)" by (simp add: m_def min_def)
    then have "?data @ drop (offset + m) bytes = drop offset bytes"
      by (metis append_take_drop_id add.commute drop_drop)
    with more rest show ?thesis
      by (simp add: bind_step [of "download root request", OF page [folded m_def]] download_answer_def)
        (simp add: bind_def ret_def)
  qed
qed simp

lemma upload_chunks_calm:
  fixes request root
  defines "object \<equiv> object_path root (ur_user_id request) (ff_file_id (upload_info request))"
    and "partial \<equiv> partial_path root (ur_user_id request) (ff_file_id (upload_info request))"
  assumes "dk_faults d = []" "0 < dk_alignment d" "dk_files d object = None" "chunks \<noteq> []"
    and "int (length (stored_part partial d @ concat chunks)) = ff_file_size (upload_info request)"
    and "ff_file_size (upload_info request) \<le> max_file_size"
    and "digest (stored_part partial d @ concat chunks) = ff_sha256 (upload_info request)"
  shows "\<exists>answers. upload_chunks digest root request (length (stored_part partial d)) chunks d =
      (Inr answers, d\<lparr>dk_files := (dk_files d)(partial := None, object \<mapsto> stored_part partial d @ concat chunks)\<rparr>) \<and>
    answers \<noteq> [] \<and> last answers = upload_answer request SUCCESS (ff_file_size (upload_info request)) ''''"
  using assms(3-7,9)
proof (induction chunks arbitrary: d)
  case (Cons c cs)
  let ?old = "stored_part partial d"
  let ?request = "request\<lparr>ur_offset := int (length ?old), ur_data := c, ur_complete := (cs = [])\<rparr>"
  have info: "upload_info (request\<lparr>ur_offset := a, ur_data := b, ur_complete := e\<rparr>) = upload_info request" for a b e
    by (simp add: upload_info_def)
  have fits: "int (length ?old + length c) \<le> ff_file_size (upload_info request)" using Cons.prems(5) by simp
  have step: "upload digest root ?request d =
    (let bytes = ?old @ c in
     if cs = [] \<and> int (length ?old + length c) = ff_file_size (upload_info request)
     then if digest bytes \<noteq> ff_sha256 (upload_info request)
          then (Inr (upload_answer request FAILED 0 ''file sha256 mismatch''), set_file partial bytes d)
          else (Inr (upload_answer request SUCCESS (int (length ?old + length c)) ''''),
                d\<lparr>dk_files := (dk_files d)(partial := None, object \<mapsto> bytes)\<rparr>)
     else (Inr (upload_answer request PARTIAL (int (length ?old + length c)) ''''), set_file partial bytes d))"
    using upload_calm [of d root ?request digest] Cons.prems(1-3) fits assms(8)
    by (simp add: info upload_answer_def cong: if_cong flip: object_def partial_def)
  show ?case
  proof (cases "cs = []")
    case True
    with step Cons.prems(5,6) show ?thesis
      by (simp add: Let_def bind_def ret_def upload_answer_def del: fun_upd_apply)
  next
    case False
    let ?d = "set_file partial (?old @ c) d"
    have apart: "partial \<noteq> object" "object \<noteq> partial"
      by (simp_all add: object_def partial_def partial_path_def)
    have part: "stored_part partial ?d = ?old @ c" by (simp add: stored_part_def)
    from False step have first: "upload digest root ?request d =
        (Inr (upload_answer request PARTIAL (int (length ?old + length c)) ''''), ?d)" by (simp add: Let_def)
    have "\<exists>answers. upload_chunks digest root request (length (stored_part partial ?d)) cs ?d =
        (Inr answers, ?d\<lparr>dk_files := (dk_files ?d)(partial := None, object \<mapsto> stored_part partial ?d @ concat cs)\<rparr>) \<and>
      answers \<noteq> [] \<and> last answers = upload_answer request SUCCESS (ff_file_size (upload_info request)) ''''"
      by (rule Cons.IH) (use Cons.prems False apart in \<open>simp_all add: part\<close>)
    then obtain answers where rest: "upload_chunks digest root request (length ?old + length c) cs ?d =
        (Inr answers, d\<lparr>dk_files := (dk_files d)(partial := None, object \<mapsto> ?old @ c @ concat cs)\<rparr>)"
      "answers \<noteq> []" "last answers = upload_answer request SUCCESS (ff_file_size (upload_info request)) ''''"
      unfolding part by (auto simp: set_file_def)
    have "upload_chunks digest root request (length ?old) (c # cs) d =
        (Inr (upload_answer request PARTIAL (int (length ?old + length c)) '''' # answers),
         d\<lparr>dk_files := (dk_files d)(partial := None, object \<mapsto> ?old @ concat (c # cs))\<rparr>)"
      using first rest(1) by (simp add: bind_def ret_def)
    with rest(2,3) show ?thesis by (auto simp del: fun_upd_apply)
  qed
qed simp

section \<open>Runs with faults\<close>

text \<open>Which paths a call may change.\<close>

definition touches :: "string set \<Rightarrow> disk \<Rightarrow> disk \<Rightarrow> bool" where
  "touches paths d d' = (\<forall>p. p \<notin> paths \<longrightarrow> dk_files d' p = dk_files d p)"

interpretation touched: step_relation "touches paths" for paths
  by unfold_locales (simp_all add: touches_def)

lemma io_call_files: "dk_files (snd (io_call d)) = dk_files d"
  by (simp add: io_call_def next_fault_def split: list.split prod.split)

lemma touches_basic:
  "within (touches paths) io_call" "within (touches paths) (contents path)" "within (touches paths) (file_size path)"
  "within (touches paths) (read_range path offset count)"
proof -
  show call: "within (touches paths) io_call" by (simp add: within_snd touches_def io_call_files)
  show contents: "within (touches paths) (contents path)" for path by (simp add: within_snd touches_def contents_def)
  have "within (touches paths) (\<lambda>d. (Inr (map_option length (dk_files d path)), d))" by (simp add: within_snd touches_def)
  then show "within (touches paths) (file_size path)" unfolding file_size_def by (intro touched.within_intros call)
  show "within (touches paths) (read_range path offset count)"
    unfolding read_range_def by (intro touched.within_intros call contents)
qed

lemma touches_loop: "within (touches paths) (sha256_loop digest path bytes_in offset hashed)"
  unfolding within_snd
proof
  fix d show "touches paths d (snd (sha256_loop digest path bytes_in offset hashed d))"
  proof (induction digest path bytes_in offset hashed d rule: sha256_loop.induct)
    case (1 digest path bytes_in offset hashed d)
    obtain r d1 where read: "read_range path offset (min 65536 (bytes_in - offset)) d = (r, d1)" by fastforce
    note first = withinD [OF touches_basic(4) read, of paths]
    show ?case
    proof (cases "offset < bytes_in \<and> (\<exists>bytes. r = Inr bytes \<and> bytes \<noteq> [])")
      case True
      then obtain bytes where r: "offset < bytes_in" "r = Inr bytes" "bytes \<noteq> []" by blast
      from touched.step_trans [OF first 1 [OF r(1) read [symmetric] r(2,3)]] r read
      show ?thesis by (subst sha256_loop.simps) simp
    next
      case False
      then show ?thesis using first read by (subst sha256_loop.simps) (auto simp: touches_def split: sum.splits)
    qed
  qed
qed

lemma touches_files:
  assumes "path \<in> paths"
  shows "within (touches paths) (dma_write path offset buffer)" "within (touches paths) (truncate path bytes_in)"
    "within (touches paths) (append path offset data)" "within (touches paths) (write_and_hash digest path request current finish)"
proof -
  have put: "within (touches paths) (\<lambda>d. (r, set_file path bytes d))" for r :: "exn + 'z" and bytes
    using assms by (auto simp: within_snd touches_def)
  have faulty: "within (touches paths) (\<lambda>d. case next_fault d of
         (Io_ok, d') \<Rightarrow> (Inr (length buffer), set_file path (write_at offset buffer bytes) d')
       | (Io_error, d') \<Rightarrow> (Inl (RuntimeError ''I/O error''), d')
       | (Io_short n, d') \<Rightarrow> (Inr (min n (length buffer)), set_file path (write_at offset (take n buffer) bytes) d'))"
    for bytes offset buffer
    using assms by (auto simp: within_snd touches_def next_fault_def split: list.split disk_fault.split)
  show dma: "within (touches paths) (dma_write path offset buffer)" for offset buffer
    unfolding dma_write_def by (intro touched.within_intros touches_basic faulty)
  show cut: "within (touches paths) (truncate path bytes_in)" for bytes_in
    unfolding truncate_def by (intro touched.within_intros touches_basic put)
  have "touches paths d (snd (append path offset data d))" for offset data d
  proof -
    have "within (touches paths) (bind (if start < offset
             then bind (read_range path start (offset - start)) (\<lambda>prefix.
                    if length prefix \<noteq> offset - start then raise (RuntimeError ''cannot read upload tail'')
                    else ret prefix)
             else ret []) (\<lambda>prefix.
       let buffer = prefix @ data @ replicate (stop_at - start - (length prefix + length data)) zero in
       bind (dma_write path start buffer) (\<lambda>written.
       if written \<noteq> length buffer then raise (RuntimeError ''short file write'')
       else truncate path (offset + length data))))" for start stop_at
      unfolding Let_def by (intro touched.within_intros touches_basic dma cut)
    then show ?thesis by (simp add: append_def Let_def within_snd ret_def touches_def)
  qed
  then show app: "within (touches paths) (append path offset data)" for offset data by (simp add: within_snd)
  show "within (touches paths) (write_and_hash digest path request current finish)"
    unfolding write_and_hash_def sha256_def by (intro touched.within_intros app touches_loop)
qed

lemma touches_with_file:
  assumes "within (touches paths) body" "path \<in> paths \<or> \<not> create"
  shows "within (touches paths) (with_file path create body)"
proof -
  have "within (touches paths) (\<lambda>d. (Inr (), if dk_files d path = None then set_file path [] d else d))"
    if "path \<in> paths" using that by (auto simp: within_snd touches_def)
  then show ?thesis unfolding with_file_def
    using assms by (intro touched.within_intros touches_basic) auto
qed

lemma io_call_Inr: "io_call d = (Inr u, d') \<Longrightarrow> dk_files d' = dk_files d"
  using io_call_files [of d] by simp

lemma with_file_Inr:
  assumes "with_file path create body d = (Inr a, d')"
  obtains d1 d2 where "body d1 = (Inr a, d2)" "dk_files d' = dk_files d2"
    "dk_files d1 = (if dk_files d path = None then (dk_files d)(path \<mapsto> []) else dk_files d)"
    "dk_files d path \<noteq> None \<or> create"
proof -
  from assms obtain u d0 v d1 d2 w d3 where run: "io_call d = (Inr u, d0)"
    "(if create then (\<lambda>d. (Inr (), if dk_files d path = None then set_file path [] d else d))
      else bind (contents path) (\<lambda>_. ret ())) d0 = (Inr v, d1)"
    "catch body (\<lambda>e. bind io_call (\<lambda>_. raise e)) d1 = (Inr a, d2)" "io_call d2 = (Inr w, d3)" "d' = d3"
    unfolding with_file_def by (auto simp: ret_def elim!: bind_Inr)
  have files: "dk_files d0 = dk_files d" "dk_files d' = dk_files d2" using io_call_Inr run(1,4,5) by auto
  have "dk_files d1 = (if dk_files d path = None then (dk_files d)(path \<mapsto> []) else dk_files d)"
    "dk_files d path \<noteq> None \<or> create"
    using run(2) files(1) by (auto simp: contents_def ret_def bind_def split: if_splits option.splits)
  moreover have "body d1 = (Inr a, d2)"
    using run(3) by (auto simp: catch_def bind_def raise_def split: prod.splits sum.splits)
  ultimately show thesis using that files(2) by blast
qed

lemma read_range_Inr:
  assumes "read_range path offset count d = (Inr data, d')" "dk_files d path = Some bytes"
  shows "data = take count (drop offset bytes)" "dk_files d' = dk_files d"
  using assms by (auto simp: read_range_def contents_def ret_def dest!: io_call_Inr split: option.splits elim!: bind_Inr)

lemma sha256_loop_Inr:
  assumes "sha256_loop digest path bytes_in offset hashed d = (Inr h, d')" "dk_files d path = Some bytes"
    and "bytes_in \<le> length bytes" "offset \<le> bytes_in" "hashed = take offset bytes"
  shows "h = digest (take bytes_in bytes) \<and> dk_files d' = dk_files d"
  using assms
proof (induction digest path bytes_in offset hashed d rule: sha256_loop.induct)
  case (1 digest path bytes_in offset hashed d)
  show ?case
  proof (cases "offset < bytes_in")
    case True
    from "1.prems"(1) True obtain block d1 where read: "read_range path offset (min 65536 (bytes_in - offset)) d = (Inr block, d1)"
      and block: "block \<noteq> []"
      and rest: "sha256_loop digest path bytes_in (offset + length block) (hashed @ block) d1 = (Inr h, d')"
      by (subst (asm) sha256_loop.simps) (auto split: sum.splits prod.splits if_splits)
    note data = read_range_Inr [OF read "1.prems"(2)]
    have len: "length block = min 65536 (bytes_in - offset)" using data(1) "1.prems"(3) by simp
    have "hashed @ block = take (offset + length block) bytes"
      unfolding len take_add using "1.prems"(5) data(1) by simp
    then show ?thesis
      using "1.IH" [OF True read [symmetric] refl block rest] "1.prems"(2,3) data(2) len True by simp
  next
    case False
    with 1 show ?thesis by (subst (asm) (2) sha256_loop.simps) simp
  qed
qed

lemma append_Inr:
  assumes "append path offset data d = (Inr u, d')" "dk_files d path = Some bytes" "length bytes = offset"
  shows "\<exists>bytes'. dk_files d' path = Some bytes' \<and> length bytes' = offset + length data"
proof (cases "data = []")
  case True
  with assms show ?thesis by (simp add: append_def ret_def)
next
  case False
  with assms(1) obtain d1 v where "truncate path (offset + length data) d1 = (Inr v, d')"
    by (auto simp: append_def Let_def raise_def elim!: bind_Inr split: if_splits)
  then show ?thesis
    by (auto simp: truncate_def contents_def extend_def split: option.splits elim!: bind_Inr)
qed

lemma write_and_hash_Inr:
  assumes "write_and_hash digest path request current (current + length (ur_data request)) d = (Inr h, d')"
    and "dk_files d path = Some bytes" "length bytes = current" "ur_complete request"
    and "int (current + length (ur_data request)) = ff_file_size (upload_info request)"
  shows "\<exists>bytes'. dk_files d' path = Some bytes' \<and> length bytes' = current + length (ur_data request) \<and> h = digest bytes'"
proof -
  from assms(1,4,5) obtain u d1 where run: "append path current (ur_data request) d = (Inr u, d1)"
    "sha256 digest path (current + length (ur_data request)) d1 = (Inr h, d')"
    unfolding write_and_hash_def by (auto elim!: bind_Inr)
  from append_Inr [OF run(1) assms(2,3)] obtain bytes' where
    bytes: "dk_files d1 path = Some bytes'" "length bytes' = current + length (ur_data request)" by blast
  from sha256_loop_Inr [OF run(2) [unfolded sha256_def] bytes(1)] bytes show ?thesis by auto
qed

lemma rename_cases:
  assumes "rename_file source target d = (r, d')"
  obtains "dk_files d' = dk_files d" "isl r"
  | bytes where "r = Inr ()" "dk_files d source = Some bytes"
      "dk_files d' = (dk_files d)(source := None, target \<mapsto> bytes)"
proof -
  obtain r0 d0 where call: "io_call d = (r0, d0)" by fastforce
  have files: "dk_files d0 = dk_files d" using io_call_files [of d] call by simp
  from assms call files that show thesis
    by (cases r0; cases "dk_files d source") (auto simp: rename_file_def bind_def contents_def)
qed

lemma touches_answers:
  "within (touches paths) (completed_upload digest object request bytes_in)"
  "within (touches paths) (differing_upload partial request current)"
  unfolding completed_upload_def differing_upload_def sha256_def Let_def
  by (intro touched.within_intros touches_with_file touches_loop touches_basic; simp)+

lemma completed_honest:
  assumes "completed_upload digest object request (length bytes) d = (Inr a, d')" "us_status a = SUCCESS"
    and "dk_files d object = Some bytes"
  shows "digest bytes = ff_sha256 (upload_info request) \<and> int (length bytes) = u64 (ff_file_size (upload_info request))"
proof -
  from assms(1) obtain hash d1 where run: "with_file object False (sha256 digest object (length bytes)) d = (Inr hash, d1)"
    and a: "a = (if int (length bytes) \<noteq> u64 (ff_file_size (upload_info request)) \<or> hash \<noteq> ff_sha256 (upload_info request)
       then upload_answer request FAILED 0 ''completed file metadata mismatch''
       else upload_answer request SUCCESS (int (length bytes)) '''')"
    unfolding completed_upload_def by (auto simp: ret_def elim!: bind_Inr)
  from run obtain d2 d3 where loop: "sha256 digest object (length bytes) d2 = (Inr hash, d3)"
    "dk_files d2 = (if dk_files d object = None then (dk_files d)(object \<mapsto> []) else dk_files d)"
    by (rule with_file_Inr)
  have "dk_files d2 object = Some bytes" using loop(2) assms(3) by simp
  from sha256_loop_Inr [OF loop(1) [unfolded sha256_def] this] have "hash = digest bytes" by simp
  with a assms(2) show ?thesis by (auto simp: upload_answer_def split: if_splits)
qed

lemma differing_status: "differing_upload partial request current d = (Inr a, d') \<Longrightarrow> us_status a \<noteq> SUCCESS"
  by (auto simp: differing_upload_def Let_def ret_def upload_answer_def split: if_splits elim!: bind_Inr)

definition has_declared :: "(string \<Rightarrow> string) \<Rightarrow> UploadRequest \<Rightarrow> string option \<Rightarrow> bool" where
  "has_declared digest request content =
     (\<exists>bytes. content = Some bytes \<and> digest bytes = ff_sha256 (upload_info request) \<and>
        int (length bytes) = u64 (ff_file_size (upload_info request)))"

text \<open>An upload only reads, or reaches the writing of a chunk at the end of what is stored.\<close>

lemma upload_cases:
  fixes request root
  defines "object \<equiv> object_path root (ur_user_id request) (ff_file_id (upload_info request))"
    and "partial \<equiv> partial_path root (ur_user_id request) (ff_file_id (upload_info request))"
  assumes run: "upload digest root request d = (r, d')"
  obtains (unchanged) "touches {} d d'"
      "\<And>a. r = Inr a \<Longrightarrow> us_status a = SUCCESS \<Longrightarrow> has_declared digest request (dk_files d object)"
  | (chunk) d1 where "touches {} d d1" "dk_files d object = None"
      "store_chunk digest object partial request (length (stored_part partial d)) d1 = (r, d')"
proof -
  obtain r1 d1 where one: "io_call d = (r1, d1)" by fastforce
  obtain r2 d2 where two: "file_size object d1 = (r2, d2)" by fastforce
  obtain r3 d3 where three: "file_size partial d2 = (r3, d3)" by fastforce
  have t: "touches {} d d1" "touches {} d1 d2" "touches {} d2 d3"
    by (rule withinD [OF touches_basic(1) one] withinD [OF touches_basic(3) two] withinD [OF touches_basic(3) three])+
  then have files: "dk_files d1 = dk_files d" "dk_files d2 = dk_files d" "dk_files d3 = dk_files d"
    by (simp_all add: touches_def fun_eq_iff)
  have same: thesis if "touches {} d3 d'" "\<And>a. r = Inr a \<Longrightarrow> us_status a \<noteq> SUCCESS"
    using that files unchanged by (simp add: touches_def)
  have sized: "r2 = Inr n \<Longrightarrow> n = map_option length (dk_files d object)"
    "r3 = Inr n \<Longrightarrow> n = map_option length (dk_files d partial)" for n
    using two three files by (auto simp: file_size_def dest!: io_call_Inr elim!: bind_Inr)
  show thesis
  proof (cases "\<exists>u. r1 = Inr u \<and> r2 = Inr None")
    case False
    then consider "\<exists>e. r = Inl e" "d' = d1 \<or> d' = d2"
      | n where "r2 = Inr (Some n)" "completed_upload digest object request n d2 = (r, d')"
      using run one two unfolding upload_def Let_def object_def [symmetric]
      by (cases r1; cases r2) (auto simp: bind_def split: option.splits)
    then show thesis
    proof cases
      case 1
      with unchanged files show thesis by (auto simp: touches_def)
    next
      case (2 n)
      obtain bytes where bytes: "dk_files d object = Some bytes" "n = length bytes" using sized(1) [OF 2(1)] by (cases "dk_files d object") auto
      have "touches {} d2 d'" by (rule withinD [OF touches_answers(1) 2(2)])
      moreover have "has_declared digest request (dk_files d object)" if "r = Inr a" "us_status a = SUCCESS" for a
        using completed_honest [of digest object request bytes d2 a d'] 2(2) that bytes files by (simp add: has_declared_def)
      ultimately show thesis using unchanged files by (simp add: touches_def)
    qed
  next
    case True
    then have absent: "dk_files d object = None" using sized(1) [of None] by simp
    show thesis
    proof (cases r3)
      case (Inl e)
      with run True one two three have "d' = d3" "r = Inl e"
        unfolding upload_def Let_def object_def [symmetric] partial_def [symmetric] by (auto simp: bind_def)
      with same show thesis by (simp add: touches_def)
    next
      case (Inr stored)
      let ?current = "case stored of None \<Rightarrow> 0 | Some n \<Rightarrow> n"
      have current: "?current = length (stored_part partial d)"
        using sized(2) [OF Inr] by (simp add: stored_part_def split: option.split)
      from run True Inr one two three have
        "differing_upload partial request ?current d3 = (r, d') \<or>
         (d' = d3 \<and> r = Inr (upload_answer request FAILED 0 ''chunk exceeds declared size'')) \<or>
         store_chunk digest object partial request ?current d3 = (r, d')"
        unfolding upload_def Let_def object_def [symmetric] partial_def [symmetric]
        by (auto simp: bind_def ret_def split: if_splits)
      then show thesis
      proof (elim disjE)
        assume "store_chunk digest object partial request ?current d3 = (r, d')"
        with chunk [of d3] absent files current show thesis by (simp add: touches_def)
      next
        assume differs: "differing_upload partial request ?current d3 = (r, d')"
        show thesis by (rule same [OF withinD [OF touches_answers(2) differs]]) (use differs differing_status in blast)
      qed (use same touched.step_refl in \<open>auto simp: upload_answer_def\<close>)
    qed
  qed
qed

lemma store_chunk_cases:
  assumes run: "store_chunk digest object partial request (length (stored_part partial d)) d = (r, d')"
    and new: "dk_files d object = None" "object \<noteq> partial"
    and declared: "0 \<le> ff_file_size (upload_info request)" "ff_file_size (upload_info request) \<le> max_file_size"
  obtains (progress) "touches {partial} d d'" "\<And>a. r = Inr a \<Longrightarrow> us_status a \<noteq> SUCCESS"
  | (finished) bytes where "touches {partial, object} d d'" "dk_files d' object = Some bytes"
      "digest bytes = ff_sha256 (upload_info request)" "int (length bytes) = ff_file_size (upload_info request)"
      "r = Inr (upload_answer request SUCCESS (int (length bytes)) '''')"
proof -
  let ?old = "stored_part partial d" and ?info = "upload_info request"
  let ?finish = "length ?old + length (ur_data request)"
  let ?body = "write_and_hash digest partial request (length ?old) ?finish"
  have u: "u64 (ff_file_size ?info) = ff_file_size ?info"
    using declared by (intro u64_small) (auto simp: max_file_size_def)
  obtain r1 d1 where w: "with_file partial True ?body d = (r1, d1)" by fastforce
  have t: "touches {partial} d d1"
    by (rule withinD [OF touches_with_file w]) (simp_all add: touches_files(4))
  show thesis
  proof (cases "\<exists>hash. r1 = Inr hash \<and> ur_complete request \<and> int ?finish = ff_file_size ?info \<and> hash = ff_sha256 ?info")
    case False
    with run w u have "d' = d1" "\<And>a. r = Inr a \<Longrightarrow> us_status a \<noteq> SUCCESS"
      by (auto simp: store_chunk_def Let_def bind_def ret_def upload_answer_def split: sum.splits if_splits)
    with t progress show thesis by blast
  next
    case True
    then have final: "r1 = Inr (ff_sha256 ?info)" "ur_complete request" "int ?finish = ff_file_size ?info" by auto
    from w final(1) have "with_file partial True ?body d = (Inr (ff_sha256 ?info), d1)" by simp
    then obtain d2 d3 where body: "?body d2 = (Inr (ff_sha256 ?info), d3)" "dk_files d1 = dk_files d3"
      "dk_files d2 = (if dk_files d partial = None then (dk_files d)(partial \<mapsto> []) else dk_files d)"
      by (rule with_file_Inr)
    have "dk_files d2 partial = Some ?old" using body(3) by (auto simp: stored_part_def)
    from write_and_hash_Inr [OF body(1) this refl final(2,3)] body(2) obtain bytes where
      bytes: "dk_files d1 partial = Some bytes" "length bytes = ?finish" "digest bytes = ff_sha256 ?info" by auto
    obtain r4 d4 where mv: "rename_file partial object d1 = (r4, d4)" by fastforce
    with run w u final have out: "d' = d4" "isl r4 \<Longrightarrow> isl r" "r4 = Inr () \<Longrightarrow> r = Inr (upload_answer request SUCCESS (int ?finish) '''')"
      by (auto simp: store_chunk_def Let_def bind_def ret_def split: sum.splits)
    from mv show thesis
    proof (cases rule: rename_cases)
      case 1
      then have "r \<noteq> Inr a" for a using out(2) by auto
      with 1 t out(1) progress show thesis by (simp add: touches_def)
    next
      case (2 bytes')
      have "touches {partial, object} d d'" using t 2 out(1) by (auto simp: touches_def)
      moreover have "dk_files d' object = Some bytes" using 2 bytes(1) out(1) by simp
      ultimately show thesis using finished [of bytes] bytes out(3) 2(1) final(3) by simp
    qed
  qed
qed

section \<open>Paths\<close>

lemma digit_char_byte: "byte (digit_char n) = 48 + n mod 10"
  by (simp add: byte_def digit_char_def)

lemma to_string_no_slash: "CHR ''/'' \<notin> set (to_string i)"
proof -
  have "CHR ''/'' \<noteq> digit_char k" for k
  proof
    assume "CHR ''/'' = digit_char k"
    then have "byte (CHR ''/'') = 48 + k mod 10" by (simp add: digit_char_byte)
    then show False by (simp add: byte_def)
  qed
  then have "CHR ''/'' \<notin> set (nat_digits n)" for n using nat_digits_set by metis
  then show ?thesis by (simp add: to_string_def)
qed

lemma object_key_inj: "object_key u i = object_key v j \<longleftrightarrow> u = v \<and> i = j"
proof
  assume eq: "object_key u i = object_key v j"
  have "takeWhile (\<lambda>c. c \<noteq> CHR ''/'') (object_key w k) = to_string w" for w k
    using to_string_no_slash [of w] by (subst object_key_def, subst takeWhile_append2) auto
  with eq have "to_string u = to_string v" by metis
  with eq show "u = v \<and> i = j" by (simp add: object_key_def)
qed simp

lemma object_path_inj: "object_path root u i = object_path root v j \<longleftrightarrow> u = v \<and> i = j"
  by (simp add: object_path_def object_key_inj)

lemma partial_path_eq: "partial_path root u i = object_path root u (i @ ''.part'')"
  by (simp add: partial_path_def object_path_def object_key_def)

lemma safe_paths:
  assumes "safe_id i" "safe_id j"
  shows "partial_path root u i \<noteq> object_path root v j" "partial_path root u i = partial_path root v j \<longleftrightarrow> u = v \<and> i = j"
proof -
  have "length i = length j" using assms by (simp add: safe_id_def)
  then show "partial_path root u i \<noteq> object_path root v j" "partial_path root u i = partial_path root v j \<longleftrightarrow> u = v \<and> i = j"
    by (auto simp: partial_path_eq object_path_inj)
qed

section \<open>Properties\<close>

text \<open>C36: Writing a chunk in whole aligned blocks, with the tail of the last block read back, zeros behind the data
  and the padding cut off afterwards, is appending the chunk, for every alignment of the device.\<close>

theorem append_equals_concatenation:
  assumes "dk_faults d = []" "dk_files d path = Some bytes" "0 < dk_alignment d"
  shows "append path (length bytes) data d = (Inr (), set_file path (bytes @ data) d)"
  by (rule append_calm [OF assms])

theorem append_equals_concatenation_witness:
  "fst (append ''f'' 5 ''xyz'' \<lparr>dk_files = [''f'' \<mapsto> ''hello''], dk_faults = [], dk_alignment = 4\<rparr>) = Inr () \<and>
   dk_files (snd (append ''f'' 5 ''xyz'' \<lparr>dk_files = [''f'' \<mapsto> ''hello''], dk_faults = [], dk_alignment = 4\<rparr>)) ''f'' =
     Some ''helloxyz''"
  using append_equals_concatenation [of "\<lparr>dk_files = [''f'' \<mapsto> ''hello''], dk_faults = [], dk_alignment = 4\<rparr>" "''f''" "''hello''" "''xyz''"]
  by (simp add: eval_nat_numeral)

text \<open>C4: Whatever call of the file system fails and wherever a write stops, an upload changes no file but those of its own
  user and file id, never changes a completed object, and completes one only with the declared size and
  hash; a SUCCESS means that the object is there with both.\<close>

theorem upload_protects_objects:
  assumes "valid_upload request" "upload digest root request d = (r, d')"
  shows "(\<forall>uid file_id. safe_id file_id \<and> (uid, file_id) \<noteq> (ur_user_id request, ff_file_id (upload_info request)) \<longrightarrow>
      dk_files d' (object_path root uid file_id) = dk_files d (object_path root uid file_id) \<and>
      dk_files d' (partial_path root uid file_id) = dk_files d (partial_path root uid file_id)) \<and>
    (let object = object_path root (ur_user_id request) (ff_file_id (upload_info request)) in
     (dk_files d' object = dk_files d object \<or> dk_files d object = None \<and> has_declared digest request (dk_files d' object)) \<and>
     (\<forall>a. r = Inr a \<and> us_status a = SUCCESS \<longrightarrow> has_declared digest request (dk_files d' object)))"
proof -
  let ?uid = "ur_user_id request" and ?id = "ff_file_id (upload_info request)"
  let ?object = "object_path root ?uid ?id" and ?partial = "partial_path root ?uid ?id"
  have ok: "safe_id ?id" "0 \<le> ff_file_size (upload_info request)" "ff_file_size (upload_info request) \<le> max_file_size"
    using assms(1) by (auto simp: valid_upload_def Let_def)
  have frame: "dk_files d' (object_path root uid i) = dk_files d (object_path root uid i) \<and>
      dk_files d' (partial_path root uid i) = dk_files d (partial_path root uid i)"
    if "touches {?partial, ?object} d d'" "safe_id i" "(uid, i) \<noteq> (?uid, ?id)" for uid i
  proof -
    have "object_path root uid i \<noteq> ?object" "partial_path root uid i \<noteq> ?partial"
      using that(3) by (auto simp: object_path_inj safe_paths(2) [OF that(2) ok(1)])
    moreover have "object_path root uid i \<noteq> ?partial" "partial_path root uid i \<noteq> ?object"
      using safe_paths(1) [OF ok(1) that(2), of root ?uid uid] safe_paths(1) [OF that(2) ok(1), of root uid ?uid] by auto
    ultimately show ?thesis using that(1) by (simp add: touches_def)
  qed
  have more: "touches {?partial, ?object} d d'" if "touches {} d d' \<or> touches {?partial} d d'"
    using that by (auto simp: touches_def)
  note apart = partial_not_object [symmetric]
  have u: "u64 (ff_file_size (upload_info request)) = ff_file_size (upload_info request)"
    using ok by (intro u64_small) (auto simp: max_file_size_def)
  from assms(2) show ?thesis
  proof (cases rule: upload_cases)
    case unchanged
    then have "dk_files d' = dk_files d" by (auto simp: touches_def)
    with unchanged(2) frame more unchanged(1) show ?thesis by (simp add: Let_def) blast
  next
    case (chunk d1)
    have d1: "dk_files d1 = dk_files d" using chunk(1) by (auto simp: touches_def)
    then have old: "stored_part ?partial d = stored_part ?partial d1" by (simp add: stored_part_def)
    from chunk(3) [unfolded old] chunk(2) [folded d1] apart ok(2,3) show ?thesis
    proof (cases rule: store_chunk_cases)
      case progress
      then have t: "touches {?partial} d d'" using d1 by (simp add: touches_def)
      then have "dk_files d' ?object = dk_files d ?object" using apart by (simp add: touches_def)
      with frame more t progress(2) show ?thesis by (simp add: Let_def) blast
    next
      case (finished bytes)
      then have "touches {?partial, ?object} d d'" using d1 by (simp add: touches_def)
      moreover have "has_declared digest request (dk_files d' ?object)" using finished u by (simp add: has_declared_def)
      ultimately show ?thesis using frame chunk(2) by (simp add: Let_def)
    qed
  qed
qed

definition sample_file :: file_FileInfo where
  "sample_file = \<lparr>ff_file_id = replicate 36 CHR ''a'', ff_file_name = ''notes'', ff_file_type = ''text/plain'',
     ff_file_size = 5, ff_sha256 = replicate 32 CHR ''h''\<rparr>"

definition sample_upload :: UploadRequest where
  "sample_upload = \<lparr>ur_file = Some sample_file, ur_user_id = 7, ur_offset = 0, ur_data = ''ab'', ur_complete = False\<rparr>"

definition sample_download :: DownloadRequest where
  "sample_download = \<lparr>dr_file = Some sample_file, dr_user_id = 7, dr_offset = 0, dr_limit = 2\<rparr>"

definition sample_disk :: "disk_fault list \<Rightarrow> disk" where
  "sample_disk faults = \<lparr>dk_files = (\<lambda>_. None), dk_faults = faults, dk_alignment = 4\<rparr>"

lemma sample_upload_valid: "valid_upload sample_upload"
  by (simp add: valid_upload_def sample_upload_def sample_file_def upload_info_def safe_id_def display_name_def byte_def
      isalnum_def max_file_size_def max_chunk_size_def list_all_iff)

theorem upload_protects_objects_witness:
  "valid_upload sample_upload \<and>
   dk_files (snd (upload (\<lambda>_. []) ''/data'' sample_upload (sample_disk [Io_ok, Io_ok, Io_short 1])))
     (object_path ''/data'' 8 (replicate 36 CHR ''a'')) = None"
proof -
  have "safe_id (replicate 36 CHR ''a'')" "(8, replicate 36 CHR ''a'') \<noteq> (ur_user_id sample_upload, ff_file_id (upload_info sample_upload))"
    by (simp_all add: sample_upload_def safe_id_def isalnum_def byte_def list_all_iff)
  then have "dk_files (snd (upload (\<lambda>_. []) ''/data'' sample_upload (sample_disk [Io_ok, Io_ok, Io_short 1])))
      (object_path ''/data'' 8 (replicate 36 CHR ''a'')) =
    dk_files (sample_disk [Io_ok, Io_ok, Io_short 1]) (object_path ''/data'' 8 (replicate 36 CHR ''a''))"
    using upload_protects_objects [OF sample_upload_valid prod.collapse [symmetric]] by blast
  then show ?thesis using sample_upload_valid by (simp add: sample_disk_def)
qed

text \<open>C10: What was uploaded comes back: a client that sends a file in any chunks, starting from whatever part is
  stored already, ends with SUCCESS, and one that then reads it page by page, with any limit, gets exactly the
  bytes that were sent, after at most one page per byte.\<close>

theorem upload_download_roundtrip:
  fixes request root d
  defines "object \<equiv> object_path root (ur_user_id request) (ff_file_id (upload_info request))"
    and "sent \<equiv> stored_part (partial_path root (ur_user_id request) (ff_file_id (upload_info request))) d"
  assumes "dk_faults d = []" "0 < dk_alignment d" "dk_files d object = None" "chunks \<noteq> []"
    and "int (length (sent @ concat chunks)) = ff_file_size (upload_info request)"
    and "ff_file_size (upload_info request) \<le> max_file_size"
    and "digest (sent @ concat chunks) = ff_sha256 (upload_info request)"
    and "dr_user_id reader = ur_user_id request" "ff_file_id (download_info reader) = ff_file_id (upload_info request)"
    and "dr_offset reader = 0" "length (sent @ concat chunks) < pages"
  shows "\<exists>answers d'. upload_chunks digest root request (length sent) chunks d = (Inr answers, d') \<and>
    us_status (last answers) = SUCCESS \<and> download_pages pages root reader d' = (Inr (Some (sent @ concat chunks)), d')"
proof -
  let ?d = "d\<lparr>dk_files := (dk_files d)(partial_path root (ur_user_id request) (ff_file_id (upload_info request)) := None,
      object \<mapsto> sent @ concat chunks)\<rparr>"
  obtain answers where "upload_chunks digest root request (length sent) chunks d = (Inr answers, ?d)"
    "last answers = upload_answer request SUCCESS (ff_file_size (upload_info request)) ''''"
    using upload_chunks_calm [of d root request chunks digest] assms by auto
  moreover have "download_pages pages root reader ?d = (Inr (Some (drop 0 (sent @ concat chunks))), ?d)"
    by (rule download_pages_calm) (use assms in \<open>simp_all add: object_def\<close>)
  ultimately show ?thesis by (simp add: upload_answer_def)
qed

theorem upload_download_roundtrip_witness:
  "\<exists>answers d'. upload_chunks (\<lambda>_. replicate 32 CHR ''h'') ''/data'' sample_upload 0 [''ab'', ''cde''] (sample_disk []) =
       (Inr answers, d') \<and>
     us_status (last answers) = SUCCESS \<and> download_pages 6 ''/data'' sample_download d' = (Inr (Some ''abcde''), d')"
proof -
  have info: "upload_info sample_upload = sample_file" "download_info sample_download = sample_file"
    by (simp_all add: sample_upload_def sample_download_def upload_info_def download_info_def)
  have none: "stored_part path (sample_disk []) = []" for path by (simp add: stored_part_def sample_disk_def)
  have "\<exists>answers d'. upload_chunks (\<lambda>_. replicate 32 CHR ''h'') ''/data'' sample_upload
       (length (stored_part (partial_path ''/data'' (ur_user_id sample_upload) (ff_file_id (upload_info sample_upload)))
         (sample_disk []))) [''ab'', ''cde''] (sample_disk []) = (Inr answers, d') \<and>
     us_status (last answers) = SUCCESS \<and> download_pages 6 ''/data'' sample_download d' =
       (Inr (Some (stored_part (partial_path ''/data'' (ur_user_id sample_upload) (ff_file_id (upload_info sample_upload)))
         (sample_disk []) @ concat [''ab'', ''cde''])), d')"
    by (rule upload_download_roundtrip)
      (simp_all only: info none, simp_all add: sample_disk_def sample_file_def sample_upload_def sample_download_def max_file_size_def)
  then show ?thesis unfolding none by (simp only: list.size concat.simps append.simps)
qed

end
