(* ===== verification/File_Service.thy ===== *)
theory File_Service
  imports File_Storage Io_Queue
begin

text \<open>
  The File service (\<^verbatim>\<open>file/service.cc\<close>).  A call is admitted on the shard that received it, checked, and
  handed to the shard that owns the key of its object; there it takes part of the storage
  capacity and the lock of the object, runs, and finishes.  Calls that wait for a lock are
  served in their order.
\<close>

section \<open>Calls\<close>

datatype file_request = Upload_request UploadRequest | Download_request DownloadRequest

datatype file_response = Upload_response UploadResponse | Download_response DownloadResponse

record unary_call =
  uc_id :: nat
  uc_shard :: nat
  uc_operation :: file_request
  uc_bytes :: int

record file_result =
  fr_call :: nat
  fr_status :: StatusCode
  fr_message :: string
  fr_payload :: "file_response option"

fun valid_request :: "file_request \<Rightarrow> bool" where
  "valid_request (Upload_request request) = valid_upload request"
| "valid_request (Download_request request) = valid_download request"

fun request_key :: "file_request \<Rightarrow> string" where
  "request_key (Upload_request request) = object_key (ur_user_id request) (ff_file_id (upload_info request))"
| "request_key (Download_request request) = object_key (dr_user_id request) (ff_file_id (download_info request))"

fun invalid_response :: "file_request \<Rightarrow> file_response" where
  "invalid_response (Upload_request request) =
     Upload_response (upload_answer request FAILED 0 ''invalid file upload request'')"
| "invalid_response (Download_request request) =
     Download_response (download_answer FAILED '''' 0 False ''invalid file download request'')"

definition call_key :: "unary_call \<Rightarrow> string" where
  "call_key call = request_key (uc_operation call)"

section \<open>Shards\<close>

record object_state =
  os_exclusive :: nat
  os_waiting :: "unary_call list"

record file_shard =
  fs_stopping :: bool
  fs_requests :: budget
  fs_operations :: budget
  fs_objects :: "string \<Rightarrow> object_state option"
  fs_running :: "unary_call list"
  fs_disk :: disk

record file_service =
  fv_shards :: "nat \<Rightarrow> file_shard"
  fv_next :: nat
  fv_finished :: "file_result list"

definition dispatch :: "(string \<Rightarrow> string) \<Rightarrow> string \<Rightarrow> file_request \<Rightarrow> (disk, file_response) prog" where
  "dispatch digest root operation =
     (case operation of
        Upload_request request \<Rightarrow> bind (upload digest root request) (\<lambda>output. ret (Upload_response output))
      | Download_request request \<Rightarrow> bind (download root request) (\<lambda>output. ret (Download_response output)))"

definition set_object :: "string \<Rightarrow> object_state option \<Rightarrow> file_shard \<Rightarrow> file_shard" where
  "set_object key state sh = sh\<lparr>fs_objects := (fs_objects sh)(key := state)\<rparr>"

text \<open>
  The first half of \<^verbatim>\<open>service::store\<close>: capacity, the state of the object, and its lock
  or a place in the queue for it.
\<close>

definition store_begin :: "unary_call \<Rightarrow> file_shard \<Rightarrow> (StatusCode \<times> string) option \<times> file_shard" where
  "store_begin call sh =
    (if fs_stopping sh then (Some (UNAVAILABLE, ''File is stopping''), sh)
     else case acquire (uc_bytes call) (fs_operations sh) of
       (Inl e, b) \<Rightarrow> (Some (RESOURCE_EXHAUSTED, ''File storage capacity exceeded''), sh)
     | (Inr units, b) \<Rightarrow>
         let key = call_key call;
             state = (case fs_objects sh key of None \<Rightarrow> \<lparr>os_exclusive = 1, os_waiting = []\<rparr> | Some s \<Rightarrow> s);
             sh1 = sh\<lparr>fs_operations := b\<rparr> in
         if 1 \<le> os_exclusive state \<and> os_waiting state = []
         then (None, set_object key (Some (state\<lparr>os_exclusive := os_exclusive state - 1\<rparr>))
                       (sh1\<lparr>fs_running := fs_running sh1 @ [call]\<rparr>))
         else (None, set_object key (Some (state\<lparr>os_waiting := os_waiting state @ [call]\<rparr>)) sh1))"

text \<open>\<^verbatim>\<open>return_all\<close> gives the lock to the first waiter at once.\<close>

definition return_lock :: "string \<Rightarrow> file_shard \<Rightarrow> file_shard" where
  "return_lock key sh =
     (case fs_objects sh key of
        None \<Rightarrow> sh
      | Some state \<Rightarrow>
          (case os_waiting state of
             [] \<Rightarrow> set_object key (Some (state\<lparr>os_exclusive := os_exclusive state + 1\<rparr>)) sh
           | call # calls \<Rightarrow> set_object key (Some (state\<lparr>os_waiting := calls\<rparr>)) (sh\<lparr>fs_running := fs_running sh @ [call]\<rparr>)))"

definition holders :: "string \<Rightarrow> file_shard \<Rightarrow> unary_call list" where
  "holders key sh =
     filter (\<lambda>call. call_key call = key) (fs_running sh) @
     (case fs_objects sh key of None \<Rightarrow> [] | Some state \<Rightarrow> os_waiting state)"

definition call_units :: "unary_call \<Rightarrow> capacity_units" where
  "call_units call = \<lparr>u_count = 1, u_bytes = uc_bytes call\<rparr>"

text \<open>
  The second half: the request runs, the lock goes back, and the state is erased when only
  the map and this request still refer to it.
\<close>

definition store_end ::
  "(string \<Rightarrow> string) \<Rightarrow> string \<Rightarrow> unary_call \<Rightarrow> file_shard \<Rightarrow> (exn + file_response) \<times> file_shard" where
  "store_end digest root call sh =
    (let key = call_key call;
         (output, disk) = dispatch digest root (uc_operation call) (fs_disk sh);
         sh1 = return_lock key (sh\<lparr>fs_disk := disk\<rparr>);
         sh2 = (if length (holders key sh1) = 1 then set_object key None sh1 else sh1) in
     (output, sh2\<lparr>fs_running := remove1 call (fs_running sh2),
                  fs_operations := release (call_units call) (fs_operations sh2)\<rparr>))"

section \<open>The service\<close>

definition at_shard :: "nat \<Rightarrow> file_shard \<Rightarrow> file_service \<Rightarrow> file_service" where
  "at_shard n sh fv = fv\<lparr>fv_shards := (fv_shards fv)(n := sh)\<rparr>"

text \<open>\<^verbatim>\<open>Finish\<close>; the capacity of the call goes back when gRPC is done with it.\<close>

definition finish_call :: "unary_call \<Rightarrow> StatusCode \<Rightarrow> string \<Rightarrow> file_response option \<Rightarrow> file_service \<Rightarrow> file_service" where
  "finish_call call status message payload fv =
    (let sh = fv_shards fv (uc_shard call) in
     (at_shard (uc_shard call) (sh\<lparr>fs_requests := release (call_units call) (fs_requests sh)\<rparr>) fv)
       \<lparr>fv_finished := fv_finished fv @
          [\<lparr>fr_call = uc_id call, fr_status = status, fr_message = message, fr_payload = payload\<rparr>]\<rparr>)"

definition execute_begin :: "nat \<Rightarrow> unary_call \<Rightarrow> file_service \<Rightarrow> file_service" where
  "execute_begin shards call fv =
    (if \<not> valid_request (uc_operation call)
     then finish_call call OK '''' (Some (invalid_response (uc_operation call))) fv
     else
       let owner = key_shard (call_key call) shards;
           (refused, sh) = store_begin call (fv_shards fv owner);
           fv1 = at_shard owner sh fv in
       case refused of
         Some (status, message) \<Rightarrow> finish_call call status message None fv1
       | None \<Rightarrow> fv1)"

definition execute_end ::
  "(string \<Rightarrow> string) \<Rightarrow> string \<Rightarrow> nat \<Rightarrow> unary_call \<Rightarrow> file_service \<Rightarrow> file_service" where
  "execute_end digest root shards call fv =
    (let owner = key_shard (call_key call) shards;
         (output, sh) = store_end digest root call (fv_shards fv owner);
         fv1 = at_shard owner sh fv in
     case output of
       Inl e \<Rightarrow> finish_call call INTERNAL (what e) None fv1
     | Inr payload \<Rightarrow> finish_call call OK '''' (Some payload) fv1)"

definition service_call :: "nat \<Rightarrow> nat \<Rightarrow> file_request \<Rightarrow> nat \<Rightarrow> file_service \<Rightarrow> file_service" where
  "service_call shards shard operation byte_size fv =
    (let call = \<lparr>uc_id = fv_next fv, uc_shard = shard, uc_operation = operation,
                 uc_bytes = int (byte_size + max_chunk_size + 65536)\<rparr>;
         sh = fv_shards fv shard;
         fv1 = fv\<lparr>fv_next := Suc (fv_next fv)\<rparr>;
         reject = (\<lambda>status message. fv1\<lparr>fv_finished := fv_finished fv1 @
           [\<lparr>fr_call = uc_id call, fr_status = status, fr_message = message, fr_payload = None\<rparr>]\<rparr>) in
     if fs_stopping sh then reject UNAVAILABLE ''File is stopping''
     else case acquire (uc_bytes call) (fs_requests sh) of
       (Inl e, b) \<Rightarrow> reject RESOURCE_EXHAUSTED ''File request capacity exceeded''
     | (Inr units, b) \<Rightarrow> execute_begin shards call (at_shard shard (sh\<lparr>fs_requests := b\<rparr>) fv1))"

definition service_stop :: "nat \<Rightarrow> file_service \<Rightarrow> file_service" where
  "service_stop shard fv = at_shard shard ((fv_shards fv shard)\<lparr>fs_stopping := True\<rparr>) fv"

record file_options =
  fo_max_requests :: nat
  fo_max_bytes :: nat

definition new_service :: "file_options \<Rightarrow> (nat \<Rightarrow> disk) \<Rightarrow> file_service" where
  "new_service options disks =
     \<lparr>fv_shards = (\<lambda>n. \<lparr>fs_stopping = False,
        fs_requests = \<lparr>b_count = int (fo_max_requests options), b_bytes = int (fo_max_bytes options)\<rparr>,
        fs_operations = \<lparr>b_count = int (fo_max_requests options), b_bytes = int (fo_max_bytes options)\<rparr>,
        fs_objects = (\<lambda>_. None), fs_running = [], fs_disk = disks n\<rparr>),
      fv_next = 0, fv_finished = []\<rparr>"

inductive file_step ::
  "(string \<Rightarrow> string) \<Rightarrow> string \<Rightarrow> nat \<Rightarrow> file_service \<Rightarrow> file_service \<Rightarrow> bool" for digest root shards where
  called: "shard < shards \<Longrightarrow> file_step digest root shards fv (service_call shards shard operation byte_size fv)"
| stopped: "shard < shards \<Longrightarrow> file_step digest root shards fv (service_stop shard fv)"
| ended: "call \<in> set (fs_running (fv_shards fv (key_shard (call_key call) shards))) \<Longrightarrow>
    file_step digest root shards fv (execute_end digest root shards call fv)"

inductive file_reachable ::
  "(string \<Rightarrow> string) \<Rightarrow> string \<Rightarrow> nat \<Rightarrow> file_options \<Rightarrow> (nat \<Rightarrow> disk) \<Rightarrow> file_service \<Rightarrow> bool"
  for digest root shards options disks where
  init: "file_reachable digest root shards options disks (new_service options disks)"
| step: "file_reachable digest root shards options disks fv \<Longrightarrow> file_step digest root shards fv fv' \<Longrightarrow>
    file_reachable digest root shards options disks fv'"

section \<open>The lock of an object is a queue\<close>

definition key_ok :: "string \<Rightarrow> file_shard \<Rightarrow> bool" where
  "key_ok key sh =
     (case fs_objects sh key of
        None \<Rightarrow> filter (\<lambda>c. call_key c = key) (fs_running sh) = []
      | Some state \<Rightarrow> os_exclusive state = 0 \<and> length (filter (\<lambda>c. call_key c = key) (fs_running sh)) = 1 \<and>
          (\<forall>c \<in> set (os_waiting state). call_key c = key))"

definition shard_ok :: "file_shard \<Rightarrow> bool" where
  "shard_ok sh = (\<forall>key. key_ok key sh)"

lemma key_ok_cases:
  assumes "shard_ok sh"
  obtains (free) "fs_objects sh key = None" "filter (\<lambda>c. call_key c = key) (fs_running sh) = []" "holders key sh = []"
  | (locked) c cs where "fs_objects sh key = Some \<lparr>os_exclusive = 0, os_waiting = cs\<rparr>"
      "filter (\<lambda>c. call_key c = key) (fs_running sh) = [c]" "holders key sh = c # cs"
      "\<And>d. d \<in> set (c # cs) \<Longrightarrow> call_key d = key"
proof (cases "fs_objects sh key")
  case None
  with assms free show thesis by (auto simp: shard_ok_def key_ok_def holders_def dest: spec [of _ key])
next
  case (Some state)
  with assms have ok: "os_exclusive state = 0" "length (filter (\<lambda>c. call_key c = key) (fs_running sh)) = 1"
    "\<forall>c \<in> set (os_waiting state). call_key c = key" by (auto simp: shard_ok_def key_ok_def dest: spec [of _ key])
  then obtain c where c: "filter (\<lambda>c. call_key c = key) (fs_running sh) = [c]" by (auto simp: length_Suc_conv)
  then have "c \<in> set (filter (\<lambda>c. call_key c = key) (fs_running sh))" by simp
  then have "call_key c = key" by simp
  with Some ok c show thesis by (intro locked [of "os_waiting state" c]) (auto simp: holders_def)
qed

lemma key_frame:
  assumes "fs_objects sh' key = fs_objects sh key"
    "filter (\<lambda>c. call_key c = key) (fs_running sh') = filter (\<lambda>c. call_key c = key) (fs_running sh)"
  shows "key_ok key sh' = key_ok key sh" "holders key sh' = holders key sh"
  by (simp_all only: key_ok_def holders_def assms)

lemma store_begin_refused: "store_begin call sh = (Some e, sh') \<Longrightarrow> sh' = sh"
  by (auto simp: store_begin_def Let_def split: if_splits prod.splits sum.splits)

lemma store_begin_queues:
  assumes "shard_ok sh" "store_begin call sh = (None, sh')"
  shows "shard_ok sh'" "holders key sh' = (if key = call_key call then holders key sh @ [call] else holders key sh)"
proof -
  obtain units b where got: "acquire (uc_bytes call) (fs_operations sh) = (Inr units, b)" "\<not> fs_stopping sh"
    using assms(2) by (auto simp: store_begin_def Let_def split: if_splits prod.splits sum.splits)
  have "key_ok key sh' \<and> holders key sh' = (if key = call_key call then holders key sh @ [call] else holders key sh)" for key
    using assms(1)
  proof (cases rule: key_ok_cases [where key = "call_key call"])
    case free
    with assms(2) got have sh': "sh' = set_object (call_key call) (Some \<lparr>os_exclusive = 0, os_waiting = []\<rparr>)
        (sh\<lparr>fs_operations := b, fs_running := fs_running sh @ [call]\<rparr>)"
      by (simp add: store_begin_def Let_def)
    show ?thesis
    proof (cases "key = call_key call")
      case True
      with free show ?thesis by (simp add: sh' set_object_def key_ok_def holders_def)
    next
      case False
      then show ?thesis using key_frame [of sh' key sh] assms(1) by (simp add: sh' set_object_def shard_ok_def)
    qed
  next
    case (locked c cs)
    with assms(2) got have sh': "sh' = set_object (call_key call) (Some \<lparr>os_exclusive = 0, os_waiting = cs @ [call]\<rparr>)
        (sh\<lparr>fs_operations := b\<rparr>)"
      by (simp add: store_begin_def Let_def)
    show ?thesis
    proof (cases "key = call_key call")
      case True
      with locked show ?thesis by (auto simp: sh' set_object_def key_ok_def holders_def)
    next
      case False
      then show ?thesis using key_frame [of sh' key sh] assms(1) by (simp add: sh' set_object_def shard_ok_def)
    qed
  qed
  then show "shard_ok sh'" "holders key sh' = (if key = call_key call then holders key sh @ [call] else holders key sh)"
    by (simp_all add: shard_ok_def)
qed

lemma filter_remove1: "filter P (remove1 x xs) = (if P x then remove1 x (filter P xs) else filter P xs)"
  by (induction xs) auto

lemma store_end_dequeues:
  assumes "shard_ok sh" "call \<in> set (fs_running sh)" "store_end digest root call sh = (out, sh')"
  shows "shard_ok sh'" "holders (call_key call) sh = call # holders (call_key call) sh'"
    "key \<noteq> call_key call \<Longrightarrow> holders key sh' = holders key sh"
proof -
  let ?key = "call_key call"
  obtain disk where run: "dispatch digest root (uc_operation call) (fs_disk sh) = (out, disk)"
    using assms(3) by (auto simp: store_end_def Let_def split: prod.splits)
  have mine: "call \<in> set (filter (\<lambda>c. call_key c = ?key) (fs_running sh))" using assms(2) by simp
  obtain cs where locked: "fs_objects sh ?key = Some \<lparr>os_exclusive = 0, os_waiting = cs\<rparr>"
    "filter (\<lambda>c. call_key c = ?key) (fs_running sh) = [call]" "holders ?key sh = call # cs"
    "\<And>d. d \<in> set (call # cs) \<Longrightarrow> call_key d = ?key"
    using assms(1)
  proof (cases rule: key_ok_cases [where key = ?key])
    case free
    with mine show ?thesis by simp
  next
    case (locked c cs)
    have "c = call" using mine locked(2) by simp
    with locked that show ?thesis by blast
  qed
  have all: "(key = ?key \<longrightarrow> holders ?key sh = call # holders ?key sh') \<and>
      (key \<noteq> ?key \<longrightarrow> holders key sh' = holders key sh) \<and> key_ok key sh'" for key
  proof (cases cs)
    case Nil
    with assms(3) run locked(1-3) have sh': "sh' = set_object ?key None (sh\<lparr>fs_disk := disk,
        fs_running := remove1 call (fs_running sh), fs_operations := release (call_units call) (fs_operations sh)\<rparr>)"
      by (auto simp: store_end_def Let_def return_lock_def holders_def set_object_def)
    show ?thesis
    proof (cases "key = ?key")
      case True
      with locked(1-3) Nil show ?thesis by (simp add: sh' set_object_def key_ok_def holders_def filter_remove1)
    next
      case False
      then show ?thesis using key_frame [of sh' key sh] assms(1)
        by (simp add: sh' set_object_def shard_ok_def filter_remove1)
    qed
  next
    case (Cons d ds)
    have waiting: "call_key c = ?key" if "c \<in> set (d # ds)" for c by (rule locked(4)) (use that Cons in simp)
    have d: "call_key d = ?key" by (rule waiting) simp
    with Cons assms(3) run locked(1-3) have sh': "sh' = set_object ?key (Some \<lparr>os_exclusive = 0, os_waiting = ds\<rparr>) (sh\<lparr>fs_disk := disk,
        fs_running := remove1 call (fs_running sh @ [d]), fs_operations := release (call_units call) (fs_operations sh)\<rparr>)"
      by (auto simp: store_end_def Let_def return_lock_def holders_def set_object_def)
    show ?thesis
    proof (cases "key = ?key")
      case True
      moreover have "\<forall>c \<in> set ds. call_key c = ?key" using waiting by (intro ballI) simp
      ultimately show ?thesis using locked(1-3) Cons d by (simp add: sh' set_object_def key_ok_def holders_def filter_remove1)
    next
      case False
      then show ?thesis using key_frame [of sh' key sh] assms(1) d
        by (simp add: sh' set_object_def shard_ok_def filter_remove1)
    qed
  qed
  then show "shard_ok sh'" "holders ?key sh = call # holders ?key sh'"
    "key \<noteq> ?key \<Longrightarrow> holders key sh' = holders key sh" by (simp_all add: shard_ok_def)
qed

section \<open>No call is lost\<close>

text \<open>
  The calls that are queued at the objects, the calls that are finished, and the number of
  the next call: a ledger in which every number given out stands exactly once.
\<close>

definition ledger_ok :: "(string \<Rightarrow> nat list) \<Rightarrow> nat list \<Rightarrow> nat \<Rightarrow> bool" where
  "ledger_ok queues finished n =
     (distinct finished \<and> (\<forall>k. distinct (queues k)) \<and> (\<forall>k. set (queues k) \<inter> set finished = {}) \<and>
      (\<forall>k l. k \<noteq> l \<longrightarrow> set (queues k) \<inter> set (queues l) = {}) \<and>
      set finished \<union> (\<Union>k. set (queues k)) = {..<n})"

lemma ledger_below: "ledger_ok Q F n \<Longrightarrow> x \<in> set (Q k) \<or> x \<in> set F \<Longrightarrow> x < n"
  unfolding ledger_ok_def by blast

lemma ledger_answer:
  assumes "ledger_ok Q F n"
  shows "ledger_ok Q (F @ [n]) (Suc n)"
proof -
  have "n \<notin> set F" "\<And>k. n \<notin> set (Q k)" using ledger_below [OF assms] by blast+
  then show ?thesis using assms unfolding ledger_ok_def by (simp add: lessThan_Suc)
qed

lemma ledger_enqueue:
  assumes "ledger_ok Q F n"
  shows "ledger_ok (Q(k := Q k @ [n])) F (Suc n)"
proof -
  have new: "n \<notin> set F" "\<And>l. n \<notin> set (Q l)" using ledger_below [OF assms] by blast+
  have "(\<Union>l. set ((Q(k := Q k @ [n])) l)) = insert n (\<Union>l. set (Q l))" by (auto split: if_splits)
  with new assms show ?thesis unfolding ledger_ok_def by (auto simp: lessThan_Suc)
qed

lemma ledger_dequeue:
  assumes "ledger_ok Q F n" "Q k = x # xs"
  shows "ledger_ok (Q(k := xs)) (F @ [x]) n"
proof -
  have split: "(\<Union>l. set (P l)) = set (P k) \<union> (\<Union>l \<in> - {k}. set (P l))" for P :: "string \<Rightarrow> nat list" by auto
  have all: "insert x (\<Union>l. set ((Q(k := xs)) l)) = (\<Union>l. set (Q l))"
    unfolding split [of "Q(k := xs)"] split [of Q] using assms(2) by auto
  have "x \<in> set (Q k)" using assms(2) by simp
  then have x: "x \<notin> set F" "\<And>l. l \<noteq> k \<Longrightarrow> x \<notin> set (Q l)" using assms(1) unfolding ledger_ok_def by blast+
  have old: "distinct F" "\<And>l. distinct (Q l)" "\<And>l. set (Q l) \<inter> set F = {}"
    "\<And>l m. l \<noteq> m \<Longrightarrow> set (Q l) \<inter> set (Q m) = {}" "set F \<union> (\<Union>l. set (Q l)) = {..<n}"
    using assms(1) unfolding ledger_ok_def by blast+
  have rest: "x \<notin> set xs" "distinct xs" using old(2) [of k] assms(2) by simp_all
  have sub: "set ((Q(k := xs)) l) \<subseteq> set (Q l)" "x \<notin> set ((Q(k := xs)) l)" for l using assms(2) rest x(2) by auto
  show ?thesis unfolding ledger_ok_def
  proof (intro conjI allI impI)
    show "distinct (F @ [x])" using old(1) x(1) by simp
    show "distinct ((Q(k := xs)) l)" for l using old(2) rest(2) by simp
    show "set ((Q(k := xs)) l) \<inter> set (F @ [x]) = {}" for l
      unfolding set_append list.set using sub(1) [of l] sub(2) [of l] old(3) [of l] by blast
    show "set ((Q(k := xs)) l) \<inter> set ((Q(k := xs)) m) = {}" if "l \<noteq> m" for l m
      using sub(1) [of l] sub(1) [of m] old(4) [OF that] by blast
    have "set F \<union> insert x (\<Union>l. set ((Q(k := xs)) l)) = {..<n}" unfolding all by (rule old(5))
    then show "set (F @ [x]) \<union> (\<Union>l. set ((Q(k := xs)) l)) = {..<n}" by (simp del: fun_upd_apply)
  qed
qed

definition tickets :: "nat \<Rightarrow> file_service \<Rightarrow> string \<Rightarrow> nat list" where
  "tickets shards fv key = map uc_id (holders key (fv_shards fv (key_shard key shards)))"

definition placed :: "nat \<Rightarrow> file_service \<Rightarrow> bool" where
  "placed shards fv =
     ((\<forall>n. shard_ok (fv_shards fv n)) \<and> (\<forall>n key. n \<noteq> key_shard key shards \<longrightarrow> holders key (fv_shards fv n) = []))"

definition service_ok :: "nat \<Rightarrow> file_service \<Rightarrow> bool" where
  "service_ok shards fv =
     (placed shards fv \<and> ledger_ok (tickets shards fv) (map fr_call (fv_finished fv)) (fv_next fv))"

lemma same_locks:
  assumes "fs_running sh' = fs_running sh" "fs_objects sh' = fs_objects sh"
  shows "holders key sh' = holders key sh" "shard_ok sh' = shard_ok sh"
  by (simp_all only: holders_def shard_ok_def key_ok_def assms)

lemma finish_call_locks:
  "holders key (fv_shards (finish_call call status message payload fv) n) = holders key (fv_shards fv n)"
  "shard_ok (fv_shards (finish_call call status message payload fv) n) = shard_ok (fv_shards fv n)"
  by (auto simp: finish_call_def Let_def at_shard_def intro!: same_locks)

lemma finish_call_ledger:
  "tickets shards (finish_call call status message payload fv) = tickets shards fv"
  "placed shards (finish_call call status message payload fv) = placed shards fv"
  "map fr_call (fv_finished (finish_call call status message payload fv)) = map fr_call (fv_finished fv) @ [uc_id call]"
  "fv_next (finish_call call status message payload fv) = fv_next fv"
  by (rule ext) (simp_all add: tickets_def placed_def finish_call_locks, simp_all add: finish_call_def Let_def at_shard_def)

lemma store_at_owner:
  assumes "placed shards fv" "owner = key_shard key shards" "shard_ok sh"
    and "\<And>k. k \<noteq> key \<Longrightarrow> holders k sh = holders k (fv_shards fv owner)"
  shows "placed shards (at_shard owner sh fv)"
    "tickets shards (at_shard owner sh fv) = (tickets shards fv)(key := map uc_id (holders key sh))"
proof -
  have apart: "holders k sh = []" if "owner \<noteq> key_shard k shards" for k
    using that assms(1,2) assms(4) [of k] by (cases "k = key") (auto simp: placed_def)
  show "placed shards (at_shard owner sh fv)"
    using assms(1,3) apart by (simp add: placed_def at_shard_def)
  show "tickets shards (at_shard owner sh fv) = (tickets shards fv)(key := map uc_id (holders key sh))"
    using assms(2,4) by (auto simp: tickets_def at_shard_def)
qed

lemma execute_begin_ok:
  assumes "placed shards fv" "ledger_ok (tickets shards fv) (map fr_call (fv_finished fv)) (uc_id call)"
    and "fv_next fv = Suc (uc_id call)"
  shows "service_ok shards (execute_begin shards call fv)"
proof -
  let ?owner = "key_shard (call_key call) shards"
  obtain refused sh where run: "store_begin call (fv_shards fv ?owner) = (refused, sh)" by fastforce
  have ok: "shard_ok (fv_shards fv ?owner)" using assms(1) by (simp add: placed_def)
  note answered = ledger_answer [OF assms(2)]
  show ?thesis
  proof (cases "valid_request (uc_operation call)")
    case False
    with answered assms show ?thesis by (simp add: execute_begin_def service_ok_def finish_call_ledger)
  next
    case True
    show ?thesis
    proof (cases refused)
      case None
      note queued = store_begin_queues [OF ok run [unfolded None]]
      note at = store_at_owner [OF assms(1) refl queued(1), of "call_key call"]
      have "tickets shards (at_shard ?owner sh fv) = (tickets shards fv)(call_key call := tickets shards fv (call_key call) @ [uc_id call])"
        using at(2) queued(2) by (simp add: tickets_def)
      with True None run at(1) queued(2) ledger_enqueue [OF assms(2)] assms(3) show ?thesis
        by (simp add: execute_begin_def service_ok_def Let_def) (simp add: at_shard_def)
    next
      case (Some e)
      from store_begin_refused [OF run [unfolded Some]] have "at_shard ?owner sh fv = fv" by (simp add: at_shard_def)
      with True Some run answered assms show ?thesis
        by (cases e) (simp add: execute_begin_def service_ok_def finish_call_ledger Let_def)
    qed
  qed
qed

lemma execute_end_ok:
  assumes "service_ok shards fv" "call \<in> set (fs_running (fv_shards fv (key_shard (call_key call) shards)))"
  shows "service_ok shards (execute_end digest root shards call fv)"
    "length (fv_finished (execute_end digest root shards call fv)) = Suc (length (fv_finished fv))"
    "fv_next (execute_end digest root shards call fv) = fv_next fv"
proof -
  let ?owner = "key_shard (call_key call) shards"
  obtain out sh where run: "store_end digest root call (fv_shards fv ?owner) = (out, sh)" by fastforce
  have placed: "placed shards fv" and ledger: "ledger_ok (tickets shards fv) (map fr_call (fv_finished fv)) (fv_next fv)"
    using assms(1) by (simp_all add: service_ok_def)
  have ok: "shard_ok (fv_shards fv ?owner)" using placed by (simp add: placed_def)
  note gone = store_end_dequeues [OF ok assms(2) run]
  note at = store_at_owner [OF placed refl gone(1), of "call_key call", OF gone(3)]
  have "tickets shards fv (call_key call) = uc_id call # map uc_id (holders (call_key call) sh)"
    using gone(2) by (simp add: tickets_def)
  from ledger_dequeue [OF ledger this] at
  have after: "placed shards (at_shard ?owner sh fv)"
    "ledger_ok (tickets shards (at_shard ?owner sh fv)) (map fr_call (fv_finished fv) @ [uc_id call]) (fv_next fv)" by simp_all
  obtain status message payload where
    finish_eq: "execute_end digest root shards call fv = finish_call call status message payload (at_shard ?owner sh fv)"
    using run by (cases out) (auto simp: execute_end_def Let_def)
  show "service_ok shards (execute_end digest root shards call fv)"
    unfolding finish_eq service_ok_def finish_call_ledger using after by (simp add: at_shard_def)
  show "length (fv_finished (execute_end digest root shards call fv)) = Suc (length (fv_finished fv))"
    "fv_next (execute_end digest root shards call fv) = fv_next fv"
    unfolding finish_eq by (simp_all add: finish_call_def Let_def at_shard_def)
qed

lemma service_call_ok:
  assumes "service_ok shards fv"
  shows "service_ok shards (service_call shards shard operation byte_size fv)"
proof -
  let ?sh = "fv_shards fv shard" and ?bytes = "int (byte_size + max_chunk_size + 65536)"
  let ?call = "\<lparr>uc_id = fv_next fv, uc_shard = shard, uc_operation = operation, uc_bytes = ?bytes\<rparr>"
  have placed: "placed shards fv" and ledger: "ledger_ok (tickets shards fv) (map fr_call (fv_finished fv)) (fv_next fv)"
    using assms by (simp_all add: service_ok_def)
  have rejected: "service_ok shards (fv\<lparr>fv_next := Suc (fv_next fv), fv_finished := fv_finished fv @
      [\<lparr>fr_call = fv_next fv, fr_status = status, fr_message = message, fr_payload = None\<rparr>]\<rparr>)" for status message
    using placed ledger_answer [OF ledger] by (simp add: service_ok_def placed_def tickets_def [abs_def])
  have admitted: "service_ok shards (execute_begin shards ?call
      (at_shard shard (?sh\<lparr>fs_requests := b\<rparr>) (fv\<lparr>fv_next := Suc (fv_next fv)\<rparr>)))" for b
  proof (rule execute_begin_ok)
    have locks: "holders key (fv_shards (at_shard shard (?sh\<lparr>fs_requests := b\<rparr>) (fv\<lparr>fv_next := Suc (fv_next fv)\<rparr>)) n) =
        holders key (fv_shards fv n)"
      "shard_ok (fv_shards (at_shard shard (?sh\<lparr>fs_requests := b\<rparr>) (fv\<lparr>fv_next := Suc (fv_next fv)\<rparr>)) n) =
        shard_ok (fv_shards fv n)" for key n
      by (auto simp: at_shard_def intro!: same_locks)
    show "placed shards (at_shard shard (?sh\<lparr>fs_requests := b\<rparr>) (fv\<lparr>fv_next := Suc (fv_next fv)\<rparr>))"
      using placed by (simp add: placed_def locks)
    have "tickets shards (at_shard shard (?sh\<lparr>fs_requests := b\<rparr>) (fv\<lparr>fv_next := Suc (fv_next fv)\<rparr>)) = tickets shards fv"
      by (rule ext) (simp add: tickets_def locks)
    then show "ledger_ok (tickets shards (at_shard shard (?sh\<lparr>fs_requests := b\<rparr>) (fv\<lparr>fv_next := Suc (fv_next fv)\<rparr>)))
        (map fr_call (fv_finished (at_shard shard (?sh\<lparr>fs_requests := b\<rparr>) (fv\<lparr>fv_next := Suc (fv_next fv)\<rparr>)))) (uc_id ?call)"
      using ledger by (simp add: at_shard_def)
  qed (simp add: at_shard_def)
  show ?thesis
    unfolding service_call_def Let_def
    using rejected admitted by (auto split: prod.split sum.split)
qed

lemma service_stop_ok: "service_ok shards fv \<Longrightarrow> service_ok shards (service_stop shard fv)"
proof -
  assume ok: "service_ok shards fv"
  have locks: "holders key (fv_shards (service_stop shard fv) n) = holders key (fv_shards fv n)"
    "shard_ok (fv_shards (service_stop shard fv) n) = shard_ok (fv_shards fv n)" for key n
    by (auto simp: service_stop_def at_shard_def intro!: same_locks)
  have "tickets shards (service_stop shard fv) = tickets shards fv" by (rule ext) (simp add: tickets_def locks)
  with ok show ?thesis by (simp add: service_ok_def placed_def locks) (simp add: service_stop_def at_shard_def)
qed

lemma new_service_ok: "service_ok shards (new_service options disks)"
proof -
  have "holders key (fv_shards (new_service options disks) n) = []" "shard_ok (fv_shards (new_service options disks) n)" for key n
    by (simp_all add: new_service_def holders_def shard_ok_def key_ok_def)
  then show ?thesis by (simp add: service_ok_def placed_def tickets_def ledger_ok_def) (simp add: new_service_def)
qed

lemma file_reachable_ok: "file_reachable digest root shards options disks fv \<Longrightarrow> service_ok shards fv"
proof (induction rule: file_reachable.induct)
  case init
  show ?case by (rule new_service_ok)
next
  case (step fv fv')
  from step(2) show ?case
    by cases (auto intro: service_call_ok service_stop_ok execute_end_ok step(3))
qed

lemma unanswered_runs:
  assumes "service_ok shards fv" "set (map fr_call (fv_finished fv)) \<noteq> {..<fv_next fv}"
  shows "\<exists>call. call \<in> set (fs_running (fv_shards fv (key_shard (call_key call) shards)))"
proof -
  have "\<exists>key. tickets shards fv key \<noteq> []"
    using assms by (auto simp: service_ok_def ledger_ok_def)
  then obtain key where queue: "holders key (fv_shards fv (key_shard key shards)) \<noteq> []" by (auto simp: tickets_def)
  have "shard_ok (fv_shards fv (key_shard key shards))" using assms(1) by (simp add: service_ok_def placed_def)
  then show ?thesis
  proof (cases rule: key_ok_cases [where key = key])
    case free
    with queue show ?thesis by simp
  next
    case (locked c cs)
    have "call_key c = key" by (rule locked(4)) simp
    moreover have "c \<in> set (filter (\<lambda>c. call_key c = key) (fs_running (fv_shards fv (key_shard key shards))))"
      unfolding locked(2) by simp
    ultimately show ?thesis by auto
  qed
qed

definition call_ends :: "(string \<Rightarrow> string) \<Rightarrow> string \<Rightarrow> nat \<Rightarrow> file_service \<Rightarrow> file_service \<Rightarrow> bool" where
  "call_ends digest root shards fv fv' =
     (\<exists>call. call \<in> set (fs_running (fv_shards fv (key_shard (call_key call) shards))) \<and>
        fv' = execute_end digest root shards call fv)"

lemma calls_end:
  assumes "service_ok shards fv"
  shows "\<exists>fv'. (call_ends digest root shards)\<^sup>*\<^sup>* fv fv' \<and> distinct (map fr_call (fv_finished fv')) \<and>
    set (map fr_call (fv_finished fv')) = {..<fv_next fv}"
  using assms
proof (induction "fv_next fv - length (fv_finished fv)" arbitrary: fv rule: less_induct)
  case less
  have answered: "distinct (map fr_call (fv_finished fv))" using less.prems by (simp add: service_ok_def ledger_ok_def)
  show ?case
  proof (cases "set (map fr_call (fv_finished fv)) = {..<fv_next fv}")
    case True
    with answered show ?thesis by blast
  next
    case False
    then obtain call where call: "call \<in> set (fs_running (fv_shards fv (key_shard (call_key call) shards)))"
      using unanswered_runs [OF less.prems] by blast
    let ?next = "execute_end digest root shards call fv"
    note ended = execute_end_ok [OF less.prems call, of digest root]
    have "set (map fr_call (fv_finished fv)) \<subset> {..<fv_next fv}"
      using less.prems False by (auto simp: service_ok_def ledger_ok_def)
    then have "card (set (map fr_call (fv_finished fv))) < card {..<fv_next fv}" by (intro psubset_card_mono) auto
    then have "length (fv_finished fv) < fv_next fv" using distinct_card [OF answered] by simp
    then have "fv_next ?next - length (fv_finished ?next) < fv_next fv - length (fv_finished fv)"
      using ended(2,3) by simp
    from less.hyps [OF this ended(1)] obtain fv' where rest: "(call_ends digest root shards)\<^sup>*\<^sup>* ?next fv'"
      "distinct (map fr_call (fv_finished fv'))" "set (map fr_call (fv_finished fv')) = {..<fv_next ?next}" by blast
    have "call_ends digest root shards fv ?next" using call by (auto simp: call_ends_def)
    from converse_rtranclp_into_rtranclp [OF this rest(1)] rest(2,3) ended(3) show ?thesis by auto
  qed
qed

section \<open>Properties\<close>

text \<open>C11: The lock of an object is a queue of calls per key: of the calls that hold or await an object exactly the
  first one runs, an admitted call joins at the end of the queue of its object, and a call that ends leaves the
  head of its queue and touches no other; a state is kept for an object only while a call holds or awaits it.\<close>

theorem file_locks_refine_queues:
  assumes "file_reachable digest root shards options disks fv" "sh = fv_shards fv n"
  shows "(\<forall>key. filter (\<lambda>c. call_key c = key) (fs_running sh) = take 1 (holders key sh) \<and>
      (fs_objects sh key = None \<longleftrightarrow> holders key sh = [])) \<and>
    (\<forall>call sh'. store_begin call sh = (None, sh') \<longrightarrow>
      (\<forall>key. holders key sh' = (if key = call_key call then holders key sh @ [call] else holders key sh))) \<and>
    (\<forall>call out sh'. call \<in> set (fs_running sh) \<and> store_end digest root call sh = (out, sh') \<longrightarrow>
      (\<forall>key. holders key sh' = (if key = call_key call then tl (holders key sh) else holders key sh)) \<and>
      hd (holders (call_key call) sh) = call)"
proof -
  have ok: "shard_ok sh" using file_reachable_ok [OF assms(1)] assms(2) by (simp add: service_ok_def placed_def)
  have "filter (\<lambda>c. call_key c = key) (fs_running sh) = take 1 (holders key sh) \<and>
      (fs_objects sh key = None \<longleftrightarrow> holders key sh = [])" for key
    using ok
  proof (cases rule: key_ok_cases [where key = key])
    case (locked c cs)
    show ?thesis unfolding locked(1-3) by simp
  qed simp
  moreover have "holders key sh' = (if key = call_key call then tl (holders key sh) else holders key sh) \<and>
      hd (holders (call_key call) sh) = call"
    if "call \<in> set (fs_running sh)" "store_end digest root call sh = (out, sh')" for call out sh' key
    using store_end_dequeues(2,3) [OF ok that] by auto
  ultimately show ?thesis using store_begin_queues(2) [OF ok] by blast
qed

definition sample_queue :: file_service where
  "sample_queue =
     (let request = Download_request sample_download in
      service_call 1 0 request 0 (service_call 1 0 request 0
        (new_service \<lparr>fo_max_requests = 64, fo_max_bytes = 67108864\<rparr> (\<lambda>_. sample_disk []))))"

lemma sample_queue_reachable:
  "file_reachable digest root 1 \<lparr>fo_max_requests = 64, fo_max_bytes = 67108864\<rparr> (\<lambda>_. sample_disk []) sample_queue"
  unfolding sample_queue_def Let_def
  by (intro file_reachable.step [OF _ file_step.called] file_reachable.init) simp_all

lemma sample_download_valid: "valid_request (Download_request sample_download)"
  by (simp add: valid_download_def sample_download_def download_info_def sample_file_def safe_id_def isalnum_def byte_def
      list_all_iff)

lemma key_shard_one: "key_shard key (Suc 0) = 0"
  by (simp add: key_shard_def)

lemma sample_queue_holders:
  "map uc_id (holders (request_key (Download_request sample_download)) (fv_shards sample_queue 0)) = [0, 1]"
  "fv_next sample_queue = 2" "fv_finished sample_queue = []"
  using sample_download_valid
  by (simp_all add: sample_queue_def service_call_def new_service_def execute_begin_def store_begin_def at_shard_def
      set_object_def acquire_def Let_def key_shard_one max_chunk_size_def holders_def call_key_def del: valid_request.simps request_key.simps)

theorem file_locks_refine_queues_witness:
  "map uc_id (holders (request_key (Download_request sample_download)) (fv_shards sample_queue 0)) = [0, 1] \<and>
   map uc_id (filter (\<lambda>c. call_key c = request_key (Download_request sample_download)) (fs_running (fv_shards sample_queue 0))) = [0]"
  using file_locks_refine_queues [OF sample_queue_reachable refl, of 0] sample_queue_holders(1)
  by (simp add: take_map [symmetric] del: request_key.simps)

text \<open>C17: Every call of the File service is finished exactly once: whatever was submitted and on whichever shards,
  and also while the service stops, the calls that are queued can be brought to their end one after the
  other, and then every call that was ever made has been finished once.\<close>

theorem file_calls_answered:
  assumes "file_reachable digest root shards options disks fv"
  shows "\<exists>fv'. (call_ends digest root shards)\<^sup>*\<^sup>* fv fv' \<and> distinct (map fr_call (fv_finished fv')) \<and>
    set (map fr_call (fv_finished fv')) = {..<fv_next fv}"
  by (rule calls_end [OF file_reachable_ok [OF assms]])

theorem file_calls_answered_witness:
  "fv_finished sample_queue = [] \<and>
   (\<exists>fv'. (call_ends (\<lambda>_. []) ''/data'' 1)\<^sup>*\<^sup>* sample_queue fv' \<and> set (map fr_call (fv_finished fv')) = {..<2})"
  using file_calls_answered [OF sample_queue_reachable, of "\<lambda>_. []" "''/data''"] sample_queue_holders(2,3) by auto

end
