(* ===== verification/Gate_Redis.thy ===== *)
theory Gate_Redis
  imports Message_Driver
begin

text \<open>
  The Redis scripts of the Gate (\<^verbatim>\<open>gate/io/driver.cc\<close>): the Lua sources of issuing, clearing and consuming
  a verification code, and the single commands of the driver, as programs over a keyed store
  whose entries may expire.  Times are in milliseconds of the server; \<open>ttl\<close> is how the TTL
  command reports a remaining time in seconds, which Redis rounds.
\<close>

section \<open>Commands\<close>

record redis_entry =
  re_value :: string
  re_expires :: "int option"

type_synonym redis_db = "string \<Rightarrow> redis_entry option"

definition live :: "int \<Rightarrow> redis_db \<Rightarrow> string \<Rightarrow> redis_entry option" where
  "live now db key =
     (case db key of
        None \<Rightarrow> None
      | Some e \<Rightarrow> (case re_expires e of None \<Rightarrow> Some e | Some t \<Rightarrow> if t < now then None else Some e))"

definition redis_get :: "int \<Rightarrow> string \<Rightarrow> (redis_db, string option) prog" where
  "redis_get now key db = (Inr (map_option re_value (live now db key)), db)"

definition redis_exists :: "int \<Rightarrow> string \<Rightarrow> (redis_db, bool) prog" where
  "redis_exists now key db = (Inr (live now db key \<noteq> None), db)"

definition redis_setex :: "int \<Rightarrow> string \<Rightarrow> int \<Rightarrow> string \<Rightarrow> (redis_db, unit) prog" where
  "redis_setex now key seconds value db =
     (if seconds \<le> 0 then (Inl (RuntimeError ''ERR invalid expire time in 'setex' command''), db)
      else (Inr (), db(key \<mapsto> \<lparr>re_value = value, re_expires = Some (now + 1000 * seconds)\<rparr>)))"

definition redis_del :: "string list \<Rightarrow> (redis_db, unit) prog" where
  "redis_del keys db = (Inr (), \<lambda>key. if key \<in> set keys then None else db key)"

text \<open>The integer a string denotes, in the form Redis accepts.\<close>

definition redis_integer :: "string \<Rightarrow> int option" where
  "redis_integer s =
     (let n = (if s \<noteq> [] \<and> hd s = CHR ''-'' then - int (digits_value (tl s)) else int (digits_value s)) in
      if to_string n = s \<and> - (2 ^ 63) \<le> n \<and> n < 2 ^ 63 then Some n else None)"

definition redis_incr :: "int \<Rightarrow> string \<Rightarrow> (redis_db, int) prog" where
  "redis_incr now key db =
     (case live now db key of
        None \<Rightarrow> (Inr 1, db(key \<mapsto> \<lparr>re_value = to_string 1, re_expires = None\<rparr>))
      | Some e \<Rightarrow>
          (case redis_integer (re_value e) of
             None \<Rightarrow> (Inl (RuntimeError ''ERR value is not an integer or out of range''), db)
           | Some n \<Rightarrow>
               if n = 2 ^ 63 - 1 then (Inl (RuntimeError ''ERR increment or decrement would overflow''), db)
               else (Inr (n + 1), db(key \<mapsto> e\<lparr>re_value := to_string (n + 1)\<rparr>))))"

definition redis_ttl :: "(int \<Rightarrow> int) \<Rightarrow> int \<Rightarrow> string \<Rightarrow> (redis_db, int) prog" where
  "redis_ttl ttl now key db =
     (case live now db key of
        None \<Rightarrow> (Inr (- 2), db)
      | Some e \<Rightarrow> (case re_expires e of None \<Rightarrow> (Inr (- 1), db) | Some t \<Rightarrow> (Inr (ttl (t - now)), db)))"

definition redis_expire :: "int \<Rightarrow> string \<Rightarrow> int \<Rightarrow> (redis_db, unit) prog" where
  "redis_expire now key seconds db =
     (case live now db key of
        None \<Rightarrow> (Inr (), db)
      | Some e \<Rightarrow> (Inr (), if seconds \<le> 0 then db(key := None) else db(key \<mapsto> e\<lparr>re_expires := Some (now + 1000 * seconds)\<rparr>)))"

section \<open>Scripts\<close>

definition verification_prefix :: "string \<Rightarrow> string" where
  "verification_prefix email = ''im:verify:{'' @ email @ ''}:''"

definition code_key :: "string \<Rightarrow> string" where
  "code_key email = verification_prefix email @ ''code''"

definition cooldown_key :: "string \<Rightarrow> string" where
  "cooldown_key email = verification_prefix email @ ''cooldown''"

definition attempts_key :: "string \<Rightarrow> string" where
  "attempts_key email = verification_prefix email @ ''attempts''"

definition issue_script :: "int \<Rightarrow> string \<Rightarrow> string \<Rightarrow> int \<Rightarrow> int \<Rightarrow> (redis_db, int) prog" where
  "issue_script now email vcode ttl_seconds cooldown_seconds =
     bind (redis_exists now (cooldown_key email)) (\<lambda>cooling.
     if cooling then ret 0
     else
       bind (redis_setex now (code_key email) ttl_seconds vcode) (\<lambda>_.
       bind (redis_setex now (cooldown_key email) cooldown_seconds ''1'') (\<lambda>_.
       bind (redis_del [attempts_key email]) (\<lambda>_.
       ret 1))))"

definition clear_script :: "int \<Rightarrow> string \<Rightarrow> string \<Rightarrow> (redis_db, int) prog" where
  "clear_script now email vcode =
     bind (redis_get now (code_key email)) (\<lambda>current.
     if current \<noteq> Some vcode then ret 0
     else bind (redis_del [code_key email, attempts_key email, cooldown_key email]) (\<lambda>_. ret 1))"

definition consume_script :: "(int \<Rightarrow> int) \<Rightarrow> int \<Rightarrow> string \<Rightarrow> string \<Rightarrow> int \<Rightarrow> (redis_db, int) prog" where
  "consume_script ttl now email vcode max_attempts =
     bind (redis_get now (code_key email)) (\<lambda>current.
     if current = None then ret 0
     else if current = Some vcode
     then bind (redis_del [code_key email, attempts_key email, cooldown_key email]) (\<lambda>_. ret 1)
     else
       bind (redis_incr now (attempts_key email)) (\<lambda>attempts.
       bind (redis_ttl ttl now (code_key email)) (\<lambda>seconds.
       bind (if attempts = 1 \<and> seconds > 0 then redis_expire now (attempts_key email) seconds else ret ()) (\<lambda>_.
       bind (if attempts \<ge> max_attempts then redis_del [code_key email, attempts_key email] else ret ()) (\<lambda>_.
       ret 0)))))"

section \<open>Keys\<close>

lemma verification_keys_inj [simp]:
  "code_key a = code_key b \<longleftrightarrow> a = b" "cooldown_key a = cooldown_key b \<longleftrightarrow> a = b" "attempts_key a = attempts_key b \<longleftrightarrow> a = b"
  by (simp_all add: code_key_def cooldown_key_def attempts_key_def verification_prefix_def)

lemma append_last_neq: "last u \<noteq> last v \<Longrightarrow> u \<noteq> [] \<Longrightarrow> v \<noteq> [] \<Longrightarrow> x @ u \<noteq> y @ v"
  by (metis last_append)

lemma verification_keys_distinct [simp]:
  "code_key a \<noteq> cooldown_key b" "cooldown_key b \<noteq> code_key a" "code_key a \<noteq> attempts_key b" "attempts_key b \<noteq> code_key a"
  "cooldown_key a \<noteq> attempts_key b" "attempts_key b \<noteq> cooldown_key a"
  unfolding code_key_def cooldown_key_def attempts_key_def by (rule append_last_neq; simp)+

lemma digits_value_snoc: "digits_value (ds @ [c]) = 10 * digits_value ds + (of_char c - 48)"
  by (simp add: digits_value_def)

lemma digits_value_nat_digits [simp]: "digits_value (nat_digits n) = n"
proof (induction n rule: nat_digits.induct)
  case (1 n)
  have digit: "(of_char (digit_char n) :: nat) - 48 = n mod 10" by (simp add: digit_char_def)
  show ?case
  proof (cases "n < 10")
    case True
    with digit show ?thesis by (simp add: nat_digits_small digits_value_def)
  next
    case False
    with 1 digit show ?thesis by (simp add: nat_digits_large digits_value_snoc)
  qed
qed

lemma redis_integer_to_string:
  assumes "0 \<le> n" "n < 2 ^ 63"
  shows "redis_integer (to_string n) = Some n"
proof -
  have ts: "to_string n = nat_digits (nat n)" using assms by (simp add: to_string_def)
  have "hd (nat_digits (nat n)) \<noteq> CHR ''-''"
    using nat_digits_set [of _ "nat n"] digit_char_not_minus by (metis hd_in_set nat_digits_nonempty)
  with assms show ?thesis by (simp add: redis_integer_def ts)
qed

end
