(* ===== verification/Smtp.thy ===== *)
theory Smtp
  imports Message_Driver
begin

text \<open>
  One SMTP transaction (\<^verbatim>\<open>gate/io/smtp_connection.cc\<close>).  The peer is a parameter: whether it can be
  reached, the bytes it sends before and after the TLS handshake, the outcome of every
  write and of closing.  The connection keeps what was written and whether the transport
  was encrypted then.
\<close>

record smtp_peer =
  pe_connect :: "exn + unit"
  pe_plain :: string
  pe_handshake :: "exn + unit"
  pe_encrypted :: string
  pe_writes :: "exn option list"
  pe_output_close :: "exn option"
  pe_input_close :: "exn option"

record smtp_options =
  sp_implicit_tls :: bool
  sp_user :: string
  sp_password :: string

record smtp_connection =
  sk_input :: string
  sk_encrypted :: bool
  sk_sent :: "(bool \<times> string) list"
  sk_writes :: "exn option list"
  sk_streams :: bool
  sk_aborted :: bool
  sk_accepted :: bool

record verification_mail =
  ma_recipient :: string
  ma_code :: string
  ma_ttl_seconds :: int

definition new_smtp :: "smtp_peer \<Rightarrow> smtp_connection" where
  "new_smtp peer =
     \<lparr>sk_input = '''', sk_encrypted = False, sk_sent = [], sk_writes = pe_writes peer, sk_streams = False,
      sk_aborted = False, sk_accepted = False\<rparr>"

definition crlf :: string where
  "crlf = [CHR 0x0D, CHR 0x0A]"

text \<open>One line of a reply: up to the line feed or 4096 bytes.\<close>

primrec smtp_line :: "nat \<Rightarrow> string \<Rightarrow> (smtp_connection, string) prog" where
  "smtp_line 0 line = ret line"
| "smtp_line (Suc room) line =
     (\<lambda>c. case sk_input c of
        [] \<Rightarrow> (Inl (RuntimeError ''SMTP peer disconnected''), c)
      | byte # rest \<Rightarrow>
          (if byte = CHR 0x0A then ret (line @ [byte]) else smtp_line room (line @ [byte])) (c\<lparr>sk_input := rest\<rparr>))"

definition smtp_valid :: "string \<Rightarrow> bool" where
  "smtp_valid line =
     (5 \<le> length line \<and> drop (length line - 2) line = crlf \<and>
      50 \<le> (of_char (line ! 0) :: nat) \<and> (of_char (line ! 0) :: nat) \<le> 53 \<and>
      is_digit (line ! 1) \<and> is_digit (line ! 2))"

definition smtp_code :: "string \<Rightarrow> int" where
  "smtp_code line = (of_char (line ! 0) - 48) * 100 + (of_char (line ! 1) - 48) * 10 + (of_char (line ! 2) - 48)"

primrec smtp_reply_lines :: "nat \<Rightarrow> int \<Rightarrow> (smtp_connection, int) prog" where
  "smtp_reply_lines 0 status = raise (RuntimeError ''SMTP response too long'')"
| "smtp_reply_lines (Suc n) status =
     bind (smtp_line 4096 '''') (\<lambda>line.
     if \<not> smtp_valid line then raise (RuntimeError ''invalid SMTP response'')
     else if status \<noteq> 0 \<and> status \<noteq> smtp_code line then raise (RuntimeError ''inconsistent SMTP multiline response'')
     else if line ! 3 = CHR '' '' then ret (smtp_code line)
     else if line ! 3 \<noteq> CHR ''-'' then raise (RuntimeError ''invalid SMTP continuation'')
     else smtp_reply_lines n (smtp_code line))"

definition smtp_reply :: "(smtp_connection, int) prog" where
  "smtp_reply = smtp_reply_lines 32 0"

definition smtp_write :: "string \<Rightarrow> (smtp_connection, unit) prog" where
  "smtp_write text c =
     (case sk_writes c of
        Some e # rest \<Rightarrow> (Inl e, c\<lparr>sk_writes := rest, sk_sent := sk_sent c @ [(sk_encrypted c, text)]\<rparr>)
      | None # rest \<Rightarrow> (Inr (), c\<lparr>sk_writes := rest, sk_sent := sk_sent c @ [(sk_encrypted c, text)]\<rparr>)
      | [] \<Rightarrow> (Inr (), c\<lparr>sk_sent := sk_sent c @ [(sk_encrypted c, text)]\<rparr>))"

definition smtp_command :: "string \<Rightarrow> int \<Rightarrow> (smtp_connection, unit) prog" where
  "smtp_command text expected =
     bind (smtp_write text) (\<lambda>_.
     bind smtp_reply (\<lambda>status.
     if status \<noteq> expected then raise (RuntimeError (''SMTP rejected command, status='' @ to_string status)) else ret ()))"

definition smtp_abort :: "smtp_connection \<Rightarrow> smtp_connection" where
  "smtp_abort c = c\<lparr>sk_aborted := True\<rparr>"

definition smtp_body :: "string \<Rightarrow> verification_mail \<Rightarrow> string" where
  "smtp_body user mail =
     ''To: '' @ ma_recipient mail @ crlf @ ''From: '' @ user @ crlf @ ''Subject: IMM verification code'' @ crlf @
     ''Content-Type: text/plain; charset=utf-8'' @ crlf @ crlf @ ''Your IMM verification code is '' @ ma_code mail @
     ''. It expires in '' @ to_string (ma_ttl_seconds mail) @ '' seconds.'' @ crlf @ ''.'' @ crlf"

text \<open>Connecting opens the streams on the bytes of the peer, encrypted when TLS is implicit.\<close>

definition smtp_dial :: "smtp_peer \<Rightarrow> smtp_options \<Rightarrow> (smtp_connection, unit) prog" where
  "smtp_dial peer options c =
     (case pe_connect peer of
        Inl e \<Rightarrow> (Inl e, c)
      | Inr _ \<Rightarrow> (Inr (), c\<lparr>sk_streams := True, sk_encrypted := sp_implicit_tls options,
            sk_input := (if sp_implicit_tls options then pe_encrypted peer else pe_plain peer)\<rparr>))"

definition smtp_wrap :: "smtp_peer \<Rightarrow> (smtp_connection, unit) prog" where
  "smtp_wrap peer c =
     (let c1 = c\<lparr>sk_streams := False\<rparr> in
      case pe_handshake peer of
        Inl e \<Rightarrow> (Inl e, c1)
      | Inr _ \<Rightarrow> (Inr (), c1\<lparr>sk_streams := True, sk_encrypted := True, sk_input := pe_encrypted peer\<rparr>))"

definition smtp_starttls :: "smtp_peer \<Rightarrow> (smtp_connection, unit) prog" where
  "smtp_starttls peer =
     bind (smtp_command (''STARTTLS'' @ crlf) 220) (\<lambda>_.
     bind (smtp_wrap peer) (\<lambda>_.
     smtp_command (''EHLO imm'' @ crlf) 250))"

definition smtp_send ::
  "(string \<Rightarrow> string) \<Rightarrow> smtp_peer \<Rightarrow> smtp_options \<Rightarrow> verification_mail \<Rightarrow> (smtp_connection, unit) prog" where
  "smtp_send base64 peer options mail =
     bind (smtp_dial peer options) (\<lambda>_.
     bind smtp_reply (\<lambda>greeting.
     if greeting \<noteq> 220 then raise (RuntimeError ''SMTP greeting rejected'')
     else
       bind (smtp_command (''EHLO imm'' @ crlf) 250) (\<lambda>_.
       bind (if \<not> sp_implicit_tls options then smtp_starttls peer else ret ()) (\<lambda>_.
       bind (smtp_command (''AUTH LOGIN'' @ crlf) 334) (\<lambda>_.
       bind (smtp_command (base64 (sp_user options) @ crlf) 334) (\<lambda>_.
       bind (smtp_command (base64 (sp_password options) @ crlf) 235) (\<lambda>_.
       bind (smtp_command (''MAIL FROM:<'' @ sp_user options @ ''>'' @ crlf) 250) (\<lambda>_.
       bind (smtp_command (''RCPT TO:<'' @ ma_recipient mail @ ''>'' @ crlf) 250) (\<lambda>_.
       bind (smtp_command (''DATA'' @ crlf) 354) (\<lambda>_.
       bind (smtp_command (smtp_body (sp_user options) mail) 250) (\<lambda>_.
       bind (\<lambda>c. (Inr (), c\<lparr>sk_accepted := True\<rparr>)) (\<lambda>_.
       catch (smtp_command (''QUIT'' @ crlf) 221) (\<lambda>e c. (Inr (), smtp_abort c))))))))))))))"

definition smtp_close :: "smtp_peer \<Rightarrow> (smtp_connection, unit) prog" where
  "smtp_close peer c =
     (if \<not> sk_streams c then (Inr (), c)
      else
        let lenient = sk_aborted c \<or> sk_accepted c in
        case (if lenient then None else pe_output_close peer) of
          Some e \<Rightarrow> (Inl e, c)
        | None \<Rightarrow>
            (case (if lenient then None else pe_input_close peer) of
               Some e \<Rightarrow> (Inl e, c)
             | None \<Rightarrow> (Inr (), c\<lparr>sk_streams := False\<rparr>)))"

section \<open>What is sent in the clear\<close>

abbreviation greeting_texts :: "string set" where
  "greeting_texts \<equiv> {''EHLO imm'' @ crlf, ''STARTTLS'' @ crlf}"

definition discreet :: "smtp_connection \<Rightarrow> bool" where
  "discreet c = (\<forall>(encrypted, text) \<in> set (sk_sent c). encrypted \<or> text \<in> greeting_texts)"

definition greets :: "smtp_connection \<Rightarrow> smtp_connection \<Rightarrow> bool" where
  "greets c c' = (discreet c \<longrightarrow> discreet c')"

definition stays_encrypted :: "smtp_connection \<Rightarrow> smtp_connection \<Rightarrow> bool" where
  "stays_encrypted c c' = (sk_encrypted c \<and> discreet c \<longrightarrow> sk_encrypted c' \<and> discreet c')"

interpretation greet: step_relation greets
  by unfold_locales (auto simp: greets_def)

interpretation cipher: step_relation stays_encrypted
  by unfold_locales (auto simp: stays_encrypted_def)

definition only_reads :: "smtp_connection \<Rightarrow> smtp_connection \<Rightarrow> bool" where
  "only_reads c c' = (\<exists>input. c' = c\<lparr>sk_input := input\<rparr>)"

interpretation reading: step_relation only_reads
proof
  show "only_reads c c" for c by (auto simp: only_reads_def intro: exI [of _ "sk_input c"])
  show "only_reads a b \<Longrightarrow> only_reads b c \<Longrightarrow> only_reads a c" for a b c by (auto simp: only_reads_def)
qed

lemma smtp_line_reads: "within only_reads (smtp_line room line)"
proof (induction room arbitrary: line)
  case (Suc room)
  show ?case
    unfolding within_def
  proof (intro allI impI)
    fix c r c' assume run: "smtp_line (Suc room) line c = (r, c')"
    show "only_reads c c'"
    proof (cases "sk_input c")
      case Nil
      with run show ?thesis by (simp add: reading.step_refl)
    next
      case (Cons byte rest)
      have first: "only_reads c (c\<lparr>sk_input := rest\<rparr>)" by (auto simp: only_reads_def)
      show ?thesis
      proof (cases "byte = CHR 0x0A")
        case True
        with run Cons first show ?thesis by (simp add: ret_def)
      next
        case False
        with run Cons have "smtp_line room (line @ [byte]) (c\<lparr>sk_input := rest\<rparr>) = (r, c')" by simp
        from reading.step_trans [OF first withinD [OF Suc this]] show ?thesis .
      qed
    qed
  qed
qed (simp add: reading.within_ret)

lemma smtp_reply_reads: "within only_reads smtp_reply"
proof -
  have "within only_reads (smtp_reply_lines n status)" for n status
    by (induction n arbitrary: status) (auto intro!: reading.within_intros smtp_line_reads)
  then show ?thesis by (simp add: smtp_reply_def)
qed

text \<open>A command adds its text to what was sent, whatever its outcome.\<close>

lemma smtp_command_sends:
  assumes "smtp_command text expected c = (r, c')"
  shows "sk_sent c' = sk_sent c @ [(sk_encrypted c, text)]" "sk_encrypted c' = sk_encrypted c"
    "sk_accepted c' = sk_accepted c"
proof -
  obtain w c1 where wr: "smtp_write text c = (w, c1)" by fastforce
  have c1: "sk_sent c1 = sk_sent c @ [(sk_encrypted c, text)]" "sk_encrypted c1 = sk_encrypted c" "sk_accepted c1 = sk_accepted c"
    using wr by (auto simp: smtp_write_def split: list.splits option.splits)
  have "within only_reads (bind smtp_reply (\<lambda>status.
      if status \<noteq> expected then raise (RuntimeError (''SMTP rejected command, status='' @ to_string status)) else ret ()))"
    by (intro reading.within_intros smtp_reply_reads)
  from withinD [OF this, of c1] have "only_reads c1 c'"
    using assms wr reading.step_refl by (cases w) (auto simp: smtp_command_def bind_def)
  then show "sk_sent c' = sk_sent c @ [(sk_encrypted c, text)]" "sk_encrypted c' = sk_encrypted c"
    "sk_accepted c' = sk_accepted c"
    using c1 by (auto simp: only_reads_def)
qed

lemma greet_command: "text \<in> greeting_texts \<Longrightarrow> within greets (smtp_command text expected)"
  unfolding within_def greets_def discreet_def using smtp_command_sends by fastforce

lemma cipher_command: "within stays_encrypted (smtp_command text expected)"
  unfolding within_def stays_encrypted_def discreet_def using smtp_command_sends by fastforce

lemma greet_reply: "within greets smtp_reply"
  using smtp_reply_reads unfolding within_def greets_def discreet_def only_reads_def by fastforce

lemma greet_dial: "within greets (smtp_dial peer options)" "within greets (smtp_wrap peer)"
  by (auto simp: within_def greets_def discreet_def smtp_dial_def smtp_wrap_def Let_def split: sum.splits)

lemma greet_starttls: "within greets (smtp_starttls peer)"
  unfolding smtp_starttls_def by (intro greet.within_intros greet_command greet_dial) auto

lemma starttls_encrypts:
  assumes "smtp_starttls peer c = (Inr u, c')"
  shows "sk_encrypted c'" "sk_accepted c' = sk_accepted c"
    "map snd (sk_sent c') = map snd (sk_sent c) @ [''STARTTLS'' @ crlf, ''EHLO imm'' @ crlf]"
proof -
  obtain u1 c1 u2 c2 where run: "smtp_command (''STARTTLS'' @ crlf) 220 c = (Inr u1, c1)"
    "smtp_wrap peer c1 = (Inr u2, c2)" "smtp_command (''EHLO imm'' @ crlf) 250 c2 = (Inr u, c')"
    using assms unfolding smtp_starttls_def by (elim bind_Inr) blast
  have wrap: "sk_encrypted c2" "sk_accepted c2 = sk_accepted c1" "sk_sent c2 = sk_sent c1"
    using run(2) by (auto simp: smtp_wrap_def Let_def split: sum.splits)
  show "sk_encrypted c'" "sk_accepted c' = sk_accepted c"
    "map snd (sk_sent c') = map snd (sk_sent c) @ [''STARTTLS'' @ crlf, ''EHLO imm'' @ crlf]"
    using wrap by (simp_all add: smtp_command_sends [OF run(3)] smtp_command_sends [OF run(1)])
qed

section \<open>The dialogue\<close>

definition dialogue :: "(string \<Rightarrow> string) \<Rightarrow> smtp_options \<Rightarrow> verification_mail \<Rightarrow> string list" where
  "dialogue base64 options mail =
     (if sp_implicit_tls options then [''EHLO imm'' @ crlf]
      else [''EHLO imm'' @ crlf, ''STARTTLS'' @ crlf, ''EHLO imm'' @ crlf]) @
     [''AUTH LOGIN'' @ crlf, base64 (sp_user options) @ crlf, base64 (sp_password options) @ crlf,
      ''MAIL FROM:<'' @ sp_user options @ ''>'' @ crlf, ''RCPT TO:<'' @ ma_recipient mail @ ''>'' @ crlf,
      ''DATA'' @ crlf, smtp_body (sp_user options) mail, ''QUIT'' @ crlf]"

definition smtp_login :: "smtp_peer \<Rightarrow> smtp_options \<Rightarrow> (smtp_connection, unit) prog" where
  "smtp_login peer options =
     bind (smtp_dial peer options) (\<lambda>_.
     bind smtp_reply (\<lambda>greeting.
     if greeting \<noteq> 220 then raise (RuntimeError ''SMTP greeting rejected'')
     else
       bind (smtp_command (''EHLO imm'' @ crlf) 250) (\<lambda>_.
       if \<not> sp_implicit_tls options then smtp_starttls peer else ret ())))"

definition smtp_deliver :: "(string \<Rightarrow> string) \<Rightarrow> smtp_options \<Rightarrow> verification_mail \<Rightarrow> (smtp_connection, unit) prog" where
  "smtp_deliver base64 options mail =
     bind (smtp_command (''AUTH LOGIN'' @ crlf) 334) (\<lambda>_.
     bind (smtp_command (base64 (sp_user options) @ crlf) 334) (\<lambda>_.
     bind (smtp_command (base64 (sp_password options) @ crlf) 235) (\<lambda>_.
     bind (smtp_command (''MAIL FROM:<'' @ sp_user options @ ''>'' @ crlf) 250) (\<lambda>_.
     bind (smtp_command (''RCPT TO:<'' @ ma_recipient mail @ ''>'' @ crlf) 250) (\<lambda>_.
     bind (smtp_command (''DATA'' @ crlf) 354) (\<lambda>_.
     bind (smtp_command (smtp_body (sp_user options) mail) 250) (\<lambda>_.
     bind (\<lambda>c. (Inr (), c\<lparr>sk_accepted := True\<rparr>)) (\<lambda>_.
     catch (smtp_command (''QUIT'' @ crlf) 221) (\<lambda>e c. (Inr (), smtp_abort c))))))))))"

lemma smtp_send_split: "smtp_send base64 peer options mail = bind (smtp_login peer options) (\<lambda>_. smtp_deliver base64 options mail)"
  unfolding smtp_send_def smtp_login_def smtp_deliver_def
  by (simp add: bind_assoc if_distrib [of "\<lambda>p. bind p _"] cong: if_cong)

lemma greet_login: "within greets (smtp_login peer options)"
  unfolding smtp_login_def by (intro greet.within_intros greet_command greet_dial greet_reply greet_starttls) auto

lemma cipher_deliver: "within stays_encrypted (smtp_deliver base64 options mail)"
proof -
  have "within stays_encrypted (\<lambda>c. (Inr (), c\<lparr>sk_accepted := True\<rparr>) :: (exn + unit) \<times> smtp_connection)"
    "within stays_encrypted (\<lambda>c. (Inr (), smtp_abort c) :: (exn + unit) \<times> smtp_connection)"
    by (auto simp: within_def stays_encrypted_def discreet_def smtp_abort_def)
  then show ?thesis unfolding smtp_deliver_def by (intro cipher.within_intros cipher_command)
qed

lemma login_encrypts:
  assumes "smtp_login peer options (new_smtp peer) = (Inr u, c)"
  shows "sk_encrypted c" "map snd (sk_sent c) =
    (if sp_implicit_tls options then [''EHLO imm'' @ crlf]
     else [''EHLO imm'' @ crlf, ''STARTTLS'' @ crlf, ''EHLO imm'' @ crlf])"
proof -
  obtain u1 c1 n c2 u3 c3 where run: "smtp_dial peer options (new_smtp peer) = (Inr u1, c1)" "smtp_reply c1 = (Inr n, c2)"
    "smtp_command (''EHLO imm'' @ crlf) 250 c2 = (Inr u3, c3)"
    "(if \<not> sp_implicit_tls options then smtp_starttls peer else ret ()) c3 = (Inr u, c)"
    using assms unfolding smtp_login_def by (elim bind_Inr) (auto simp: raise_def split: if_splits elim!: bind_Inr)
  have c2: "sk_encrypted c2 = sp_implicit_tls options" "sk_sent c2 = []"
    using run(1) withinD [OF smtp_reply_reads run(2)]
    by (auto simp: smtp_dial_def new_smtp_def only_reads_def split: sum.splits)
  show "sk_encrypted c" "map snd (sk_sent c) =
      (if sp_implicit_tls options then [''EHLO imm'' @ crlf]
       else [''EHLO imm'' @ crlf, ''STARTTLS'' @ crlf, ''EHLO imm'' @ crlf])"
    using run(4) c2 starttls_encrypts [of peer c3 u c] smtp_command_sends [OF run(3)]
    by (auto simp: ret_def split: if_splits)
qed

lemma deliver_sends:
  assumes "smtp_deliver base64 options mail c = (Inr u, c')"
  shows "sk_accepted c'" "map snd (sk_sent c') = map snd (sk_sent c) @
    [''AUTH LOGIN'' @ crlf, base64 (sp_user options) @ crlf, base64 (sp_password options) @ crlf,
     ''MAIL FROM:<'' @ sp_user options @ ''>'' @ crlf, ''RCPT TO:<'' @ ma_recipient mail @ ''>'' @ crlf,
     ''DATA'' @ crlf, smtp_body (sp_user options) mail, ''QUIT'' @ crlf]"
proof -
  obtain c1 c2 c3 c4 c5 c6 c7 where
    run: "smtp_command (''AUTH LOGIN'' @ crlf) 334 c = (Inr (), c1)"
      "smtp_command (base64 (sp_user options) @ crlf) 334 c1 = (Inr (), c2)"
      "smtp_command (base64 (sp_password options) @ crlf) 235 c2 = (Inr (), c3)"
      "smtp_command (''MAIL FROM:<'' @ sp_user options @ ''>'' @ crlf) 250 c3 = (Inr (), c4)"
      "smtp_command (''RCPT TO:<'' @ ma_recipient mail @ ''>'' @ crlf) 250 c4 = (Inr (), c5)"
      "smtp_command (''DATA'' @ crlf) 354 c5 = (Inr (), c6)"
      "smtp_command (smtp_body (sp_user options) mail) 250 c6 = (Inr (), c7)"
    and quit: "catch (smtp_command (''QUIT'' @ crlf) 221) (\<lambda>e c. (Inr (), smtp_abort c)) (c7\<lparr>sk_accepted := True\<rparr>) = (Inr u, c')"
    using assms unfolding smtp_deliver_def by (elim bind_Inr) simp
  obtain r c8 where last: "smtp_command (''QUIT'' @ crlf) 221 (c7\<lparr>sk_accepted := True\<rparr>) = (r, c8)" by fastforce
  note sent = smtp_command_sends(1) [OF run(1)] smtp_command_sends(1) [OF run(2)] smtp_command_sends(1) [OF run(3)]
    smtp_command_sends(1) [OF run(4)] smtp_command_sends(1) [OF run(5)] smtp_command_sends(1) [OF run(6)]
    smtp_command_sends(1) [OF run(7)] smtp_command_sends(1,3) [OF last]
  have "sk_sent c' = sk_sent c8" "sk_accepted c' = sk_accepted c8"
    using quit last by (auto simp: catch_def smtp_abort_def split: sum.splits)
  with sent show "sk_accepted c'" "map snd (sk_sent c') = map snd (sk_sent c) @
    [''AUTH LOGIN'' @ crlf, base64 (sp_user options) @ crlf, base64 (sp_password options) @ crlf,
     ''MAIL FROM:<'' @ sp_user options @ ''>'' @ crlf, ''RCPT TO:<'' @ ma_recipient mail @ ''>'' @ crlf,
     ''DATA'' @ crlf, smtp_body (sp_user options) mail, ''QUIT'' @ crlf]" by simp_all
qed

section \<open>Properties\<close>

text \<open>C23: Whatever the mail server does, nothing but the greeting and STARTTLS leaves the Gate before the
  connection is encrypted: neither the SMTP credentials nor the recipient and the verification code;
  and when sending returns normally, the whole dialogue was sent in its order and the mail was accepted.\<close>

theorem mail_sent_encrypted:
  assumes "smtp_send base64 peer options mail (new_smtp peer) = (r, c)"
  shows "(\<forall>(encrypted, text) \<in> set (sk_sent c). encrypted \<or> text = ''EHLO imm'' @ crlf \<or> text = ''STARTTLS'' @ crlf) \<and>
    (r = Inr () \<longrightarrow> sk_accepted c \<and> map snd (sk_sent c) = dialogue base64 options mail)"
proof -
  obtain r1 c1 where login: "smtp_login peer options (new_smtp peer) = (r1, c1)" by fastforce
  have start: "discreet (new_smtp peer)" by (simp add: discreet_def new_smtp_def)
  then have first: "discreet c1" using withinD [OF greet_login login] by (simp add: greets_def)
  show ?thesis
  proof (cases r1)
    case (Inl e)
    with assms login first show ?thesis by (auto simp: smtp_send_split bind_def discreet_def)
  next
    case (Inr u)
    with assms login have rest: "smtp_deliver base64 options mail c1 = (r, c)" by (simp add: smtp_send_split bind_def)
    have "discreet c"
      using withinD [OF cipher_deliver rest] first login_encrypts(1) [OF login [unfolded Inr]] by (simp add: stays_encrypted_def)
    moreover have "sk_accepted c \<and> map snd (sk_sent c) = dialogue base64 options mail" if "r = Inr ()"
      using deliver_sends [OF rest [unfolded that]] login_encrypts(2) [OF login [unfolded Inr]]
      by (simp add: dialogue_def)
    ultimately show ?thesis by (auto simp: discreet_def)
  qed
qed

lemma smtp_reply_one:
  assumes "sk_input c = a # b # d # CHR '' '' # CHR 0x0D # CHR 0x0A # rest"
    and "50 \<le> (of_char a :: nat)" "(of_char a :: nat) \<le> 53" "is_digit b" "is_digit d"
  shows "smtp_reply c = (Inr (smtp_code [a, b, d]), c\<lparr>sk_input := rest\<rparr>)"
proof -
  have "smtp_line (Suc (Suc (Suc (Suc (Suc (Suc n)))))) '''' c = (Inr [a, b, d, CHR '' '', CHR 0x0D, CHR 0x0A], c\<lparr>sk_input := rest\<rparr>)" for n
    using assms by (auto simp: ret_def is_digit_def)
  from this [of 4090] have "smtp_line 4096 '''' c = (Inr [a, b, d, CHR '' '', CHR 0x0D, CHR 0x0A], c\<lparr>sk_input := rest\<rparr>)" by simp
  then have "smtp_reply_lines (Suc n) 0 c = (Inr (smtp_code [a, b, d]), c\<lparr>sk_input := rest\<rparr>)" for n
    using assms(2-5) by (simp add: bind_def smtp_valid_def crlf_def ret_def smtp_code_def)
  from this [of 31] show ?thesis by (simp add: smtp_reply_def del: smtp_reply_lines.simps)
qed

lemma smtp_command_answered:
  assumes "sk_input c = a # b # d # CHR '' '' # CHR 0x0D # CHR 0x0A # rest" "sk_writes c = []"
    and "50 \<le> (of_char a :: nat)" "(of_char a :: nat) \<le> 53" "is_digit b" "is_digit d" "expected = smtp_code [a, b, d]"
  shows "smtp_command text expected c =
    (Inr (), c\<lparr>sk_sent := sk_sent c @ [(sk_encrypted c, text)], sk_input := rest\<rparr>)"
proof -
  let ?c = "c\<lparr>sk_sent := sk_sent c @ [(sk_encrypted c, text)]\<rparr>"
  have "smtp_reply ?c = (Inr expected, ?c\<lparr>sk_input := rest\<rparr>)" using smtp_reply_one [of ?c] assms by simp
  then show ?thesis using assms(2) by (simp add: smtp_command_def bind_def smtp_write_def ret_def)
qed

definition sample_peer :: smtp_peer where
  "sample_peer =
     \<lparr>pe_connect = Inr (), pe_plain = ''220 '' @ crlf @ ''250 '' @ crlf @ ''220 '' @ crlf, pe_handshake = Inr (),
      pe_encrypted = ''250 '' @ crlf @ ''334 '' @ crlf @ ''334 '' @ crlf @ ''235 '' @ crlf @ ''250 '' @ crlf @ ''250 '' @ crlf @
        ''354 '' @ crlf @ ''250 '' @ crlf @ ''221 '' @ crlf,
      pe_writes = [], pe_output_close = None, pe_input_close = None\<rparr>"

definition sample_mail :: verification_mail where
  "sample_mail = \<lparr>ma_recipient = ''ann@example.org'', ma_code = ''012345'', ma_ttl_seconds = 180\<rparr>"

lemma sample_mail_sent:
  "fst (smtp_send (\<lambda>s. s) sample_peer \<lparr>sp_implicit_tls = False, sp_user = ''imm'', sp_password = ''pw''\<rparr> sample_mail
     (new_smtp sample_peer)) = Inr ()"
  by (simp add: smtp_send_def bind_def smtp_dial_def new_smtp_def sample_peer_def crlf_def smtp_reply_one smtp_command_answered
      smtp_starttls_def smtp_wrap_def smtp_code_def is_digit_def catch_def Let_def)

theorem mail_sent_encrypted_witness:
  "\<exists>c. smtp_send (\<lambda>s. s) sample_peer \<lparr>sp_implicit_tls = False, sp_user = ''imm'', sp_password = ''pw''\<rparr> sample_mail
       (new_smtp sample_peer) = (Inr (), c) \<and>
     map snd (sk_sent c) = dialogue (\<lambda>s. s) \<lparr>sp_implicit_tls = False, sp_user = ''imm'', sp_password = ''pw''\<rparr> sample_mail"
proof -
  obtain c where run: "smtp_send (\<lambda>s. s) sample_peer \<lparr>sp_implicit_tls = False, sp_user = ''imm'', sp_password = ''pw''\<rparr>
      sample_mail (new_smtp sample_peer) = (Inr (), c)"
    using sample_mail_sent by (metis prod.collapse)
  with mail_sent_encrypted [OF run] show ?thesis by blast
qed

end
