(* ===== verification/State_Service.thy ===== *)
theory State_Service
  imports Prelude
begin

text \<open>
  The State service (\<^verbatim>\<open>state/options.cc\<close>, \<^verbatim>\<open>state/service.cc\<close>): the directory of gateways and
  Message nodes.  The configuration is read into options; a shard admits calls by a
  semaphore, runs each in a later task, answers it and takes its unit back when gRPC is
  done with the call.
\<close>

section \<open>Messages\<close>

record ConnectUserRsp =
  cu_ip :: string
  cu_port :: int
  cu_node_id :: string

record ServiceNode =
  sn_node_id :: string
  sn_host :: string
  sn_port :: int
  sn_status :: string
  sn_weight :: int
  sn_shard_count :: int

section \<open>Options\<close>

record gateway_node =
  gn_id :: string
  gn_host :: string
  gn_port :: "16 word"
  gn_active :: bool

record state_options =
  so_max_requests :: nat
  so_host :: string
  so_port :: "16 word"
  so_gateways :: "gateway_node list"
  so_messages :: "ServiceNode list"

text \<open>
  The fields of the YAML document that are read; a field that is absent or does not convert
  is \<open>None\<close>, and reading it without a default throws.
\<close>

record node_source =
  ns_name :: "string option"
  ns_host :: "string option"
  ns_port :: "16 word option"
  ns_status :: "string option"
  ns_weight :: "32 word option"
  ns_shards :: "32 word option"

record state_source =
  ys_max_requests :: "int option"
  ys_host :: "string option"
  ys_port :: "16 word option"
  ys_gateways :: "node_source list"
  ys_messages :: "node_source list"

definition yaml_as :: "'a option \<Rightarrow> exn + 'a" where
  "yaml_as field = (case field of None \<Rightarrow> Inl (RuntimeError ''bad conversion'') | Some value \<Rightarrow> Inr value)"

definition yaml_default :: "'a option \<Rightarrow> 'a \<Rightarrow> 'a" where
  "yaml_default field fallback = (case field of None \<Rightarrow> fallback | Some value \<Rightarrow> value)"

definition load_gateway :: "node_source \<Rightarrow> exn + gateway_node" where
  "load_gateway source =
     (case yaml_as (ns_name source) of Inl e \<Rightarrow> Inl e | Inr name \<Rightarrow>
      case yaml_as (ns_host source) of Inl e \<Rightarrow> Inl e | Inr host \<Rightarrow>
      case yaml_as (ns_port source) of Inl e \<Rightarrow> Inl e | Inr port \<Rightarrow>
        let node = \<lparr>gn_id = name, gn_host = host, gn_port = port,
                    gn_active = (yaml_default (ns_status source) ''active'' = ''active'')\<rparr> in
        Inr (node\<lparr>gn_active := gn_active node \<and> gn_host node \<noteq> '''' \<and> gn_port node \<noteq> 0\<rparr>))"

fun load_gateways :: "node_source list \<Rightarrow> exn + gateway_node list" where
  "load_gateways [] = Inr []"
| "load_gateways (source # sources) =
     (case load_gateway source of Inl e \<Rightarrow> Inl e | Inr node \<Rightarrow>
      case load_gateways sources of Inl e \<Rightarrow> Inl e | Inr nodes \<Rightarrow> Inr (node # nodes))"

fun load_messages :: "node_source list \<Rightarrow> exn + ServiceNode list" where
  "load_messages [] = Inr []"
| "load_messages (source # sources) =
     (case yaml_as (ns_host source) of Inl e \<Rightarrow> Inl e | Inr host \<Rightarrow>
      case yaml_as (ns_port source) of Inl e \<Rightarrow> Inl e | Inr port \<Rightarrow>
        let status = yaml_default (ns_status source) ''active'' in
        if status \<noteq> ''active'' \<or> host = '''' \<or> port = 0 then load_messages sources
        else
          case yaml_as (ns_name source) of Inl e \<Rightarrow> Inl e | Inr name \<Rightarrow>
          case load_messages sources of Inl e \<Rightarrow> Inl e | Inr nodes \<Rightarrow>
            Inr (\<lparr>sn_node_id = name, sn_host = host, sn_port = uint port, sn_status = status,
                  sn_weight = uint (yaml_default (ns_weight source) 1),
                  sn_shard_count = uint (yaml_default (ns_shards source) 1)\<rparr> # nodes))"

definition load_state_options :: "state_source \<Rightarrow> exn + state_options" where
  "load_state_options config =
     (let max_requests = yaml_default (ys_max_requests config) 512 in
      if max_requests \<le> 0 then Inl (InvalidArgument ''State transaction.maxRequests must be positive'')
      else
        case yaml_as (ys_host config) of Inl e \<Rightarrow> Inl e | Inr host \<Rightarrow>
        case yaml_as (ys_port config) of Inl e \<Rightarrow> Inl e | Inr port \<Rightarrow>
        case load_gateways (ys_gateways config) of Inl e \<Rightarrow> Inl e | Inr gateways \<Rightarrow>
        case load_messages (ys_messages config) of Inl e \<Rightarrow> Inl e | Inr messages \<Rightarrow>
          Inr \<lparr>so_max_requests = nat max_requests, so_host = host, so_port = port,
               so_gateways = gateways, so_messages = messages\<rparr>)"

section \<open>Calls\<close>

datatype state_request = PickConnectionGateway int | ListMessageNodes

datatype state_response = Connect_response ConnectUserRsp | Topology_response "ServiceNode list"

record state_answer =
  sa_call :: nat
  sa_status :: StatusCode
  sa_message :: string
  sa_payload :: "state_response option"

record state_call =
  sc_id :: nat
  sc_request :: state_request

record state_shard =
  st_stopping :: bool
  st_capacity :: nat
  st_next_gateway :: "64 word"
  st_issued :: nat
  st_tasks :: "state_call list"
  st_calls :: "nat list"
  st_answers :: "state_answer list"

function pick_loop :: "gateway_node list \<Rightarrow> nat \<Rightarrow> nat \<Rightarrow> gateway_node option" where
  "pick_loop nodes start offset =
     (if offset < length nodes
      then let node = nodes ! ((start + offset) mod length nodes) in
        if \<not> gn_active node then pick_loop nodes start (Suc offset) else Some node
      else None)"
  by pat_completeness auto
termination by (relation "measure (\<lambda>(nodes, start, offset). length nodes - offset)") auto

declare pick_loop.simps [simp del]

definition pick_connection_gateway ::
  "state_options \<Rightarrow> state_shard \<Rightarrow> (StatusCode \<times> string \<times> state_response option) \<times> state_shard" where
  "pick_connection_gateway options st =
     (let count = length (so_gateways options) in
      if count = 0 then ((UNAVAILABLE, ''no connection gateway configured'', None), st)
      else
        let start = unat (st_next_gateway st) mod count;
            st1 = st\<lparr>st_next_gateway := st_next_gateway st + 1\<rparr> in
        case pick_loop (so_gateways options) start 0 of
          None \<Rightarrow> ((UNAVAILABLE, ''no active connection gateway'', None), st1)
        | Some node \<Rightarrow>
            ((OK, '''', Some (Connect_response
               \<lparr>cu_ip = gn_host node, cu_port = uint (gn_port node), cu_node_id = gn_id node\<rparr>)), st1))"

fun state_operation ::
  "state_options \<Rightarrow> state_request \<Rightarrow> state_shard \<Rightarrow> (StatusCode \<times> string \<times> state_response option) \<times> state_shard" where
  "state_operation options (PickConnectionGateway uid) st = pick_connection_gateway options st"
| "state_operation options ListMessageNodes st = ((OK, '''', Some (Topology_response (so_messages options))), st)"

definition state_answer_with :: "nat \<Rightarrow> StatusCode \<times> string \<times> state_response option \<Rightarrow> state_shard \<Rightarrow> state_shard" where
  "state_answer_with call answer st =
     (case answer of (status, message, payload) \<Rightarrow>
        st\<lparr>st_answers := st_answers st @
          [\<lparr>sa_call = call, sa_status = status, sa_message = message, sa_payload = payload\<rparr>]\<rparr>)"

definition state_submit :: "state_request \<Rightarrow> state_shard \<Rightarrow> state_shard" where
  "state_submit request st =
     (let call = st_issued st; st1 = st\<lparr>st_issued := Suc call\<rparr> in
      if st_stopping st then state_answer_with call (UNAVAILABLE, ''State is stopping'', None) st1
      else if st_capacity st < 1
      then state_answer_with call (RESOURCE_EXHAUSTED, ''State request capacity exceeded'', None) st1
      else st1\<lparr>st_capacity := st_capacity st - 1, st_tasks := st_tasks st @ [\<lparr>sc_id = call, sc_request = request\<rparr>]\<rparr>)"

definition state_execute :: "state_options \<Rightarrow> state_call \<Rightarrow> state_shard \<Rightarrow> state_shard" where
  "state_execute options call st =
     (let (answer, st1) =
        (if st_stopping st then ((UNAVAILABLE, ''State is stopping'', None), st)
         else state_operation options (sc_request call) st) in
      state_answer_with (sc_id call) answer
        (st1\<lparr>st_tasks := remove1 call (st_tasks st1), st_calls := st_calls st1 @ [sc_id call]\<rparr>))"

definition state_on_done :: "nat \<Rightarrow> state_shard \<Rightarrow> state_shard" where
  "state_on_done call st = st\<lparr>st_calls := remove1 call (st_calls st), st_capacity := st_capacity st + 1\<rparr>"

definition state_stop :: "state_shard \<Rightarrow> state_shard" where
  "state_stop st = st\<lparr>st_stopping := True\<rparr>"

definition new_state :: "state_options \<Rightarrow> state_shard" where
  "new_state options =
     \<lparr>st_stopping = False, st_capacity = so_max_requests options, st_next_gateway = 0, st_issued = 0,
      st_tasks = [], st_calls = [], st_answers = []\<rparr>"

inductive state_step :: "state_options \<Rightarrow> state_shard \<Rightarrow> state_shard \<Rightarrow> bool" for options where
  submitted: "state_step options st (state_submit request st)"
| executed: "call \<in> set (st_tasks st) \<Longrightarrow> state_step options st (state_execute options call st)"
| finished: "call \<in> set (st_calls st) \<Longrightarrow> state_step options st (state_on_done call st)"
| stopped: "state_step options st (state_stop st)"

definition state_reachable :: "state_options \<Rightarrow> state_shard \<Rightarrow> bool" where
  "state_reachable options st = (state_step options)\<^sup>*\<^sup>* (new_state options) st"

section \<open>Admission and answers\<close>

text \<open>Every unit of capacity and every number given to a call is accounted for.\<close>

definition state_ok :: "state_options \<Rightarrow> state_shard \<Rightarrow> bool" where
  "state_ok options st =
     (st_capacity st + length (st_tasks st) + length (st_calls st) = so_max_requests options \<and>
      distinct (map sc_id (st_tasks st) @ map sa_call (st_answers st)) \<and>
      set (map sc_id (st_tasks st) @ map sa_call (st_answers st)) = {..<st_issued st})"

lemma pick_frame:
  assumes "pick_connection_gateway options st = (answer, st')"
  shows "st_capacity st' = st_capacity st" "st_tasks st' = st_tasks st" "st_calls st' = st_calls st"
    "st_answers st' = st_answers st" "st_issued st' = st_issued st" "st_stopping st' = st_stopping st"
  using assms by (auto simp: pick_connection_gateway_def Let_def split: if_splits option.splits)

lemma operation_frame:
  assumes "state_operation options request st = (answer, st')"
  shows "st_capacity st' = st_capacity st" "st_tasks st' = st_tasks st" "st_calls st' = st_calls st"
    "st_answers st' = st_answers st" "st_issued st' = st_issued st"
  using assms by (cases request; auto dest: pick_frame)+

lemma answer_frame [simp]:
  "st_capacity (state_answer_with c a st) = st_capacity st" "st_tasks (state_answer_with c a st) = st_tasks st"
  "st_calls (state_answer_with c a st) = st_calls st" "st_issued (state_answer_with c a st) = st_issued st"
  "map sa_call (st_answers (state_answer_with c a st)) = map sa_call (st_answers st) @ [c]"
  by (simp_all add: state_answer_with_def split: prod.splits)

lemma new_state_ok: "state_ok options (new_state options)"
  by (simp add: state_ok_def new_state_def)

lemma state_submit_ok:
  assumes "state_ok options st"
  shows "state_ok options (state_submit request st)"
proof -
  let ?n = "st_issued st" and ?t = "map sc_id (st_tasks st)" and ?a = "map sa_call (st_answers st)"
  have ok: "st_capacity st + length (st_tasks st) + length (st_calls st) = so_max_requests options" "distinct (?t @ ?a)"
    "set (?t @ ?a) = {..<?n}"
    using assms by (simp_all add: state_ok_def)
  then have fresh: "?n \<notin> set ?t" "?n \<notin> set ?a" by (metis Un_iff lessThan_iff less_irrefl set_append)+
  have ledger: "distinct (?t @ ?a @ [?n])" "distinct ((?t @ [?n]) @ ?a)" "set (?t @ ?a @ [?n]) = {..<Suc ?n}"
    "set ((?t @ [?n]) @ ?a) = {..<Suc ?n}"
    using fresh ok(2,3) by (auto simp: lessThan_Suc)
  show ?thesis
  proof (cases "st_stopping st \<or> st_capacity st < 1")
    case True
    then have eq: "st_capacity (state_submit request st) = st_capacity st" "st_tasks (state_submit request st) = st_tasks st"
      "st_calls (state_submit request st) = st_calls st" "st_issued (state_submit request st) = Suc ?n"
      "map sa_call (st_answers (state_submit request st)) = ?a @ [?n]"
      by (auto simp: state_submit_def Let_def)
    show ?thesis unfolding state_ok_def eq using ok(1) ledger(1,3) by (intro conjI)
  next
    case False
    then have eq: "st_capacity (state_submit request st) = st_capacity st - 1"
      "map sc_id (st_tasks (state_submit request st)) = ?t @ [?n]" "st_calls (state_submit request st) = st_calls st"
      "length (st_tasks (state_submit request st)) = Suc (length (st_tasks st))"
      "st_issued (state_submit request st) = Suc ?n" "map sa_call (st_answers (state_submit request st)) = ?a"
      by (simp_all add: state_submit_def Let_def)
    have "st_capacity st - 1 + Suc (length (st_tasks st)) + length (st_calls st) = so_max_requests options"
      using ok(1) False by linarith
    then show ?thesis unfolding state_ok_def eq using ledger(2,4) by (intro conjI)
  qed
qed

lemma state_execute_ok:
  assumes "state_ok options st" "call \<in> set (st_tasks st)"
  shows "state_ok options (state_execute options call st)"
proof -
  obtain answer st1 where run: "(if st_stopping st then ((UNAVAILABLE, ''State is stopping'', None), st)
      else state_operation options (sc_request call) st) = (answer, st1)" by fastforce
  have frame: "st_capacity st1 = st_capacity st" "st_tasks st1 = st_tasks st" "st_calls st1 = st_calls st"
      "st_answers st1 = st_answers st" "st_issued st1 = st_issued st"
    using run operation_frame [of options "sc_request call" st answer st1] by (auto split: if_splits)
  let ?st = "state_execute options call st"
  have eq: "?st = state_answer_with (sc_id call) answer
      (st1\<lparr>st_tasks := remove1 call (st_tasks st), st_calls := st_calls st @ [sc_id call]\<rparr>)"
    using run frame by (simp add: state_execute_def)
  obtain xs ys where tasks: "st_tasks st = xs @ call # ys" "call \<notin> set xs" using assms(2) by (meson split_list_first)
  have rest: "remove1 call (st_tasks st) = xs @ ys" using tasks by (simp add: remove1_append)
  have "st_capacity ?st = st_capacity st" "st_tasks ?st = xs @ ys" "st_calls ?st = st_calls st @ [sc_id call]"
      "map sa_call (st_answers ?st) = map sa_call (st_answers st) @ [sc_id call]" "st_issued ?st = st_issued st"
    unfolding eq using frame rest by simp_all
  moreover have "length (xs @ ys) + 1 = length (st_tasks st)" using tasks by simp
  ultimately show ?thesis using assms(1) tasks(1) unfolding state_ok_def by auto
qed

lemma state_on_done_ok:
  assumes "state_ok options st" "call \<in> set (st_calls st)"
  shows "state_ok options (state_on_done call st)"
proof -
  have "length (remove1 call (st_calls st)) + 1 = length (st_calls st)"
    using assms(2) by (simp add: length_remove1) (metis length_pos_if_in_set Suc_pred)
  with assms(1) show ?thesis by (simp add: state_ok_def state_on_done_def)
qed

lemma state_stop_ok: "state_ok options st \<Longrightarrow> state_ok options (state_stop st)"
  by (simp add: state_stop_def state_ok_def)

lemma state_reachable_ok: "state_reachable options st \<Longrightarrow> state_ok options st"
  unfolding state_reachable_def
proof (induction rule: rtranclp_induct)
  case (step st st')
  from step(2) step(3) show ?case
    by cases (auto intro: state_submit_ok state_execute_ok state_on_done_ok state_stop_ok)
qed (rule new_state_ok)

section \<open>Choosing a gateway\<close>

lemma pick_loop_find:
  "pick_loop nodes start offset =
     find gn_active (map (\<lambda>k. nodes ! ((start + k) mod length nodes)) [offset..<length nodes])"
proof (induction nodes start offset rule: pick_loop.induct)
  case (1 nodes start offset)
  then show ?case by (subst pick_loop.simps) (simp add: Let_def upt_conv_Cons)
qed

lemma pick_loop_Some:
  assumes "pick_loop nodes start offset = Some node"
  shows "node \<in> set nodes" "gn_active node"
proof -
  have "node \<in> set (map (\<lambda>k. nodes ! ((start + k) mod length nodes)) [offset..<length nodes])" "gn_active node"
    using assms unfolding pick_loop_find by (auto simp: find_Some_iff)
  then show "node \<in> set nodes" "gn_active node" by (auto intro!: nth_mem mod_less_divisor)
qed

definition picked :: "gateway_node \<Rightarrow> StatusCode \<times> string \<times> state_response option" where
  "picked node = (OK, '''', Some (Connect_response
     \<lparr>cu_ip = gn_host node, cu_port = uint (gn_port node), cu_node_id = gn_id node\<rparr>))"

lemma pick_cases:
  assumes "pick_connection_gateway options st = ((status, message, payload), st')"
  obtains (refused) "status \<noteq> OK" "payload = None"
  | (found) node where "node \<in> set (so_gateways options)" "gn_active node" "(status, message, payload) = picked node"
  using assms pick_loop_Some
  by (fastforce simp: pick_connection_gateway_def picked_def Let_def split: if_splits option.splits)

text \<open>An answer of the shard is one of its own texts or the answer of an operation.\<close>

definition answer_ok :: "state_options \<Rightarrow> state_answer \<Rightarrow> bool" where
  "answer_ok options answer =
     (\<forall>response. sa_payload answer = Some (Connect_response response) \<longrightarrow>
        (\<exists>node \<in> set (so_gateways options). gn_active node \<and> sa_status answer = OK \<and>
           response = \<lparr>cu_ip = gn_host node, cu_port = uint (gn_port node), cu_node_id = gn_id node\<rparr>))"

lemma operation_answer:
  assumes "state_operation options request st = ((status, message, payload), st')"
  shows "answer_ok options \<lparr>sa_call = c, sa_status = status, sa_message = message, sa_payload = payload\<rparr>"
proof (cases request)
  case (PickConnectionGateway uid)
  with assms have "pick_connection_gateway options st = ((status, message, payload), st')" by simp
  then show ?thesis by (cases rule: pick_cases) (auto simp: answer_ok_def picked_def)
qed (use assms in \<open>auto simp: answer_ok_def\<close>)

lemma state_answers_ok:
  assumes "state_reachable options st" "answer \<in> set (st_answers st)"
  shows "answer_ok options answer"
  using assms unfolding state_reachable_def
proof (induction arbitrary: answer rule: rtranclp_induct)
  case (step st st')
  from step(2) show ?case
  proof cases
    case (executed call)
    obtain status message payload st1 where run: "(if st_stopping st then ((UNAVAILABLE, ''State is stopping'', None), st)
        else state_operation options (sc_request call) st) = ((status, message, payload), st1)" by (metis prod.collapse)
    have "st_answers st1 = st_answers st"
      using run operation_frame [of options "sc_request call" st _ st1] by (auto split: if_splits)
    moreover have "answer_ok options \<lparr>sa_call = sc_id call, sa_status = status, sa_message = message, sa_payload = payload\<rparr>"
      using run operation_answer [of options "sc_request call" st status message payload st1]
      by (auto split: if_splits simp: answer_ok_def)
    ultimately show ?thesis using step executed run by (auto simp: state_execute_def state_answer_with_def)
  qed (use step in \<open>auto simp: state_submit_def state_answer_with_def Let_def answer_ok_def state_on_done_def
      state_stop_def split: if_splits\<close>)
qed (simp add: new_state_def)

lemma loaded_gateway:
  "load_gateways sources = Inr nodes \<Longrightarrow> node \<in> set nodes \<Longrightarrow> gn_active node \<Longrightarrow> gn_host node \<noteq> '''' \<and> gn_port node \<noteq> 0"
  by (induction sources arbitrary: nodes) (auto simp: load_gateway_def Let_def split: sum.splits)

lemma loaded_message:
  "load_messages sources = Inr nodes \<Longrightarrow> node \<in> set nodes \<Longrightarrow>
     sn_host node \<noteq> '''' \<and> 0 < sn_port node \<and> sn_port node \<le> 65535 \<and> sn_status node = ''active''"
proof (induction sources arbitrary: nodes)
  case (Cons source sources)
  have "0 < uint p \<and> uint p \<le> 65535" if "p \<noteq> 0" for p :: "16 word"
    using that uint_lt2p [of p] by (simp add: word_neq_0_conv word_less_def)
  with Cons show ?case by (fastforce simp: Let_def split: sum.splits if_splits)
qed simp

section \<open>Properties\<close>




definition sample_gateways :: state_options where
  "sample_gateways =
     \<lparr>so_max_requests = 512, so_host = ''127.0.0.1'', so_port = 50052,
      so_gateways = [\<lparr>gn_id = ''g1'', gn_host = ''10.0.0.1'', gn_port = 8090, gn_active = True\<rparr>,
                     \<lparr>gn_id = ''g2'', gn_host = ''10.0.0.2'', gn_port = 8090, gn_active = False\<rparr>,
                     \<lparr>gn_id = ''g3'', gn_host = ''10.0.0.3'', gn_port = 8090, gn_active = True\<rparr>],
      so_messages = []\<rparr>"


text \<open>C39: Whatever is submitted to a State shard, its semaphore and the numbers of its calls stay
  accounted for: a unit is free or belongs to one call, and every call is either still to
  run or has been answered, once.\<close>

theorem state_calls_accounted:
  assumes "state_reachable options st"
  shows "st_capacity st + length (st_tasks st) + length (st_calls st) = so_max_requests options \<and>
    distinct (map sa_call (st_answers st)) \<and> sc_id ` set (st_tasks st) \<inter> sa_call ` set (st_answers st) = {} \<and>
    sc_id ` set (st_tasks st) \<union> sa_call ` set (st_answers st) = {..<st_issued st}"
  using state_reachable_ok [OF assms] by (simp add: state_ok_def)

definition sample_state :: state_shard where
  "sample_state = state_execute sample_gateways \<lparr>sc_id = 0, sc_request = PickConnectionGateway 7\<rparr>
     (state_submit ListMessageNodes (state_submit (PickConnectionGateway 7) (new_state sample_gateways)))"

lemma state_reachable_step: "state_reachable options st \<Longrightarrow> state_step options st st' \<Longrightarrow> state_reachable options st'"
  unfolding state_reachable_def by (rule rtranclp.rtrancl_into_rtrancl)

lemma sample_state_reachable: "state_reachable sample_gateways sample_state"
  unfolding sample_state_def
proof (intro state_reachable_step [OF _ executed] state_reachable_step [OF _ submitted])
  show "state_reachable sample_gateways (new_state sample_gateways)" by (simp add: state_reachable_def)
qed (simp add: state_submit_def new_state_def sample_gateways_def Let_def)

lemma sample_state_facts:
  "st_answers sample_state = [\<lparr>sa_call = 0, sa_status = OK, sa_message = '''', sa_payload =
     Some (Connect_response \<lparr>cu_ip = ''10.0.0.1'', cu_port = 8090, cu_node_id = ''g1''\<rparr>)\<rparr>]"
  "st_issued sample_state = 2" "st_capacity sample_state = 510" "map sc_id (st_tasks sample_state) = [1]"
  by (simp_all add: sample_state_def state_execute_def state_submit_def new_state_def sample_gateways_def Let_def
      state_answer_with_def pick_connection_gateway_def pick_loop.simps)

theorem state_calls_accounted_witness:
  "st_capacity sample_state = 510 \<and> sc_id ` set (st_tasks sample_state) \<union> sa_call ` set (st_answers sample_state) = {..<2}"
  using state_calls_accounted [OF sample_state_reachable] sample_state_facts(2,3) by simp

text \<open>C38: A gateway that a State shard names is an active node of the configuration it was started with, and
  has an address a client can connect to: a host and a port between 1 and 65535.\<close>

theorem picked_gateways_usable:
  assumes "load_state_options config = Inr options" "state_reachable options st"
    and "answer \<in> set (st_answers st)" "sa_payload answer = Some (Connect_response response)"
  shows "sa_status answer = OK \<and> cu_ip response \<noteq> '''' \<and> 0 < cu_port response \<and> cu_port response \<le> 65535 \<and>
    (\<exists>node \<in> set (so_gateways options). gn_active node \<and> gn_id node = cu_node_id response \<and> gn_host node = cu_ip response)"
proof -
  have "load_gateways (ys_gateways config) = Inr (so_gateways options)"
    using assms(1) by (auto simp: load_state_options_def Let_def split: if_splits sum.splits)
  note gateway = loaded_gateway [OF this]
  obtain node where node: "node \<in> set (so_gateways options)" "gn_active node" "sa_status answer = OK"
    "response = \<lparr>cu_ip = gn_host node, cu_port = uint (gn_port node), cu_node_id = gn_id node\<rparr>"
    using state_answers_ok [OF assms(2,3)] assms(4) by (auto simp: answer_ok_def)
  have "uint (gn_port node) < 2 ^ 16" using uint_lt2p [of "gn_port node"] by simp
  moreover have "0 < uint (gn_port node)" using gateway [OF node(1,2)] by (simp add: word_neq_0_conv word_less_def)
  ultimately show ?thesis using node gateway [OF node(1,2)] by auto
qed

definition sample_source :: state_source where
  "sample_source =
     \<lparr>ys_max_requests = None, ys_host = Some ''127.0.0.1'', ys_port = Some 50052,
      ys_gateways =
        [\<lparr>ns_name = Some ''g1'', ns_host = Some ''10.0.0.1'', ns_port = Some 8090, ns_status = None, ns_weight = None, ns_shards = None\<rparr>,
         \<lparr>ns_name = Some ''g2'', ns_host = Some ''10.0.0.2'', ns_port = Some 8090, ns_status = Some ''down'', ns_weight = None, ns_shards = None\<rparr>,
         \<lparr>ns_name = Some ''g3'', ns_host = Some ''10.0.0.3'', ns_port = Some 8090, ns_status = None, ns_weight = None, ns_shards = None\<rparr>],
      ys_messages = []\<rparr>"

lemma sample_source_loads: "load_state_options sample_source = Inr sample_gateways"
  by (simp add: load_state_options_def sample_source_def sample_gateways_def yaml_as_def yaml_default_def load_gateway_def Let_def)

theorem picked_gateways_usable_witness:
  "load_state_options sample_source = Inr sample_gateways \<and>
   map sa_payload (st_answers sample_state) = [Some (Connect_response \<lparr>cu_ip = ''10.0.0.1'', cu_port = 8090, cu_node_id = ''g1''\<rparr>)] \<and>
   (\<exists>node \<in> set (so_gateways sample_gateways). gn_active node \<and> gn_id node = ''g1'' \<and> gn_host node = ''10.0.0.1'')"
  using picked_gateways_usable [OF sample_source_loads sample_state_reachable, of "hd (st_answers sample_state)"
      "\<lparr>cu_ip = ''10.0.0.1'', cu_port = 8090, cu_node_id = ''g1''\<rparr>"] sample_source_loads sample_state_facts(1)
  by simp

end
