(* ===== verification/Gate_Driver.thy ===== *)
theory Gate_Driver
  imports Gate_Redis Smtp State_Service Io_Queue
begin

text \<open>
  The driver of a Gate shard (\<^verbatim>\<open>gate/io/driver.cc\<close>, \<^verbatim>\<open>gate/io/grpc_client.cc\<close>) behind its operation queue: Redis
  through Sentinel with a connection per command, MySQL with a connection per query, the
  State RPC and SMTP.  The world holds the \<^verbatim>\<open>users\<close> table and the Redis store, a schedule of faults
  for their commands, and a schedule of slots: at every submission to the queue
  operations of other requests run first, each after some time, and the queue admits or not.  \<open>gw_log\<close>
  is a history of what the servers carried out and for which request; no operation reads it.
\<close>

section \<open>World\<close>

record users_row =
  ac_uid :: int
  ac_username :: string
  ac_password :: string
  ac_email :: string
  ac_createTime :: string

datatype io_operation =
    issue_verification_code string string int int
  | get_verification_code string
  | clear_verification_code string string
  | send_verification_email string string int
  | find_user string
  | has_user_info int
  | pick_gateway int
  | set_chat_token int string int
  | consume_verification_code string string int
  | generate_user_id int
  | user_exists string string
  | register_user int string string string
  | update_password int string

datatype gate_event =
    Issued string string
  | Cleared string string
  | Consumed string string
  | Rejected string
  | Mailed string string
  | Found users_row
  | Token_set int string int
  | Registered int string string string
  | Updated int string

record gate_services =
  gs_env :: env
  gs_resolve :: "nat \<Rightarrow> string \<Rightarrow> exn + string"
  gs_connect :: "nat \<Rightarrow> string \<Rightarrow> int \<Rightarrow> exn + unit"
  gs_sentinel :: "nat \<Rightarrow> string \<Rightarrow> int \<Rightarrow> string list \<Rightarrow> redisReply option"
  gs_mysql :: "nat \<Rightarrow> string \<Rightarrow> exn + unit"
  gs_clock :: "nat \<Rightarrow> int"
  gs_ttl :: "int \<Rightarrow> int"
  gs_uniform :: "nat \<Rightarrow> exn + nat"
  gs_state :: "nat \<Rightarrow> int \<Rightarrow> string + ConnectUserRsp option"
  gs_smtp :: "nat \<Rightarrow> smtp_peer"
  gs_base64 :: "string \<Rightarrow> string"

record gate_options =
  go_max_attempts :: int
  go_machine_id :: int
  go_mysql_host :: string
  go_sentinels :: "endpoint list"
  go_master_name :: string
  go_redis_password :: string
  go_sentinel_password :: string
  go_code_ttl_seconds :: int
  go_cooldown_seconds :: int
  go_email_enabled :: bool
  go_expose_code :: bool
  go_smtp_host :: string
  go_implicit_tls :: bool
  go_smtp_user :: string
  go_smtp_password :: string

record gate_slot =
  gl_before :: "(nat \<times> nat \<times> io_operation) list"
  gl_elapsed :: nat
  gl_admission :: admission
  gl_stop :: bool

datatype entropy = Random string | Interrupted | No_entropy string

record gate_world =
  gw_users :: "users_row list"
  gw_userInfo :: "userInfo_row list"
  gw_redis :: redis_db
  gw_now :: int
  gw_tick :: nat
  gw_faults :: "fault list"
  gw_slots :: "gate_slot list"
  gw_entropy :: "entropy list"
  gw_sleeps :: nat
  gw_stopping :: bool
  gw_requests :: budget
  gw_log :: "(nat \<times> gate_event) list"

definition gate_fault :: "gate_world \<Rightarrow> fault \<times> gate_world" where
  "gate_fault w = (case gw_faults w of [] \<Rightarrow> (Fine, w) | f # fs \<Rightarrow> (f, w\<lparr>gw_faults := fs\<rparr>))"

definition gate_await :: "(nat \<Rightarrow> exn + 'a) \<Rightarrow> (gate_world, 'a) prog" where
  "gate_await f w = (f (gw_tick w), w\<lparr>gw_tick := Suc (gw_tick w)\<rparr>)"

definition gate_running :: "(gate_world, unit) prog" where
  "gate_running w = (if gw_stopping w then Inl Stopped else Inr (), w)"

definition check_reply :: "bool \<Rightarrow> (gate_world, unit) prog" where
  "check_reply condition = (if condition then ret () else raise (RuntimeError ''unexpected Redis reply''))"

section \<open>Redis\<close>

definition sentinel_call :: "gate_services \<Rightarrow> string \<Rightarrow> int \<Rightarrow> string list \<Rightarrow> (gate_world, redis_reply) prog" where
  "sentinel_call S ip port arguments = gate_await (\<lambda>n. completed (gs_sentinel S n ip port arguments))"

definition gate_sentinel :: "gate_services \<Rightarrow> gate_options \<Rightarrow> endpoint \<Rightarrow> (gate_world, endpoint) prog" where
  "gate_sentinel S options address =
     bind (gate_await (\<lambda>n. gs_resolve S n (ep_host address))) (\<lambda>ip.
     bind gate_running (\<lambda>_.
     bind (gate_await (\<lambda>n. gs_connect S n ip (ep_port address))) (\<lambda>_.
     bind (if go_sentinel_password options \<noteq> ''''
           then bind (sentinel_call S ip (ep_port address) [''AUTH'', go_sentinel_password options]) (\<lambda>_. ret ())
           else ret ()) (\<lambda>_.
     bind (sentinel_call S ip (ep_port address) [''SENTINEL'', ''get-master-addr-by-name'', go_master_name options]) (\<lambda>reply.
     bind (check_reply (rd_type reply = REDIS_REPLY_ARRAY \<and> length (rd_elements reply) = 2)) (\<lambda>_.
     case stoul (rd_elements reply ! 1) of
       Inl e \<Rightarrow> raise e
     | Inr port \<Rightarrow>
         bind (check_reply (port > 0 \<and> port \<le> 65535)) (\<lambda>_.
         ret \<lparr>ep_host = rd_elements reply ! 0, ep_port = int port\<rparr>)))))))"

fun discover_master :: "gate_services \<Rightarrow> gate_options \<Rightarrow> endpoint list \<Rightarrow> exn \<Rightarrow> (gate_world, endpoint) prog" where
  "discover_master S options [] failure = raise failure"
| "discover_master S options (address # rest) failure =
     bind gate_running (\<lambda>_. catch (gate_sentinel S options address) (discover_master S options rest))"

text \<open>The command at the master, answered, refused, or carried out with its answer lost.\<close>

definition redis_execute ::
  "nat \<Rightarrow> (int \<Rightarrow> (redis_db, redis_reply) prog) \<Rightarrow> (redis_reply \<Rightarrow> gate_event list) \<Rightarrow> (gate_world, redis_reply) prog" where
  "redis_execute who command events w =
     (let (flt, w1) = gate_fault w in
      case flt of
        Refused m \<Rightarrow> (Inl (RuntimeError m), w1)
      | _ \<Rightarrow>
          (case command (gw_now w1) (gw_redis w1) of
             (Inl e, db) \<Rightarrow> (Inl e, w1\<lparr>gw_redis := db\<rparr>)
           | (Inr reply, db) \<Rightarrow>
               let w2 = w1\<lparr>gw_redis := db, gw_log := gw_log w1 @ map (Pair who) (events reply)\<rparr> in
               case flt of Lost m \<Rightarrow> (Inl (RuntimeError m), w2) | _ \<Rightarrow> (Inr reply, w2)))"

definition gate_redis ::
  "gate_services \<Rightarrow> gate_options \<Rightarrow> nat \<Rightarrow> (int \<Rightarrow> (redis_db, redis_reply) prog) \<Rightarrow> (redis_reply \<Rightarrow> gate_event list) \<Rightarrow>
    (gate_world, redis_reply) prog" where
  "gate_redis S options who command events =
     bind gate_running (\<lambda>_.
     bind (discover_master S options (go_sentinels options) (LogicError ''no sentinel'')) (\<lambda>address.
     bind (gate_await (\<lambda>n. gs_resolve S n (ep_host address))) (\<lambda>ip.
     bind gate_running (\<lambda>_.
     bind (gate_await (\<lambda>n. gs_connect S n ip (ep_port address))) (\<lambda>_.
     bind (if go_redis_password options \<noteq> ''''
           then bind (sentinel_call S ip (ep_port address) [''AUTH'', go_redis_password options]) (\<lambda>_. ret ())
           else ret ()) (\<lambda>_.
     redis_execute who command events))))))"

definition integer_reply :: "int \<Rightarrow> redis_reply" where
  "integer_reply n = \<lparr>rd_type = REDIS_REPLY_INTEGER, rd_integer = n, rd_text = '''', rd_elements = []\<rparr>"

definition string_reply :: "string option \<Rightarrow> redis_reply" where
  "string_reply s =
     (case s of
        None \<Rightarrow> \<lparr>rd_type = REDIS_REPLY_NIL, rd_integer = 0, rd_text = '''', rd_elements = []\<rparr>
      | Some t \<Rightarrow> \<lparr>rd_type = REDIS_REPLY_STRING, rd_integer = 0, rd_text = t, rd_elements = []\<rparr>)"

definition status_reply :: "string \<Rightarrow> redis_reply" where
  "status_reply t = \<lparr>rd_type = REDIS_REPLY_STATUS, rd_integer = 0, rd_text = t, rd_elements = []\<rparr>"

definition answering :: "('a \<Rightarrow> redis_reply) \<Rightarrow> (int \<Rightarrow> (redis_db, 'a) prog) \<Rightarrow> int \<Rightarrow> (redis_db, redis_reply) prog" where
  "answering reply command now = bind (command now) (\<lambda>a. ret (reply a))"

definition execute_issue :: "gate_services \<Rightarrow> gate_options \<Rightarrow> nat \<Rightarrow> string \<Rightarrow> string \<Rightarrow> int \<Rightarrow> int \<Rightarrow> (gate_world, bool) prog" where
  "execute_issue S options who email vcode ttl_seconds cooldown_seconds =
     bind (gate_redis S options who
             (answering integer_reply (\<lambda>now. issue_script now email vcode ttl_seconds cooldown_seconds))
             (\<lambda>reply. if rd_integer reply = 1 then [Issued email vcode] else [])) (\<lambda>result.
     bind (check_reply (rd_type result = REDIS_REPLY_INTEGER \<and> (rd_integer result = 0 \<or> rd_integer result = 1))) (\<lambda>_.
     ret (rd_integer result = 1)))"

definition execute_get :: "gate_services \<Rightarrow> gate_options \<Rightarrow> nat \<Rightarrow> string \<Rightarrow> (gate_world, string) prog" where
  "execute_get S options who email =
     bind (gate_redis S options who (answering string_reply (\<lambda>now. redis_get now (code_key email))) (\<lambda>_. [])) (\<lambda>result.
     bind (check_reply (rd_type result = REDIS_REPLY_STRING \<or> rd_type result = REDIS_REPLY_NIL)) (\<lambda>_.
     ret (rd_text result)))"

definition execute_clear :: "gate_services \<Rightarrow> gate_options \<Rightarrow> nat \<Rightarrow> string \<Rightarrow> string \<Rightarrow> (gate_world, bool) prog" where
  "execute_clear S options who email vcode =
     bind (gate_redis S options who (answering integer_reply (\<lambda>now. clear_script now email vcode))
             (\<lambda>reply. if rd_integer reply = 1 then [Cleared email vcode] else [])) (\<lambda>result.
     bind (check_reply (rd_type result = REDIS_REPLY_INTEGER)) (\<lambda>_.
     ret (rd_integer result = 1)))"

definition execute_consume :: "gate_services \<Rightarrow> gate_options \<Rightarrow> nat \<Rightarrow> string \<Rightarrow> string \<Rightarrow> int \<Rightarrow> (gate_world, bool) prog" where
  "execute_consume S options who email vcode max_attempts =
     bind (gate_redis S options who
             (answering integer_reply (\<lambda>now. consume_script (gs_ttl S) now email vcode max_attempts))
             (\<lambda>reply. if rd_integer reply = 1 then [Consumed email vcode] else [Rejected email])) (\<lambda>reply.
     bind (check_reply (rd_type reply = REDIS_REPLY_INTEGER \<and> (rd_integer reply = 0 \<or> rd_integer reply = 1))) (\<lambda>_.
     ret (rd_integer reply = 1)))"

definition chat_auth_key :: "int \<Rightarrow> string" where
  "chat_auth_key uid = ''im:chatAuth:'' @ to_string uid"

definition execute_set_token :: "gate_services \<Rightarrow> gate_options \<Rightarrow> nat \<Rightarrow> int \<Rightarrow> string \<Rightarrow> int \<Rightarrow> (gate_world, unit) prog" where
  "execute_set_token S options who uid token ttl_seconds =
     bind (gate_redis S options who
             (answering (\<lambda>_. status_reply ''OK'') (\<lambda>now. redis_setex now (chat_auth_key uid) ttl_seconds token))
             (\<lambda>_. [Token_set uid token ttl_seconds])) (\<lambda>result.
     check_reply (rd_type result = REDIS_REPLY_STATUS \<and> rd_text result = ''OK''))"

definition user_id_key :: "int \<Rightarrow> string" where
  "user_id_key timestamp = ''im:userId:'' @ to_string timestamp"

text \<open>\<open>sleeps\<close> is the number of one-millisecond sleeps after which the shard is still running.\<close>

definition user_id_turn ::
  "gate_services \<Rightarrow> gate_options \<Rightarrow> nat \<Rightarrow> int \<Rightarrow> (gate_world, int) prog \<Rightarrow> (gate_world, int) prog" where
  "user_id_turn S options who machine_id sleep_and_retry =
     bind (gate_await (\<lambda>n. Inr (gs_clock S n - 1672531200000))) (\<lambda>timestamp.
     bind (gate_redis S options who (answering integer_reply (\<lambda>now. redis_incr now (user_id_key timestamp))) (\<lambda>_. [])) (\<lambda>reply.
     bind (check_reply (rd_type reply = REDIS_REPLY_INTEGER \<and> rd_integer reply > 0)) (\<lambda>_.
     if rd_integer reply \<le> 4095 then ret (id_layout timestamp machine_id (rd_integer reply)) else sleep_and_retry)))"

primrec user_id_loop :: "gate_services \<Rightarrow> gate_options \<Rightarrow> nat \<Rightarrow> int \<Rightarrow> nat \<Rightarrow> (gate_world, int) prog" where
  "user_id_loop S options who machine_id 0 =
     user_id_turn S options who machine_id (\<lambda>w. (Inl Stopped, w\<lparr>gw_stopping := True\<rparr>))"
| "user_id_loop S options who machine_id (Suc sleeps) =
     user_id_turn S options who machine_id (user_id_loop S options who machine_id sleeps)"

definition execute_generate :: "gate_services \<Rightarrow> gate_options \<Rightarrow> nat \<Rightarrow> int \<Rightarrow> (gate_world, int) prog" where
  "execute_generate S options who machine_id w =
     bind gate_running (\<lambda>_. user_id_loop S options who machine_id (gw_sleeps w)) w"

section \<open>MySQL\<close>

text \<open>One autocommitted statement on the two tables, with its result and what it carried out.\<close>

definition mysql_execute ::
  "nat \<Rightarrow> (users_row list \<Rightarrow> userInfo_row list \<Rightarrow> 'a \<times> users_row list) \<Rightarrow> ('a \<Rightarrow> gate_event list) \<Rightarrow> (gate_world, 'a) prog" where
  "mysql_execute who statement events w =
     (let (flt, w1) = gate_fault w in
      case flt of
        Refused m \<Rightarrow> (Inl (RuntimeError m), w1)
      | _ \<Rightarrow>
          let (result, users) = statement (gw_users w1) (gw_userInfo w1);
              w2 = w1\<lparr>gw_users := users, gw_log := gw_log w1 @ map (Pair who) (events result)\<rparr> in
          case flt of Lost m \<Rightarrow> (Inl (RuntimeError m), w2) | _ \<Rightarrow> (Inr result, w2))"

definition mysql_query ::
  "gate_services \<Rightarrow> gate_options \<Rightarrow> nat \<Rightarrow> (users_row list \<Rightarrow> userInfo_row list \<Rightarrow> 'a \<times> users_row list) \<Rightarrow>
    ('a \<Rightarrow> gate_event list) \<Rightarrow> (gate_world, 'a) prog" where
  "mysql_query S options who statement events =
     bind gate_running (\<lambda>_.
     bind (gate_await (\<lambda>n. gs_resolve S n (go_mysql_host options))) (\<lambda>ip.
     bind gate_running (\<lambda>_.
     bind (gate_await (\<lambda>n. gs_mysql S n ip)) (\<lambda>_.
     mysql_execute who statement events))))"

text \<open>A field of more than 1024 bytes is refused by \<^verbatim>\<open>mysql_connection::query\<close>.\<close>

definition bounded_row :: "users_row \<Rightarrow> bool" where
  "bounded_row r =
     (length (ac_username r) \<le> 1024 \<and> length (ac_password r) \<le> 1024 \<and> length (ac_email r) \<le> 1024)"

definition find_statement :: "env \<Rightarrow> string \<Rightarrow> users_row list \<Rightarrow> userInfo_row list \<Rightarrow> users_row option \<times> users_row list" where
  "find_statement E username users infos =
     (first_row (filter (\<lambda>r. collate E (ac_username r) = collate E username) users), users)"

definition execute_find_user :: "gate_services \<Rightarrow> gate_options \<Rightarrow> nat \<Rightarrow> string \<Rightarrow> (gate_world, users_row option) prog" where
  "execute_find_user S options who username =
     bind (mysql_query S options who (find_statement (gs_env S) username)
             (\<lambda>row. case row of None \<Rightarrow> [] | Some r \<Rightarrow> [Found r])) (\<lambda>row.
     case row of
       None \<Rightarrow> ret None
     | Some r \<Rightarrow> if bounded_row r then ret (Some r) else raise (RuntimeError ''invalid bounded query result''))"

definition execute_has_user_info :: "gate_services \<Rightarrow> gate_options \<Rightarrow> nat \<Rightarrow> int \<Rightarrow> (gate_world, bool) prog" where
  "execute_has_user_info S options who uid =
     mysql_query S options who (\<lambda>users infos. (list_ex (\<lambda>r. ui_uid r = uid) infos, users)) (\<lambda>_. [])"

definition exists_statement :: "env \<Rightarrow> string \<Rightarrow> string \<Rightarrow> users_row list \<Rightarrow> userInfo_row list \<Rightarrow> bool \<times> users_row list" where
  "exists_statement E username email users infos =
     (list_ex (\<lambda>r. collate E (ac_username r) = collate E username \<or> collate E (ac_email r) = collate E email) users, users)"

definition execute_user_exists :: "gate_services \<Rightarrow> gate_options \<Rightarrow> nat \<Rightarrow> string \<Rightarrow> string \<Rightarrow> (gate_world, bool) prog" where
  "execute_user_exists S options who username email =
     mysql_query S options who (exists_statement (gs_env S) username email) (\<lambda>_. [])"

text \<open>The unique keys of the table: uid, user name and e-mail address, the texts by their collation.\<close>

definition users_clash :: "env \<Rightarrow> users_row \<Rightarrow> users_row \<Rightarrow> bool" where
  "users_clash E r x =
     (ac_uid r = ac_uid x \<or> collate E (ac_username r) = collate E (ac_username x) \<or>
      collate E (ac_email r) = collate E (ac_email x))"

text \<open>Error 1062, a duplicate key, is the only one that comes back as a result.\<close>

definition register_statement ::
  "env \<Rightarrow> int \<Rightarrow> string \<Rightarrow> string \<Rightarrow> string \<Rightarrow> users_row list \<Rightarrow> userInfo_row list \<Rightarrow> int \<times> users_row list" where
  "register_statement E uid username password email users infos =
     (case insert_row (users_clash E)
             \<lparr>ac_uid = uid, ac_username = username, ac_password = password, ac_email = email, ac_createTime = current_time E\<rparr> users of
        Inl _ \<Rightarrow> (1062, users)
      | Inr users' \<Rightarrow> (0, users'))"

definition execute_register ::
  "gate_services \<Rightarrow> gate_options \<Rightarrow> nat \<Rightarrow> int \<Rightarrow> string \<Rightarrow> string \<Rightarrow> string \<Rightarrow> (gate_world, bool) prog" where
  "execute_register S options who uid username password email =
     bind (mysql_query S options who (register_statement (gs_env S) uid username password email)
             (\<lambda>error. if error = 0 then [Registered uid username password email] else [])) (\<lambda>error.
     ret (error \<noteq> 1062))"

definition execute_update :: "gate_services \<Rightarrow> gate_options \<Rightarrow> nat \<Rightarrow> int \<Rightarrow> string \<Rightarrow> (gate_world, unit) prog" where
  "execute_update S options who uid password =
     mysql_query S options who
       (\<lambda>users infos. ((), update_where (\<lambda>r. ac_uid r = uid) (\<lambda>r. r\<lparr>ac_password := password\<rparr>) users))
       (\<lambda>_. [Updated uid password])"

section \<open>State and mail\<close>

record picked_node =
  pn_host :: string
  pn_port :: int
  pn_id :: string

definition execute_pick :: "gate_services \<Rightarrow> int \<Rightarrow> (gate_world, picked_node) prog" where
  "execute_pick S uid =
     bind gate_running (\<lambda>_.
     gate_await (\<lambda>n. case gs_state S n uid of
       Inl m \<Rightarrow> Inl (RuntimeError (''State RPC failed: '' @ m))
     | Inr None \<Rightarrow> Inl (RuntimeError ''State RPC returned no gateway'')
     | Inr (Some message) \<Rightarrow>
         if cu_ip message = '''' \<or> cu_port message \<le> 0 \<or> cu_port message > 65535
         then Inl (RuntimeError ''State RPC returned no gateway'')
         else Inr \<lparr>pn_host = cu_ip message, pn_port = cu_port message, pn_id = cu_node_id message\<rparr>))"

definition smtp_config :: "gate_options \<Rightarrow> smtp_options" where
  "smtp_config options =
     \<lparr>sp_implicit_tls = go_implicit_tls options, sp_user = go_smtp_user options, sp_password = go_smtp_password options\<rparr>"

definition smtp_exchange ::
  "gate_services \<Rightarrow> gate_options \<Rightarrow> nat \<Rightarrow> verification_mail \<Rightarrow> (gate_world, unit) prog" where
  "smtp_exchange S options who mail w =
     (let peer = gs_smtp S (gw_tick w);
          (result, c) = smtp_send (gs_base64 S) peer (smtp_config options) mail (new_smtp peer);
          w1 = w\<lparr>gw_tick := Suc (gw_tick w),
                 gw_log := gw_log w @ (if sk_accepted c then [(who, Mailed (ma_recipient mail) (ma_code mail))] else [])\<rparr> in
      case result of
        Inl e \<Rightarrow> (case smtp_close peer (smtp_abort c) of (Inl e', _) \<Rightarrow> (Inl e', w1) | (Inr _, _) \<Rightarrow> (Inl e, w1))
      | Inr _ \<Rightarrow> (case smtp_close peer c of (Inl e', _) \<Rightarrow> (Inl e', w1) | (Inr _, _) \<Rightarrow> (Inr (), w1)))"

definition execute_mail :: "gate_services \<Rightarrow> gate_options \<Rightarrow> nat \<Rightarrow> string \<Rightarrow> string \<Rightarrow> int \<Rightarrow> (gate_world, unit) prog" where
  "execute_mail S options who recipient vcode ttl_seconds =
     bind gate_running (\<lambda>_.
     bind (gate_await (\<lambda>n. gs_resolve S n (go_smtp_host options))) (\<lambda>_.
     bind gate_running (\<lambda>_.
     smtp_exchange S options who \<lparr>ma_recipient = recipient, ma_code = vcode, ma_ttl_seconds = ttl_seconds\<rparr>)))"

section \<open>The queue\<close>

text \<open>The operations of other requests; what they return goes to those requests.\<close>

fun gate_execute :: "gate_services \<Rightarrow> gate_options \<Rightarrow> nat \<times> io_operation \<Rightarrow> gate_world \<Rightarrow> gate_world" where
  "gate_execute S options (who, issue_verification_code email vcode ttl cooldown) w =
     snd (execute_issue S options who email vcode ttl cooldown w)"
| "gate_execute S options (who, get_verification_code email) w = snd (execute_get S options who email w)"
| "gate_execute S options (who, clear_verification_code email vcode) w = snd (execute_clear S options who email vcode w)"
| "gate_execute S options (who, send_verification_email email vcode ttl) w = snd (execute_mail S options who email vcode ttl w)"
| "gate_execute S options (who, find_user username) w = snd (execute_find_user S options who username w)"
| "gate_execute S options (who, has_user_info uid) w = snd (execute_has_user_info S options who uid w)"
| "gate_execute S options (who, pick_gateway uid) w = snd (execute_pick S uid w)"
| "gate_execute S options (who, set_chat_token uid token ttl) w = snd (execute_set_token S options who uid token ttl w)"
| "gate_execute S options (who, consume_verification_code email vcode attempts) w =
     snd (execute_consume S options who email vcode attempts w)"
| "gate_execute S options (who, generate_user_id machine) w = snd (execute_generate S options who machine w)"
| "gate_execute S options (who, user_exists username email) w = snd (execute_user_exists S options who username email w)"
| "gate_execute S options (who, register_user uid username password email) w =
     snd (execute_register S options who uid username password email w)"
| "gate_execute S options (who, update_password uid password) w = snd (execute_update S options who uid password w)"

definition gate_pass :: "nat \<Rightarrow> gate_world \<Rightarrow> gate_world" where
  "gate_pass elapsed w = w\<lparr>gw_now := gw_now w + int elapsed\<rparr>"

definition gate_enter :: "gate_services \<Rightarrow> gate_options \<Rightarrow> gate_slot \<Rightarrow> gate_world \<Rightarrow> gate_world" where
  "gate_enter S options s w =
     (let w1 = gate_pass (gl_elapsed s)
                 (fold (\<lambda>(elapsed, operation) w. gate_execute S options operation (gate_pass elapsed w)) (gl_before s) w) in
      w1\<lparr>gw_stopping := gw_stopping w1 \<or> gl_stop s\<rparr>)"

definition gate_submit :: "gate_services \<Rightarrow> gate_options \<Rightarrow> (gate_world, 'a) prog \<Rightarrow> (gate_world, 'a) prog" where
  "gate_submit S options execute w =
     (case gw_slots w of
        [] \<Rightarrow> execute w
      | s # ss \<Rightarrow>
          let w1 = gate_enter S options s (w\<lparr>gw_slots := ss\<rparr>) in
          case gl_admission s of
            Queue_stopped \<Rightarrow> (Inl Stopped, w1)
          | Queue_full \<Rightarrow> (Inl Overloaded, w1)
          | Admitted \<Rightarrow> execute w1)"

end
