(* ===== verification/Gate_Api.thy ===== *)
theory Gate_Api
  imports Error_Codes Message_Driver
begin

text \<open>
  The HTTP interface of the Gate: the messages of \<^verbatim>\<open>gate/proto/gate_api.proto\<close>, the e-mail rules of
  \<^verbatim>\<open>gate/api/email.cc\<close> and the decoding of requests in \<^verbatim>\<open>gate/api/protocol.cc\<close>.  The ProtoJSON codec
  is the parameter \<open>json\<close>.
\<close>

section \<open>Messages\<close>

record verification_request =
  vq_email :: "string option"

record sign_in_request =
  iq_username :: "string option"
  iq_password :: "string option"

record gateway_request =
  gq_uid :: "int option"

record account_request =
  aq_username :: "string option"
  aq_password :: "string option"
  aq_email :: "string option"
  aq_verifycode :: "string option"

type_synonym sign_up_request = account_request
type_synonym reset_password_request = account_request

record verification_response =
  vp_error :: "int option"
  vp_email :: "string option"
  vp_issued :: "bool option"
  vp_verification_code :: "string option"

record sign_in_response =
  ip_error :: "int option"
  ip_init :: "int option"
  ip_uid :: "int option"
  ip_ip :: "string option"
  ip_port :: "int option"
  ip_gateway_id :: "string option"
  ip_chat_token :: "string option"
  ip_chat_token_expires_in :: "int option"

record gateway_response =
  gp_error :: "int option"
  gp_host :: "string option"
  gp_port :: "int option"

record sign_up_response =
  up_error :: "int option"
  up_uid :: "int option"
  up_username :: "string option"
  up_email :: "string option"

record reset_password_response =
  rp_error :: "int option"
  rp_username :: "string option"

datatype api_response =
    Health_response "string option"
  | Verification_response verification_response
  | Sign_in_response sign_in_response
  | Gateway_response gateway_response
  | Sign_up_response sign_up_response
  | Reset_password_response reset_password_response
  | Error_response "int option"

record json =
  json_verification :: "string \<Rightarrow> verification_request option"
  json_sign_in :: "string \<Rightarrow> sign_in_request option"
  json_gateway :: "string \<Rightarrow> gateway_request option"
  json_sign_up :: "string \<Rightarrow> sign_up_request option"
  json_reset_password :: "string \<Rightarrow> reset_password_request option"
  json_encode :: "api_response \<Rightarrow> string + string"

section \<open>E-mail addresses\<close>

definition to_lower :: "char \<Rightarrow> char" where
  "to_lower c = (if 65 \<le> (of_char c :: nat) \<and> (of_char c :: nat) \<le> 90 then char_of ((of_char c :: nat) + 32) else c)"

text \<open>The iterators \<^verbatim>\<open>first\<close> and \<^verbatim>\<open>last\<close> are the lengths of the prefixes they end.\<close>

definition normalize_email :: "string \<Rightarrow> string" where
  "normalize_email email =
     (let first = length (takeWhile is_space email);
          last = length email - length (takeWhile is_space (rev email))
      in if last \<le> first then '''' else map to_lower (drop first (take last email)))"

fun find_char :: "char \<Rightarrow> string \<Rightarrow> nat \<Rightarrow> nat option" where
  "find_char c s from =
     (let rest = drop from s in
      if c \<in> set rest then Some (from + length (takeWhile (\<lambda>x. x \<noteq> c) rest)) else None)"

fun rfind_char :: "char \<Rightarrow> string \<Rightarrow> nat option" where
  "rfind_char c s =
     (if c \<in> set s then Some (length s - 1 - length (takeWhile (\<lambda>x. x \<noteq> c) (rev s))) else None)"

definition is_valid_email :: "string \<Rightarrow> bool" where
  "is_valid_email email =
     (if email = '''' \<or> length email > 254 \<or> list_ex (\<lambda>c. c \<in> set [CHR '' '', CHR 0x09, CHR 0x0D, CHR 0x0A, CHR ''{'', CHR ''}'']) email
      then False
      else case find_char (CHR ''@'') email 0 of
        None \<Rightarrow> False
      | Some at \<Rightarrow>
          if at = 0 \<or> rfind_char (CHR ''@'') email \<noteq> Some at \<or> at + 3 > length email then False
          else case find_char (CHR ''.'') email (at + 2) of
            None \<Rightarrow> False
          | Some dot \<Rightarrow> dot + 1 < length email)"

section \<open>Decoding\<close>

definition credentials :: "string \<Rightarrow> string \<Rightarrow> bool" where
  "credentials username password =
     (username \<noteq> '''' \<and> length username \<le> 64 \<and> password \<noteq> '''' \<and> length password \<le> 128)"

text \<open>A field that is not set reads as the empty string.\<close>

definition text_of :: "string option \<Rightarrow> string" where
  "text_of field = (case field of None \<Rightarrow> '''' | Some s \<Rightarrow> s)"

definition validate_verification :: "account_request \<Rightarrow> ErrorCodes + account_request" where
  "validate_verification request =
     (if aq_username request = None \<or> aq_password request = None \<or> aq_email request = None \<or>
         aq_verifycode request = None \<or> \<not> credentials (text_of (aq_username request)) (text_of (aq_password request))
      then Inl JsonParser
      else let request1 = request\<lparr>aq_email := Some (normalize_email (text_of (aq_email request)))\<rparr> in
        if \<not> is_valid_email (text_of (aq_email request1)) then Inl EmailNotMatch
        else if length (text_of (aq_verifycode request1)) \<noteq> 6 \<or> \<not> list_all is_digit (text_of (aq_verifycode request1))
        then Inl VerificationCodeInvalid
        else Inr request1)"

definition decode_verification :: "json \<Rightarrow> string \<Rightarrow> ErrorCodes + verification_request" where
  "decode_verification J body =
     (case json_verification J body of
        None \<Rightarrow> Inl JsonParser
      | Some request \<Rightarrow>
          if vq_email request = None then Inl JsonParser
          else let request1 = request\<lparr>vq_email := Some (normalize_email (text_of (vq_email request)))\<rparr> in
            if is_valid_email (text_of (vq_email request1)) then Inr request1 else Inl EmailNotMatch)"

definition decode_sign_in :: "json \<Rightarrow> string \<Rightarrow> ErrorCodes + sign_in_request" where
  "decode_sign_in J body =
     (case json_sign_in J body of
        None \<Rightarrow> Inl JsonParser
      | Some request \<Rightarrow>
          if iq_username request = None \<or> iq_password request = None \<or>
             \<not> credentials (text_of (iq_username request)) (text_of (iq_password request))
          then Inl JsonParser else Inr request)"

definition decode_gateway :: "json \<Rightarrow> string \<Rightarrow> ErrorCodes + gateway_request" where
  "decode_gateway J body =
     (case json_gateway J body of
        None \<Rightarrow> Inl JsonParser
      | Some request \<Rightarrow>
          (case gq_uid request of
             None \<Rightarrow> Inl JsonParser
           | Some uid \<Rightarrow> if uid > 0 then Inr request else Inl UidInvalid))"

definition decode_sign_up :: "json \<Rightarrow> string \<Rightarrow> ErrorCodes + sign_up_request" where
  "decode_sign_up J body =
     (case json_sign_up J body of None \<Rightarrow> Inl JsonParser | Some request \<Rightarrow> validate_verification request)"

definition decode_reset_password :: "json \<Rightarrow> string \<Rightarrow> ErrorCodes + reset_password_request" where
  "decode_reset_password J body =
     (case json_reset_password J body of None \<Rightarrow> Inl JsonParser | Some request \<Rightarrow> validate_verification request)"

section \<open>Normal forms\<close>

lemma to_lower_idem [simp]: "to_lower (to_lower c) = to_lower c"
proof -
  have "of_char (char_of ((of_char c :: nat) + 32) :: char) = (of_char c :: nat) + 32"
    if "(of_char c :: nat) \<le> 90" using that by simp
  then show ?thesis by (auto simp: to_lower_def)
qed

lemma is_space_lower [simp]: "is_space (to_lower c) = is_space c"
proof -
  have "of_char (char_of ((of_char c :: nat) + 32) :: char) = (of_char c :: nat) + 32"
    if "(of_char c :: nat) \<le> 90" using that by simp
  moreover have "(of_char (CHR '' '') :: nat) = 32" by simp
  moreover have "c = CHR '' '' \<longleftrightarrow> (of_char c :: nat) = 32" for c :: char
    using of_char_eq_iff [of c "CHR '' ''", where ?'a = nat] by simp
  ultimately show ?thesis by (auto simp: to_lower_def is_space_def)
qed

definition normalized :: "string \<Rightarrow> bool" where
  "normalized email =
     (map to_lower email = email \<and> (email \<noteq> [] \<longrightarrow> \<not> is_space (hd email) \<and> \<not> is_space (last email)))"

lemma normalize_eq:
  "normalize_email email = map to_lower (rev (dropWhile is_space (rev (dropWhile is_space email))))"
proof (cases "list_all is_space email")
  case True
  then have "takeWhile is_space email = email" "dropWhile is_space email = []"
    by (simp_all add: list_all_iff takeWhile_eq_all_conv dropWhile_eq_Nil_conv)
  then show ?thesis by (simp only: normalize_email_def Let_def) simp
next
  case False
  obtain pre mid post where split: "email = pre @ mid @ post" "list_all is_space pre" "list_all is_space post"
    "mid \<noteq> []" "\<not> is_space (hd mid)" "\<not> is_space (last mid)"
  proof -
    let ?a = "takeWhile is_space email" and ?b = "dropWhile is_space email"
    let ?c = "rev (takeWhile is_space (rev ?b))" and ?m = "rev (dropWhile is_space (rev ?b))"
    have "?b \<noteq> []" using False by (auto simp: list_all_iff dropWhile_eq_Nil_conv)
    then have hd: "\<not> is_space (hd ?b)" by (rule hd_dropWhile)
    then have ne: "dropWhile is_space (rev ?b) \<noteq> []" using \<open>?b \<noteq> []\<close> by (metis dropWhile_eq_Nil_conv hd_in_set set_rev)
    have b: "?b = ?m @ ?c" by (metis rev_append rev_rev_ident takeWhile_dropWhile_id)
    have "hd ?m = hd ?b" using ne b by (metis Nil_is_rev_conv hd_append2)
    moreover have "\<not> is_space (last ?m)" using hd_dropWhile [OF ne] ne by (simp add: last_rev)
    moreover have "list_all is_space ?a" "list_all is_space ?c" by (auto simp: list_all_iff dest: set_takeWhileD)
    moreover have "email = ?a @ ?m @ ?c" using b by (metis takeWhile_dropWhile_id)
    ultimately show thesis using that [of ?a ?m ?c] ne hd by simp
  qed
  have first: "takeWhile is_space email = pre" "dropWhile is_space email = mid @ post"
    using split by (auto simp: list_all_iff takeWhile_append2 dropWhile_append2 neq_Nil_conv)
  obtain z zs where z: "rev mid = z # zs" "\<not> is_space z"
    using split(4,6) by (cases "rev mid") (auto simp: hd_rev [symmetric])
  have blank: "\<And>x. x \<in> set (rev post) \<Longrightarrow> is_space x" using split(3) by (simp add: list_all_iff)
  have behind: "takeWhile is_space (rev email) = rev post" "dropWhile is_space (rev (mid @ post)) = rev mid"
    using takeWhile_append2 [of "rev post" is_space "rev mid @ rev pre"] dropWhile_append2 [of "rev post" is_space "rev mid"] blank z split(1)
    by simp_all
  show ?thesis using first behind split(1,4) by (simp add: normalize_email_def)
qed

lemma normalize_normalized: "normalized (normalize_email email)"
proof -
  let ?b = "dropWhile is_space email"
  let ?m = "rev (dropWhile is_space (rev ?b))"
  have "\<not> is_space (hd ?m) \<and> \<not> is_space (last ?m)" if "?m \<noteq> []"
  proof
    have ne: "dropWhile is_space (rev ?b) \<noteq> []" using that by simp
    show "\<not> is_space (last ?m)" using hd_dropWhile [OF ne] ne by (simp add: last_rev)
    have "?b = ?m @ rev (takeWhile is_space (rev ?b))" by (metis rev_append rev_rev_ident takeWhile_dropWhile_id)
    then have "hd ?m = hd ?b" using that by (metis hd_append2)
    moreover have "?b \<noteq> []" using ne by (metis dropWhile.simps(1) rev.simps(1))
    ultimately show "\<not> is_space (hd ?m)" using hd_dropWhile [of is_space email] by metis
  qed
  then show ?thesis by (auto simp: normalized_def normalize_eq hd_map last_map comp_def)
qed

lemma normalize_id: "normalized email \<Longrightarrow> normalize_email email = email"
proof -
  assume n: "normalized email"
  show ?thesis
  proof (cases email)
    case (Cons c cs)
    with n have "dropWhile is_space email = email" "rev email \<noteq> []" "\<not> is_space (hd (rev email))"
      by (simp_all add: normalized_def hd_rev del: rev.simps last.simps)
    then have "dropWhile is_space (rev email) = rev email" by (cases "rev email") auto
    with \<open>dropWhile is_space email = email\<close> n show ?thesis by (simp add: normalize_eq normalized_def)
  qed (simp add: normalize_eq)
qed

end
