(* ===== verification/Gate_Service.thy ===== *)
theory Gate_Service
  imports Gate_Driver Gate_Api
begin

text \<open>
  The transactions of the Gate (\<^verbatim>\<open>gate/transaction/handlers.cc\<close>, \<^verbatim>\<open>service.cc\<close>) and the dispatch of HTTP requests
  (\<^verbatim>\<open>gate/api/protocol.cc\<close>).
\<close>

section \<open>Randomness\<close>

text \<open>\<^verbatim>\<open>getrandom\<close> may return fewer bytes than asked for, be interrupted, or fail.\<close>

fun random_bytes_from :: "nat \<Rightarrow> string \<Rightarrow> entropy list \<Rightarrow> (exn + string) \<times> entropy list" where
  "random_bytes_from 0 data source = (Inr data, source)"
| "random_bytes_from (Suc n) data [] = (Inl (RuntimeError ''authentication entropy unavailable''), [])"
| "random_bytes_from (Suc n) data (Interrupted # source) = random_bytes_from (Suc n) data source"
| "random_bytes_from (Suc n) data (No_entropy m # source) = (Inl (RuntimeError m), source)"
| "random_bytes_from (Suc n) data (Random bytes # source) =
     (let count = min (length bytes) (Suc n) in random_bytes_from (Suc n - count) (data @ take count bytes) source)"

definition random_bytes :: "nat \<Rightarrow> (gate_world, string) prog" where
  "random_bytes n w =
     (case random_bytes_from n '''' (gw_entropy w) of (r, source) \<Rightarrow> (r, w\<lparr>gw_entropy := source\<rparr>))"

definition verification_code :: "gate_services \<Rightarrow> (gate_world, string) prog" where
  "verification_code S =
     bind (gate_await (gs_uniform S)) (\<lambda>number.
     let digits = to_string (int number) in ret (replicate (6 - length digits) (CHR ''0'') @ digits))"

definition hex_digit :: "nat \<Rightarrow> char" where
  "hex_digit n = ''0123456789abcdef'' ! n"

definition chat_token :: "(gate_world, string) prog" where
  "chat_token =
     bind (random_bytes 32) (\<lambda>data.
     ret (concat (map (\<lambda>byte. [hex_digit (of_char byte div 16), hex_digit (of_char byte mod 16)]) data)))"

section \<open>Handlers\<close>

definition empty_verification :: verification_response where
  "empty_verification = \<lparr>vp_error = None, vp_email = None, vp_issued = None, vp_verification_code = None\<rparr>"

definition empty_sign_in :: sign_in_response where
  "empty_sign_in = \<lparr>ip_error = None, ip_init = None, ip_uid = None, ip_ip = None, ip_port = None, ip_gateway_id = None,
     ip_chat_token = None, ip_chat_token_expires_in = None\<rparr>"

definition empty_sign_up :: sign_up_response where
  "empty_sign_up = \<lparr>up_error = None, up_uid = None, up_username = None, up_email = None\<rparr>"

definition handle_verification ::
  "gate_services \<Rightarrow> gate_options \<Rightarrow> nat \<Rightarrow> verification_request \<Rightarrow> (gate_world, verification_response) prog" where
  "handle_verification S options who request =
     (if \<not> go_email_enabled options \<and> \<not> go_expose_code options
      then ret (empty_verification\<lparr>vp_error := Some (code DependencyUnavailable)\<rparr>)
      else
        let email = text_of (vq_email request) in
        bind (verification_code S) (\<lambda>vcode.
        bind (gate_submit S options (execute_issue S options who email vcode (go_code_ttl_seconds options)
                (go_cooldown_seconds options))) (\<lambda>issued.
        bind (if issued \<and> go_email_enabled options
              then catch (gate_submit S options (execute_mail S options who email vcode (go_code_ttl_seconds options)))
                     (\<lambda>failure. bind (catch (gate_submit S options (execute_clear S options who email vcode)) (\<lambda>_. ret False))
                        (\<lambda>_. raise failure))
              else ret ()) (\<lambda>_.
        bind (if \<not> issued \<and> go_expose_code options then gate_submit S options (execute_get S options who email)
              else ret vcode) (\<lambda>vcode.
        ret (empty_verification\<lparr>vp_error := Some 0, vp_email := Some email, vp_issued := Some issued,
               vp_verification_code := (if go_expose_code options then Some vcode else None)\<rparr>))))))"

definition handle_sign_in ::
  "gate_services \<Rightarrow> gate_options \<Rightarrow> nat \<Rightarrow> sign_in_request \<Rightarrow> (gate_world, sign_in_response) prog" where
  "handle_sign_in S options who request =
     bind (gate_submit S options (execute_find_user S options who (text_of (iq_username request)))) (\<lambda>account.
     case account of
       None \<Rightarrow> ret (empty_sign_in\<lparr>ip_error := Some (- 1)\<rparr>)
     | Some row \<Rightarrow>
         if ac_password row \<noteq> text_of (iq_password request) then ret (empty_sign_in\<lparr>ip_error := Some (- 1)\<rparr>)
         else
           bind (gate_submit S options (execute_pick S (ac_uid row))) (\<lambda>node.
           bind (gate_submit S options (execute_has_user_info S options who (ac_uid row))) (\<lambda>initialized.
           bind chat_token (\<lambda>token.
           bind (gate_submit S options (execute_set_token S options who (ac_uid row) token (15 * 60))) (\<lambda>_.
           ret \<lparr>ip_error = Some 0, ip_init = Some (if initialized then 0 else 1), ip_uid = Some (ac_uid row),
                ip_ip = Some (pn_host node), ip_port = Some (pn_port node), ip_gateway_id = Some (pn_id node),
                ip_chat_token = Some token, ip_chat_token_expires_in = Some (15 * 60)\<rparr>)))))"

definition handle_gateway ::
  "gate_services \<Rightarrow> gate_options \<Rightarrow> gateway_request \<Rightarrow> (gate_world, gateway_response) prog" where
  "handle_gateway S options request =
     bind (gate_submit S options (execute_pick S (case gq_uid request of None \<Rightarrow> 0 | Some uid \<Rightarrow> uid))) (\<lambda>node.
     ret \<lparr>gp_error = Some 0, gp_host = Some (pn_host node), gp_port = Some (pn_port node)\<rparr>)"

definition handle_sign_up ::
  "gate_services \<Rightarrow> gate_options \<Rightarrow> nat \<Rightarrow> sign_up_request \<Rightarrow> (gate_world, sign_up_response) prog" where
  "handle_sign_up S options who request =
     (let username = text_of (aq_username request); password = text_of (aq_password request);
          email = text_of (aq_email request) in
      bind (gate_submit S options (execute_user_exists S options who username email)) (\<lambda>taken.
      if taken then ret (empty_sign_up\<lparr>up_error := Some (code UserExist)\<rparr>)
      else
        bind (gate_submit S options (execute_consume S options who email (text_of (aq_verifycode request))
                (go_max_attempts options))) (\<lambda>consumed.
        if \<not> consumed then ret (empty_sign_up\<lparr>up_error := Some (code VerificationCodeInvalid)\<rparr>)
        else
          bind (gate_submit S options (execute_generate S options who (go_machine_id options))) (\<lambda>uid.
          bind (gate_submit S options (execute_register S options who uid username password email)) (\<lambda>stored.
          if \<not> stored then ret (empty_sign_up\<lparr>up_error := Some (code UserExist)\<rparr>)
          else ret \<lparr>up_error = Some 0, up_uid = Some uid, up_username = Some username, up_email = Some email\<rparr>)))))"

definition handle_reset_password ::
  "gate_services \<Rightarrow> gate_options \<Rightarrow> nat \<Rightarrow> reset_password_request \<Rightarrow> (gate_world, reset_password_response) prog" where
  "handle_reset_password S options who request =
     (let username = text_of (aq_username request); email = text_of (aq_email request) in
      bind (gate_submit S options (execute_find_user S options who username)) (\<lambda>account.
      case account of
        None \<Rightarrow> ret \<lparr>rp_error = Some (code NotFound), rp_username = None\<rparr>
      | Some row \<Rightarrow>
          if ac_email row \<noteq> email then ret \<lparr>rp_error = Some (code EmailNotMatch), rp_username = None\<rparr>
          else
            bind (gate_submit S options (execute_consume S options who email (text_of (aq_verifycode request))
                    (go_max_attempts options))) (\<lambda>consumed.
            if \<not> consumed then ret \<lparr>rp_error = Some (code VerificationCodeInvalid), rp_username = None\<rparr>
            else
              bind (gate_submit S options (execute_update S options who (ac_uid row) (text_of (aq_password request)))) (\<lambda>_.
              ret \<lparr>rp_error = Some 0, rp_username = Some username\<rparr>))))"

section \<open>Dispatch\<close>

record http_result =
  ht_status :: int
  ht_body :: string

datatype gate_route = GET_test | POST_verifycode | POST_signIn | POST_arrhythmia | POST_signUp | POST_forget_password

definition routes :: "(string \<times> string \<times> gate_route) list" where
  "routes =
     [(''GET'', ''/test'', GET_test), (''POST'', ''/post-verifycode'', POST_verifycode), (''POST'', ''/post-signIn'', POST_signIn),
      (''POST'', ''/post-arrhythmia'', POST_arrhythmia), (''POST'', ''/post-signUp'', POST_signUp),
      (''POST'', ''/post-forget-password'', POST_forget_password)]"

definition encode :: "json \<Rightarrow> api_response \<Rightarrow> (gate_world, string) prog" where
  "encode J response =
     (case json_encode J response of
        Inl m \<Rightarrow> raise (RuntimeError (''API response encoding failed: '' @ m))
      | Inr body \<Rightarrow> ret body)"

definition error_result :: "json \<Rightarrow> int \<Rightarrow> ErrorCodes \<Rightarrow> (gate_world, http_result) prog" where
  "error_result J status error =
     bind (encode J (Error_response (Some (code error)))) (\<lambda>body. ret \<lparr>ht_status = status, ht_body = body\<rparr>)"

definition health :: "json \<Rightarrow> (gate_world, http_result) prog" where
  "health J = bind (encode J (Health_response (Some ''[TEST]''))) (\<lambda>body. ret \<lparr>ht_status = 200, ht_body = body\<rparr>)"

definition admit :: "int \<Rightarrow> (gate_world, capacity_units) prog" where
  "admit bytes w =
     (if gw_stopping w then (Inl Stopped, w)
      else case acquire bytes (gw_requests w) of
        (Inl e, b) \<Rightarrow> (Inl e, w)
      | (Inr units, b) \<Rightarrow> (Inr units, w\<lparr>gw_requests := b\<rparr>))"

text \<open>The permit is a local of the coroutine: it is returned however the request ends.\<close>

definition with_permit :: "int \<Rightarrow> (gate_world, 'a) prog \<Rightarrow> (gate_world, 'a) prog" where
  "with_permit bytes body =
     bind (admit bytes) (\<lambda>units w.
       case body w of (r, w1) \<Rightarrow> (r, w1\<lparr>gw_requests := release units (gw_requests w1)\<rparr>))"

definition invoke ::
  "json \<Rightarrow> (string \<Rightarrow> ErrorCodes + 'request) \<Rightarrow> ('request \<Rightarrow> (gate_world, 'response) prog) \<Rightarrow> ('response \<Rightarrow> api_response) \<Rightarrow>
    string \<Rightarrow> (gate_world, http_result) prog" where
  "invoke J decode handle wrap body =
     with_permit (int (length body))
       (case decode body of
          Inl e \<Rightarrow> error_result J 200 e
        | Inr request \<Rightarrow>
            bind (handle request) (\<lambda>response.
            bind (encode J (wrap response)) (\<lambda>encoded.
            ret \<lparr>ht_status = 200, ht_body = encoded\<rparr>)))"

fun route_handler ::
  "gate_services \<Rightarrow> gate_options \<Rightarrow> json \<Rightarrow> nat \<Rightarrow> gate_route \<Rightarrow> string \<Rightarrow> (gate_world, http_result) prog" where
  "route_handler S options J who GET_test body = health J"
| "route_handler S options J who POST_verifycode body =
     invoke J (decode_verification J) (handle_verification S options who) Verification_response body"
| "route_handler S options J who POST_signIn body =
     invoke J (decode_sign_in J) (handle_sign_in S options who) Sign_in_response body"
| "route_handler S options J who POST_arrhythmia body =
     invoke J (decode_gateway J) (handle_gateway S options) Gateway_response body"
| "route_handler S options J who POST_signUp body =
     invoke J (decode_sign_up J) (handle_sign_up S options who) Sign_up_response body"
| "route_handler S options J who POST_forget_password body =
     invoke J (decode_reset_password J) (handle_reset_password S options who) Reset_password_response body"

definition gate_dispatch ::
  "gate_services \<Rightarrow> gate_options \<Rightarrow> json \<Rightarrow> nat \<Rightarrow> gate_route \<Rightarrow> string \<Rightarrow> (gate_world, http_result) prog" where
  "gate_dispatch S options J who route body =
     catch (route_handler S options J who route body) (\<lambda>e.
       case e of
         Overloaded \<Rightarrow> error_result J 503 ResourceExhausted
       | Stopped \<Rightarrow> error_result J 503 DependencyUnavailable
       | _ \<Rightarrow> error_result J 200 DependencyUnavailable)"

definition gate_stop :: "gate_world \<Rightarrow> gate_world" where
  "gate_stop w = w\<lparr>gw_stopping := True\<rparr>"

end
