(* ===== verification/Gate_Relation.thy ===== *)
theory Gate_Relation
  imports Gate_Service
begin

text \<open>
  What the operations of the Gate may change.  The locale \<open>gate_steps\<close> carries a relation from the commands of the servers to
  the operations of the driver, \<open>gate_free\<close> covers operations that may change the servers at will, and \<open>gate_relation\<close>
  carries a relation from the operations to the handlers.
\<close>

section \<open>What an operation may change\<close>

definition gate_quiet :: "gate_world \<Rightarrow> gate_world \<Rightarrow> bool" where
  "gate_quiet w w' =
     (gw_users w' = gw_users w \<and> gw_userInfo w' = gw_userInfo w \<and> gw_redis w' = gw_redis w \<and> gw_now w' = gw_now w \<and>
      gw_slots w' = gw_slots w \<and> gw_requests w' = gw_requests w \<and> gw_log w' = gw_log w)"

interpretation gquiet: step_relation gate_quiet
  by unfold_locales (auto simp: gate_quiet_def)

lemma gate_quiet_basic [intro]:
  "within gate_quiet (gate_await f)" "within gate_quiet gate_running" "within gate_quiet (check_reply b)"
  "within gate_quiet (sentinel_call S ip port arguments)"
  by (auto simp: within_def gate_quiet_def gate_await_def gate_running_def check_reply_def sentinel_call_def ret_def raise_def)

lemma gate_quiet_stop [intro]: "within gate_quiet (\<lambda>w. (r, w\<lparr>gw_stopping := b\<rparr>))"
  by (auto simp: within_def gate_quiet_def)

lemma gate_quiet_random [intro]: "within gate_quiet (random_bytes n)" "within gate_quiet chat_token"
  "within gate_quiet (verification_code S)"
proof -
  show bytes: "within gate_quiet (random_bytes n)" for n
    by (auto simp: within_def gate_quiet_def random_bytes_def split: prod.splits)
  show "within gate_quiet chat_token" unfolding chat_token_def by (intro gquiet.within_intros bytes)
  show "within gate_quiet (verification_code S)" unfolding verification_code_def Let_def by (intro gquiet.within_intros gate_quiet_basic)
qed

lemma gate_quiet_sentinel [intro]: "within gate_quiet (gate_sentinel S options address)"
  unfolding gate_sentinel_def by (intro gquiet.within_intros gate_quiet_basic) (auto split: sum.splits)

lemma gate_quiet_discover [intro]: "within gate_quiet (discover_master S options addresses failure)"
  by (induction addresses arbitrary: failure) auto

lemma gate_quiet_pick [intro]: "within gate_quiet (execute_pick S uid)"
  unfolding execute_pick_def by (intro gquiet.within_intros gate_quiet_basic)

lemma gate_fault_quiet: "gate_fault w = (flt, w1) \<Longrightarrow> gate_quiet w w1"
  by (auto simp: gate_fault_def gate_quiet_def split: list.splits)

text \<open>
  A relation that the servers' commands respect is respected by the operations of the driver,
  which add only connections and checks.
\<close>

locale gate_steps = step_relation R for R :: "gate_world \<Rightarrow> gate_world \<Rightarrow> bool" +
  assumes quiet_step: "gate_quiet w w' \<Longrightarrow> R w w'"
begin

lemma within_quiet: "within gate_quiet p \<Longrightarrow> within R p"
  using quiet_step unfolding within_def by blast

lemma within_basic:
  "within R (gate_await f)" "within R gate_running" "within R (check_reply b)" "within R (sentinel_call S ip port arguments)"
  "within R (discover_master S options addresses failure)" "within R (execute_pick S uid)" "within R chat_token"
  "within R (verification_code S)" "within R (\<lambda>w. (r, w\<lparr>gw_stopping := b\<rparr>))"
  by (auto intro: within_quiet)

lemma within_redis: "within R (redis_execute who command events) \<Longrightarrow> within R (gate_redis S options who command events)"
  unfolding gate_redis_def by (intro within_intros within_basic)

lemma within_mysql: "within R (mysql_execute who statement events) \<Longrightarrow> within R (mysql_query S options who statement events)"
  unfolding mysql_query_def by (intro within_intros within_basic)

lemma redis_execute_within:
  assumes "\<And>w r db. command (gw_now w) (gw_redis w) = (r, db) \<Longrightarrow>
      R w (w\<lparr>gw_redis := db, gw_log := gw_log w @ (case r of Inl _ \<Rightarrow> [] | Inr reply \<Rightarrow> map (Pair who) (events reply))\<rparr>)"
  shows "within R (redis_execute who command events)"
  unfolding within_def
proof (intro allI impI)
  fix w r w' assume run: "redis_execute who command events w = (r, w')"
  obtain flt w1 where flt: "gate_fault w = (flt, w1)" by fastforce
  obtain r1 db where cmd: "command (gw_now w1) (gw_redis w1) = (r1, db)" by fastforce
  have "w' = w1 \<or> w' = w1\<lparr>gw_redis := db, gw_log := gw_log w1 @ (case r1 of Inl _ \<Rightarrow> [] | Inr reply \<Rightarrow> map (Pair who) (events reply))\<rparr>"
    using run flt cmd by (cases r1) (auto simp: redis_execute_def Let_def split: fault.splits)
  then show "R w w'"
    using step_trans [OF quiet_step [OF gate_fault_quiet [OF flt]] assms [OF cmd]] quiet_step [OF gate_fault_quiet [OF flt]] by auto
qed

lemma mysql_execute_within:
  assumes "\<And>w a users. statement (gw_users w) (gw_userInfo w) = (a, users) \<Longrightarrow>
      R w (w\<lparr>gw_users := users, gw_log := gw_log w @ map (Pair who) (events a)\<rparr>)"
  shows "within R (mysql_execute who statement events)"
  unfolding within_def
proof (intro allI impI)
  fix w r w' assume run: "mysql_execute who statement events w = (r, w')"
  obtain flt w1 where flt: "gate_fault w = (flt, w1)" by fastforce
  obtain a users where st: "statement (gw_users w1) (gw_userInfo w1) = (a, users)" by fastforce
  have "w' = w1 \<or> w' = w1\<lparr>gw_users := users, gw_log := gw_log w1 @ map (Pair who) (events a)\<rparr>"
    using run flt st by (auto simp: mysql_execute_def Let_def split: fault.splits)
  then show "R w w'"
    using step_trans [OF quiet_step [OF gate_fault_quiet [OF flt]] assms [OF st]] quiet_step [OF gate_fault_quiet [OF flt]] by auto
qed

lemma within_generate:
  assumes "\<And>timestamp. within R (redis_execute who (answering integer_reply (\<lambda>now. redis_incr now (user_id_key timestamp))) (\<lambda>_. []))"
  shows "within R (execute_generate S options who machine)"
proof -
  have turn: "within R p \<Longrightarrow> within R (user_id_turn S options who machine p)" for p
    unfolding user_id_turn_def by (intro within_intros within_basic within_redis assms)
  have "within R (user_id_loop S options who machine n)" for n
    by (induction n) (auto intro!: turn within_basic)
  then have "within R (bind gate_running (\<lambda>_. user_id_loop S options who machine n))" for n
    by (intro within_bind within_basic)
  then show ?thesis by (auto simp: within_snd execute_generate_def)
qed

lemma within_mail:
  assumes "\<And>w recipient vcode. R w (w\<lparr>gw_log := gw_log w @ [(who, Mailed recipient vcode)]\<rparr>)"
  shows "within R (execute_mail S options who recipient vcode ttl)"
proof -
  have "within R (smtp_exchange S options who mail)" for mail
    unfolding within_def
  proof (intro allI impI)
    fix w r w' assume run: "smtp_exchange S options who mail w = (r, w')"
    let ?w = "w\<lparr>gw_tick := Suc (gw_tick w)\<rparr>"
    have q: "R w ?w" by (rule quiet_step) (simp add: gate_quiet_def)
    have "w' = ?w \<or> w' = ?w\<lparr>gw_log := gw_log ?w @ [(who, Mailed (ma_recipient mail) (ma_code mail))]\<rparr>"
      using run by (auto simp: smtp_exchange_def Let_def split: prod.splits sum.splits if_splits)
    then show "R w w'" using q step_trans [OF q assms] by auto
  qed
  then show ?thesis unfolding execute_mail_def by (intro within_intros within_basic)
qed

end

text \<open>A relation that allows request \<open>u\<close> any change of the servers is respected by all its operations.\<close>

locale gate_free = gate_steps R for R :: "gate_world \<Rightarrow> gate_world \<Rightarrow> bool" +
  fixes u :: nat
  assumes free_step: "R w (w\<lparr>gw_redis := db, gw_users := users, gw_log := gw_log w @ map (Pair u) events\<rparr>)"
begin

lemma free_redis: "within R (redis_execute u command events)"
proof (rule redis_execute_within)
  fix w :: gate_world and r db
  have "R w (w\<lparr>gw_redis := db, gw_users := gw_users w, gw_log := gw_log w @
      map (Pair u) (case r of Inl _ \<Rightarrow> [] | Inr reply \<Rightarrow> events reply)\<rparr>)" by (rule free_step)
  then show "R w (w\<lparr>gw_redis := db, gw_log := gw_log w @ (case r of Inl _ \<Rightarrow> [] | Inr reply \<Rightarrow> map (Pair u) (events reply))\<rparr>)"
    by (cases r) simp_all
qed

lemma free_mysql: "within R (mysql_execute u statement events)"
proof (rule mysql_execute_within)
  fix w :: gate_world and a users
  from free_step [where w = w and db = "gw_redis w" and users = users and events = "events a"]
  show "R w (w\<lparr>gw_users := users, gw_log := gw_log w @ map (Pair u) (events a)\<rparr>)" by simp
qed

lemma free_mail: "within R (execute_mail S options u recipient vcode ttl)"
proof (rule within_mail)
  fix w :: gate_world and recipient vcode
  from free_step [where w = w and db = "gw_redis w" and users = "gw_users w" and events = "[Mailed recipient vcode]"]
  show "R w (w\<lparr>gw_log := gw_log w @ [(u, Mailed recipient vcode)]\<rparr>)" by simp
qed

lemma free_operations:
  "within R (execute_issue S options u email vcode ttl cooldown)" "within R (execute_get S options u email)"
  "within R (execute_clear S options u email vcode)" "within R (execute_consume S options u email vcode attempts)"
  "within R (execute_set_token S options u uid token ttl)" "within R (execute_find_user S options u username)"
  "within R (execute_has_user_info S options u uid)" "within R (execute_user_exists S options u username email)"
  "within R (execute_register S options u uid username password email)" "within R (execute_update S options u uid password)"
  "within R (execute_generate S options u machine)"
  unfolding execute_issue_def execute_get_def execute_clear_def execute_consume_def execute_set_token_def execute_find_user_def
    execute_has_user_info_def execute_user_exists_def execute_register_def execute_update_def
  by (intro within_intros within_basic within_redis within_mysql free_redis free_mysql within_generate; auto split: option.splits)+

lemma free_execute: "R w (gate_execute S options (u, operation) w)"
  using within_basic(6) [of S]
  by (cases operation) (simp_all add: within_snd [THEN iffD1, rule_format] free_operations free_mail)

end

text \<open>
  The requests: a relation that allows the operations of the handlers and the slots of the
  schedule is respected by every handler.
\<close>

locale gate_relation = gate_steps R for R :: "gate_world \<Rightarrow> gate_world \<Rightarrow> bool" +
  fixes S :: gate_services and options :: gate_options and good :: "io_operation \<Rightarrow> bool"
  assumes operation_step: "good operation \<Longrightarrow> R w (gate_execute S options (who, operation) w)"
    and enter_step: "gw_slots w = s # ss \<Longrightarrow> R w (gate_enter S options s (w\<lparr>gw_slots := ss\<rparr>))"
    and good_issue: "good (issue_verification_code email vcode (go_code_ttl_seconds options) (go_cooldown_seconds options))"
    and good_consume: "good (consume_verification_code email vcode (go_max_attempts options))"
    and good_others: "good (get_verification_code email)" "good (clear_verification_code email vcode)"
      "good (send_verification_email email vcode ttl)" "good (find_user username)" "good (has_user_info uid)"
      "good (set_chat_token uid token ttl)" "good (generate_user_id machine)" "good (user_exists username email)"
      "good (register_user uid username password email)" "good (update_password uid password)"
begin

lemma within_operations:
  "within R (execute_issue S options who email vcode (go_code_ttl_seconds options) (go_cooldown_seconds options))"
  "within R (execute_consume S options who email vcode (go_max_attempts options))"
  "within R (execute_get S options who email)" "within R (execute_clear S options who email vcode)"
  "within R (execute_mail S options who email vcode ttl)" "within R (execute_find_user S options who username)"
  "within R (execute_has_user_info S options who uid)" "within R (execute_set_token S options who uid token ttl)"
  "within R (execute_generate S options who machine)" "within R (execute_user_exists S options who username email)"
  "within R (execute_register S options who uid username password email)" "within R (execute_update S options who uid password)"
  using operation_step [OF good_issue] operation_step [OF good_consume] operation_step [OF good_others(1)]
    operation_step [OF good_others(2)] operation_step [OF good_others(3)] operation_step [OF good_others(4)]
    operation_step [OF good_others(5)] operation_step [OF good_others(6)] operation_step [OF good_others(7)]
    operation_step [OF good_others(8)] operation_step [OF good_others(9)] operation_step [OF good_others(10)]
  by (simp_all add: within_snd)

lemma within_submit:
  assumes "within R p"
  shows "within R (gate_submit S options p)"
  unfolding within_def
proof (intro allI impI)
  fix w r w' assume run: "gate_submit S options p w = (r, w')"
  show "R w w'"
  proof (cases "gw_slots w")
    case Nil
    with run withinD [OF assms] show ?thesis by (simp add: gate_submit_def)
  next
    case (Cons s ss)
    note enter = enter_step [OF Cons]
    show ?thesis
    proof (cases "gl_admission s")
      case Admitted
      with run Cons have "p (gate_enter S options s (w\<lparr>gw_slots := ss\<rparr>)) = (r, w')" by (simp add: gate_submit_def)
      from step_trans [OF enter withinD [OF assms this]] show ?thesis .
    qed (use run Cons enter in \<open>simp_all add: gate_submit_def\<close>)
  qed
qed

lemmas gate_intros = within_intros within_basic within_operations within_submit

lemma handlers_within:
  "within R (handle_verification S options who vq)" "within R (handle_sign_in S options who iq)"
  "within R (handle_gateway S options gq)" "within R (handle_sign_up S options who uq)"
  "within R (handle_reset_password S options who rq)"
proof -
  show "within R (handle_verification S options who vq)"
    unfolding handle_verification_def Let_def by (intro gate_intros)
  show "within R (handle_sign_in S options who iq)"
    unfolding handle_sign_in_def by (intro within_bind gate_intros) (auto intro!: gate_intros split: option.splits)
  show "within R (handle_gateway S options gq)" unfolding handle_gateway_def by (intro gate_intros)
  show "within R (handle_sign_up S options who uq)" unfolding handle_sign_up_def Let_def by (intro gate_intros)
  show "within R (handle_reset_password S options who rq)"
    unfolding handle_reset_password_def Let_def by (intro within_bind gate_intros) (auto intro!: gate_intros split: option.splits)
qed

end

end
