(* ===== verification/Gate_Codes.thy ===== *)
theory Gate_Codes
  imports Gate_Relation
begin

text \<open>
  The verification codes of the Gate.  The history of a run determines which code is open for an address and
  how many guesses were refused since; the invariant ties this to the entries of Redis and
  their expiry, every script keeps it, and with the unique keys of the users it holds in every
  world that requests lead to.
\<close>

section \<open>The codes of an address\<close>

text \<open>
  What the history says of an address: the code issued last that was neither consumed nor
  cleared since, and the number of guesses that were refused since.
\<close>

fun track_event :: "string \<Rightarrow> gate_event \<Rightarrow> (string \<times> nat) option \<Rightarrow> (string \<times> nat) option" where
  "track_event email (Issued e c) st = (if e = email then Some (c, 0) else st)"
| "track_event email (Cleared e c) st = (if e = email then None else st)"
| "track_event email (Consumed e c) st = (if e = email then None else st)"
| "track_event email (Rejected e) st = (if e = email then map_option (\<lambda>(c, n). (c, Suc n)) st else st)"
| "track_event email _ st = st"

definition track :: "string \<Rightarrow> (nat \<times> gate_event) list \<Rightarrow> (string \<times> nat) option" where
  "track email log = fold (track_event email) (map snd log) None"

lemma track_simps [simp]:
  "track email [] = None" "track email (log @ [(who, event)]) = track_event email event (track email log)"
  by (simp_all add: track_def)

definition closes_code :: "string \<Rightarrow> nat \<times> gate_event \<Rightarrow> bool" where
  "closes_code email entry = (\<exists>c. snd entry = Issued email c \<or> snd entry = Cleared email c \<or> snd entry = Consumed email c)"

definition guesses :: "string \<Rightarrow> (nat \<times> gate_event) list \<Rightarrow> nat" where
  "guesses email log = length (filter (\<lambda>entry. snd entry = Rejected email) log)"

lemma track_Some:
  assumes "track email log = Some (c, n)"
  shows "\<exists>before who after. log = before @ (who, Issued email c) # after \<and> (\<forall>entry \<in> set after. \<not> closes_code email entry) \<and>
    guesses email after = n"
  using assms
proof (induction log arbitrary: c n rule: rev_induct)
  case (snoc entry log)
  obtain u event where entry: "entry = (u, event)" by fastforce
  show ?case
  proof (cases "closes_code email entry")
    case True
    then obtain c' where "event = Issued email c' \<or> event = Cleared email c' \<or> event = Consumed email c'"
      by (auto simp: closes_code_def entry)
    with snoc.prems have "event = Issued email c" "n = 0" by (auto simp: entry)
    then have "log @ [entry] = log @ (u, Issued email c) # [] \<and> (\<forall>entry \<in> set []. \<not> closes_code email entry) \<and> guesses email [] = n"
      by (simp add: entry guesses_def)
    then show ?thesis by blast
  next
    case False
    let ?d = "if event = Rejected email then 1 else (0 :: nat)"
    obtain n' where prev: "track email log = Some (c, n')" "n = n' + ?d"
      using snoc.prems False unfolding entry by (cases event) (auto simp: closes_code_def split: if_splits)
    from snoc.IH [OF prev(1)] obtain before who after where
      h: "log = before @ (who, Issued email c) # after" "\<forall>entry \<in> set after. \<not> closes_code email entry" "guesses email after = n'" by blast
    then have "log @ [entry] = before @ (who, Issued email c) # (after @ [entry]) \<and>
        (\<forall>x \<in> set (after @ [entry]). \<not> closes_code email x) \<and> guesses email (after @ [entry]) = n"
      using False prev(2) by (auto simp: guesses_def entry)
    then show ?thesis by blast
  qed
qed simp

text \<open>
  The counter of refused guesses against the remaining life of the code.  It may expire up to a
  second before the code does; then the counting starts once more, and that counter outlives
  the code.
\<close>

definition lasts :: "int \<Rightarrow> redis_entry \<Rightarrow> bool" where
  "lasts t a = (case re_expires a of None \<Rightarrow> True | Some y \<Rightarrow> t \<le> y)"

definition attempts_ok :: "int \<Rightarrow> nat \<Rightarrow> int \<Rightarrow> int \<Rightarrow> redis_entry option \<Rightarrow> bool" where
  "attempts_ok m n x now attempts =
     (case attempts of
        None \<Rightarrow> n = 0 \<or> (int n < m \<and> x - 1000 < now)
      | Some a \<Rightarrow> \<exists>k. 1 \<le> k \<and> k < m \<and> re_value a = to_string k \<and>
          ((int n = k \<and> lasts (x - 999) a) \<or> (int n < k + m \<and> x - 1000 < now \<and> lasts x a)))"

definition code_ok :: "int \<Rightarrow> int \<Rightarrow> redis_db \<Rightarrow> string \<Rightarrow> (string \<times> nat) option \<Rightarrow> bool" where
  "code_ok m now db email st =
     (\<forall>e. live now db (code_key email) = Some e \<longrightarrow>
        (\<exists>n x. st = Some (re_value e, n) \<and> re_expires e = Some x \<and> attempts_ok m n x now (live now db (attempts_key email))))"

definition codes_ok :: "int \<Rightarrow> int \<Rightarrow> redis_db \<Rightarrow> (nat \<times> gate_event) list \<Rightarrow> bool" where
  "codes_ok m now db log = (\<forall>email. code_ok m now db email (track email log))"

lemma live_upd [simp]:
  "live now (db(key := None)) key' = (if key' = key then None else live now db key')"
  "live now (db(key \<mapsto> e)) key' =
     (if key' = key then (if lasts now e then Some e else None) else live now db key')"
  by (auto simp: live_def lasts_def split: option.splits)

lemma live_del [simp]: "live now (\<lambda>key. if P key then None else db key) key' = (if P key' then None else live now db key')"
  by (simp add: live_def)

lemma live_lasts: "live now db key = Some e \<Longrightarrow> lasts now e"
  by (auto simp: live_def lasts_def split: option.splits if_splits)

lemma live_later:
  assumes "live now' db key = Some e" "now \<le> now'"
  shows "live now db key = Some e"
  using assms by (auto simp: live_def split: option.splits if_splits)

lemma live_dies:
  assumes "live now db key = Some e" "live now' db key = None"
  shows "\<exists>y. re_expires e = Some y \<and> y < now'"
  using assms by (auto simp: live_def split: option.splits if_splits)

lemma code_ok_later:
  assumes "code_ok m now db email st" "now \<le> now'"
  shows "code_ok m now' db email st"
  unfolding code_ok_def
proof (intro allI impI)
  fix e assume e: "live now' db (code_key email) = Some e"
  from live_later [OF e assms(2)] assms(1) obtain n x where
    st: "st = Some (re_value e, n)" "re_expires e = Some x" "attempts_ok m n x now (live now db (attempts_key email))"
    by (auto simp: code_ok_def)
  have x: "now' \<le> x" using live_lasts [OF e] st(2) by (simp add: lasts_def)
  have "attempts_ok m n x now' (live now' db (attempts_key email))"
  proof (cases "live now' db (attempts_key email)")
    case (Some a)
    with live_later [OF Some assms(2)] st(3) assms(2) show ?thesis by (auto simp: attempts_ok_def)
  next
    case None
    show ?thesis
    proof (cases "live now db (attempts_key email)")
      case (Some a)
      obtain y where y: "re_expires a = Some y" "y < now'" using live_dies [OF Some None] by blast
      with st(3) Some x have "\<exists>k. 1 \<le> k \<and> k < m \<and> int n = k \<and> x - 999 \<le> y" by (auto simp: attempts_ok_def lasts_def)
      with y None show ?thesis by (auto simp: attempts_ok_def)
    qed (use st(3) None assms(2) in \<open>auto simp: attempts_ok_def\<close>)
  qed
  with st show "\<exists>n x. st = Some (re_value e, n) \<and> re_expires e = Some x \<and> attempts_ok m n x now' (live now' db (attempts_key email))"
    by blast
qed

lemma code_ok_frame:
  assumes "code_ok m now db email st"
    and "live now db' (code_key email) = live now db (code_key email)"
    and "live now db' (attempts_key email) = live now db (attempts_key email)"
  shows "code_ok m now db' email st"
  using assms by (simp add: code_ok_def)

lemma code_ok_none: "live now db (code_key email) = None \<Longrightarrow> code_ok m now db email st"
  by (simp add: code_ok_def)

section \<open>The scripts keep the codes\<close>

lemmas script_defs = bind_def ret_def redis_get_def redis_exists_def redis_setex_def redis_del_def

lemma issue_codes:
  assumes "codes_ok m now db log" "issue_script now email vcode ttl cooldown db = (r, db')" "0 < ttl" "0 < cooldown"
  shows "\<exists>reply. r = Inr reply \<and> (reply = 0 \<or> reply = 1) \<and>
    codes_ok m now db' (log @ (if reply = 1 then [(who, Issued email vcode)] else []))"
proof (cases "live now db (cooldown_key email)")
  case (Some e)
  with assms show ?thesis by (auto simp: issue_script_def script_defs)
next
  case None
  let ?e = "\<lparr>re_value = vcode, re_expires = Some (now + 1000 * ttl)\<rparr>"
  have r: "r = Inr 1" and live': "\<And>key. live now db' key =
      (if key = attempts_key email then None
       else if key = cooldown_key email then Some \<lparr>re_value = ''1'', re_expires = Some (now + 1000 * cooldown)\<rparr>
       else if key = code_key email then Some ?e else live now db key)"
    using assms None by (auto simp: issue_script_def script_defs lasts_def)
  have "code_ok m now db' e (track e (log @ [(who, Issued email vcode)]))" for e
  proof (cases "e = email")
    case True
    then show ?thesis by (simp add: code_ok_def live' attempts_ok_def)
  next
    case False
    have "code_ok m now db e (track e log)" using assms(1) by (simp add: codes_ok_def)
    from code_ok_frame [OF this, of db'] False show ?thesis by (simp add: live')
  qed
  with r show ?thesis by (simp add: codes_ok_def)
qed

lemma clear_codes:
  assumes "codes_ok m now db log" "clear_script now email vcode db = (r, db')"
  shows "\<exists>reply. r = Inr reply \<and> codes_ok m now db' (log @ (if reply = 1 then [(who, Cleared email vcode)] else []))"
proof (cases "map_option re_value (live now db (code_key email)) = Some vcode")
  case True
  have r: "r = Inr 1" and db': "db' = (\<lambda>key. if key \<in> set [code_key email, attempts_key email, cooldown_key email] then None else db key)"
    using assms(2) True by (auto simp: clear_script_def script_defs)
  have "code_ok m now db' e (track e (log @ [(who, Cleared email vcode)]))" for e
  proof (cases "e = email")
    case True
    then show ?thesis by (intro code_ok_none) (simp add: db')
  next
    case False
    have "code_ok m now db e (track e log)" using assms(1) by (simp add: codes_ok_def)
    from code_ok_frame [OF this, of db'] False show ?thesis by (simp add: db')
  qed
  with r show ?thesis by (simp add: codes_ok_def)
qed (use assms in \<open>auto simp: clear_script_def script_defs\<close>)

text \<open>A refused guess advances the counter, and the counter removes the code at its limit.\<close>

lemma count_guess:
  assumes "attempts_ok m n x now (live now db key)" "m < 2 ^ 31" "now \<le> x"
  obtains k a where "redis_incr now key db = (Inr k, db(key \<mapsto> a))" "re_value a = to_string k" "lasts now a" "1 \<le> k"
    "(k = 1 \<and> re_expires a = None \<and> (n = 0 \<or> (int n < m \<and> x - 1000 < now))) \<or>
     (k \<noteq> 1 \<and> ((int (Suc n) = k \<and> lasts (x - 999) a) \<or> (int (Suc n) < k + m \<and> x - 1000 < now \<and> lasts x a)))"
proof (cases "live now db key")
  case None
  let ?a = "\<lparr>re_value = to_string 1, re_expires = None\<rparr>"
  show thesis using None assms(1) by (intro that [of 1 ?a]) (auto simp: redis_incr_def lasts_def attempts_ok_def)
next
  case (Some a)
  then obtain k where k: "1 \<le> k" "k < m" "re_value a = to_string k"
    "(int n = k \<and> lasts (x - 999) a) \<or> (int n < k + m \<and> x - 1000 < now \<and> lasts x a)"
    using assms(1) by (auto simp: attempts_ok_def)
  have int: "redis_integer (re_value a) = Some k" using k assms(2) by (simp add: redis_integer_to_string)
  let ?a = "a\<lparr>re_value := to_string (k + 1)\<rparr>"
  have "redis_incr now key db = (Inr (k + 1), db(key \<mapsto> ?a))" using Some int k assms(2) by (simp add: redis_incr_def)
  moreover have "lasts t ?a = lasts t a" for t by (simp add: lasts_def)
  ultimately show thesis using k live_lasts [OF Some] by (intro that [of "k + 1" ?a]) auto
qed

lemma consume_wrong:
  assumes "live now db (code_key email) = Some e" "re_value e \<noteq> vcode" "re_expires e = Some x"
    and "attempts_ok m n x now (live now db (attempts_key email))" "m < 2 ^ 31"
    and ttl: "\<And>ms. ms - 1000 < 1000 * ttl ms"
    and "consume_script ttl now email vcode m db = (r, db')"
  shows "r = Inr 0"
    and "live now db' (code_key email) = None \<or>
      live now db' (code_key email) = Some e \<and> attempts_ok m (Suc n) x now (live now db' (attempts_key email))"
    and "key \<noteq> code_key email \<Longrightarrow> key \<noteq> attempts_key email \<Longrightarrow> live now db' key = live now db key"
proof -
  have x: "now \<le> x" using live_lasts [OF assms(1)] assms(3) by (simp add: lasts_def)
  obtain k a where incr: "redis_incr now (attempts_key email) db = (Inr k, db(attempts_key email \<mapsto> a))"
    and a: "re_value a = to_string k" "lasts now a" "1 \<le> k"
      "(k = 1 \<and> re_expires a = None \<and> (n = 0 \<or> (int n < m \<and> x - 1000 < now))) \<or>
       (k \<noteq> 1 \<and> ((int (Suc n) = k \<and> lasts (x - 999) a) \<or> (int (Suc n) < k + m \<and> x - 1000 < now \<and> lasts x a)))"
    by (rule count_guess [OF assms(4,5) x])
  let ?s = "ttl (x - now)"
  define a' where "a' = (if k = 1 \<and> ?s > 0 then a\<lparr>re_expires := Some (now + 1000 * ?s)\<rparr> else a)"
  define db1 where "db1 = db(attempts_key email \<mapsto> a')"
  have seconds: "redis_ttl ttl now (code_key email) (db(attempts_key email \<mapsto> a)) = (Inr ?s, db(attempts_key email \<mapsto> a))"
    using assms(1,3) by (simp add: redis_ttl_def)
  have expire: "(if k = 1 \<and> ?s > 0 then redis_expire now (attempts_key email) ?s else ret ()) (db(attempts_key email \<mapsto> a)) = (Inr (), db1)"
    using a(2) by (auto simp: redis_expire_def ret_def db1_def a'_def)
  have run: "(r, db') = (Inr 0, if k \<ge> m then (\<lambda>key. if key \<in> set [code_key email, attempts_key email] then None else db1 key) else db1)"
    using assms(1,2,7) incr seconds expire by (auto simp: consume_script_def bind_def redis_get_def redis_del_def ret_def)
  show "r = Inr 0" using run by simp
  have alive: "lasts now a'" using a(2) by (auto simp: a'_def lasts_def)
  have "attempts_ok m (Suc n) x now (Some a')" if "k < m"
  proof -
    have "(int (Suc n) = k \<and> lasts (x - 999) a') \<or> (int (Suc n) < k + m \<and> x - 1000 < now \<and> lasts x a')"
    proof (cases "k = 1")
      case True
      have "x - 1000 < now + 1000 * ?s" using ttl [of "x - now"] by simp
      with True a(4) show ?thesis by (auto simp: a'_def lasts_def)
    qed (use a(4) in \<open>simp add: a'_def\<close>)
    moreover have "re_value a' = to_string k" using a(1) by (simp add: a'_def)
    ultimately show ?thesis using a(3) that by (auto simp: attempts_ok_def)
  qed
  then show "live now db' (code_key email) = None \<or>
      live now db' (code_key email) = Some e \<and> attempts_ok m (Suc n) x now (live now db' (attempts_key email))"
    using run alive assms(1) by (auto simp: db1_def)
  show "key \<noteq> code_key email \<Longrightarrow> key \<noteq> attempts_key email \<Longrightarrow> live now db' key = live now db key"
    using run by (auto simp: db1_def)
qed

lemma attempts_bound:
  assumes "attempts_ok m n x now attempts" "0 < m"
  shows "int n \<le> 2 * (m - 1)"
  using assms by (auto simp: attempts_ok_def split: option.splits)

lemma consume_codes:
  assumes ok: "codes_ok m now db log" and m: "0 < m" "m < 2 ^ 31" and ttl: "\<And>ms. ms - 1000 < 1000 * ttl ms"
    and run: "consume_script ttl now email vcode m db = (r, db')"
  shows "\<exists>reply. r = Inr reply \<and> (reply = 0 \<or> reply = 1) \<and>
    codes_ok m now db' (log @ [(who, if reply = 1 then Consumed email vcode else Rejected email)]) \<and>
    (reply = 1 \<longrightarrow> (\<exists>n. track email log = Some (vcode, n) \<and> int n \<le> 2 * (m - 1)))"
proof -
  have old: "code_ok m now db e (track e log)" for e using ok by (simp add: codes_ok_def)
  consider (none) "live now db (code_key email) = None"
    | (right) e where "live now db (code_key email) = Some e" "re_value e = vcode"
    | (wrong) e where "live now db (code_key email) = Some e" "re_value e \<noteq> vcode" by blast
  then show ?thesis
  proof cases
    case none
    have r: "r = Inr 0" "db' = db" using run none by (auto simp: consume_script_def script_defs)
    have "code_ok m now db e (track e (log @ [(who, Rejected email)]))" for e
      using old [of e] none code_ok_none [of now db email] by (cases "e = email") auto
    with r show ?thesis by (simp add: codes_ok_def)
  next
    case (right e)
    have r: "r = Inr 1" and db': "db' = (\<lambda>key. if key \<in> set [code_key email, attempts_key email, cooldown_key email] then None else db key)"
      using run right by (auto simp: consume_script_def script_defs)
    have "code_ok m now db' e (track e (log @ [(who, Consumed email vcode)]))" for e
    proof (cases "e = email")
      case True
      then show ?thesis by (intro code_ok_none) (simp add: db')
    next
      case False
      from code_ok_frame [OF old [of e], of db'] False show ?thesis by (simp add: db')
    qed
    moreover obtain n x where "track email log = Some (vcode, n)" "attempts_ok m n x now (live now db (attempts_key email))"
      using old [of email] right by (auto simp: code_ok_def)
    ultimately show ?thesis using r attempts_bound [OF _ m(1)] by (auto simp: codes_ok_def)
  next
    case (wrong e)
    then obtain n x where st: "track email log = Some (re_value e, n)" "re_expires e = Some x"
      "attempts_ok m n x now (live now db (attempts_key email))"
      using old [of email] by (auto simp: code_ok_def)
    note step = consume_wrong [OF wrong st(2,3) m(2) ttl run]
    have "code_ok m now db' e' (track e' (log @ [(who, Rejected email)]))" for e'
    proof (cases "e' = email")
      case True
      with step(2) st show ?thesis by (auto simp: code_ok_def)
    next
      case False
      from code_ok_frame [OF old [of e'], of db'] False step(3) show ?thesis by simp
    qed
    with step(1) show ?thesis by (simp add: codes_ok_def)
  qed
qed

lemma codes_later: "codes_ok m now db log \<Longrightarrow> now \<le> now' \<Longrightarrow> codes_ok m now' db log"
  unfolding codes_ok_def by (blast intro: code_ok_later)

text \<open>Keys outside the verification codes.\<close>

lemma other_keys [simp]:
  "chat_auth_key uid \<noteq> code_key email" "code_key email \<noteq> chat_auth_key uid"
  "chat_auth_key uid \<noteq> attempts_key email" "attempts_key email \<noteq> chat_auth_key uid"
  "user_id_key t \<noteq> code_key email" "code_key email \<noteq> user_id_key t"
  "user_id_key t \<noteq> attempts_key email" "attempts_key email \<noteq> user_id_key t"
  by (simp_all add: code_key_def attempts_key_def verification_prefix_def chat_auth_key_def user_id_key_def)

lemma codes_frame:
  assumes "codes_ok m now db log" "\<And>email. live now db' (code_key email) = live now db (code_key email)"
    and "\<And>email. live now db' (attempts_key email) = live now db (attempts_key email)"
  shows "codes_ok m now db' log"
  using assms by (simp add: codes_ok_def code_ok_def)

lemma token_codes: "codes_ok m now db log \<Longrightarrow> redis_setex now (chat_auth_key uid) ttl token db = (r, db') \<Longrightarrow> codes_ok m now db' log"
  by (rule codes_frame [of m now db]) (auto simp: redis_setex_def split: if_splits)

lemma counter_codes: "codes_ok m now db log \<Longrightarrow> redis_incr now (user_id_key t) db = (r, db') \<Longrightarrow> codes_ok m now db' log"
  by (rule codes_frame [of m now db]) (auto simp: redis_incr_def split: if_splits option.splits)

section \<open>The invariant of the Gate\<close>

text \<open>Every consumption in the history is of the code that was open, within the bound of refused guesses.\<close>

definition log_ok :: "int \<Rightarrow> (nat \<times> gate_event) list \<Rightarrow> bool" where
  "log_ok m log =
     (\<forall>past who email vcode rest. log = past @ (who, Consumed email vcode) # rest \<longrightarrow>
        (\<exists>n. track email past = Some (vcode, n) \<and> int n \<le> 2 * (m - 1)))"

lemma log_ok_snoc:
  "log_ok m (log @ [(who, event)]) \<longleftrightarrow> log_ok m log \<and>
     (\<forall>email vcode. event = Consumed email vcode \<longrightarrow> (\<exists>n. track email log = Some (vcode, n) \<and> int n \<le> 2 * (m - 1)))"
proof
  assume ok: "log_ok m (log @ [(who, event)])"
  have "\<exists>n. track email past = Some (vcode, n) \<and> int n \<le> 2 * (m - 1)"
    if "log = past @ (who', Consumed email vcode) # rest" for past who' email vcode rest
  proof -
    have "log @ [(who, event)] = past @ (who', Consumed email vcode) # (rest @ [(who, event)])" using that by simp
    with ok show ?thesis unfolding log_ok_def by blast
  qed
  moreover have "\<exists>n. track email log = Some (vcode, n) \<and> int n \<le> 2 * (m - 1)" if "event = Consumed email vcode" for email vcode
    using ok that unfolding log_ok_def by blast
  ultimately show "log_ok m log \<and>
      (\<forall>email vcode. event = Consumed email vcode \<longrightarrow> (\<exists>n. track email log = Some (vcode, n) \<and> int n \<le> 2 * (m - 1)))"
    unfolding log_ok_def by blast
next
  assume ok: "log_ok m log \<and>
      (\<forall>email vcode. event = Consumed email vcode \<longrightarrow> (\<exists>n. track email log = Some (vcode, n) \<and> int n \<le> 2 * (m - 1)))"
  show "log_ok m (log @ [(who, event)])"
    unfolding log_ok_def
  proof (intro allI impI)
    fix past who' email vcode rest assume eq: "log @ [(who, event)] = past @ (who', Consumed email vcode) # rest"
    show "\<exists>n. track email past = Some (vcode, n) \<and> int n \<le> 2 * (m - 1)"
    proof (cases rest rule: rev_cases)
      case Nil
      with eq ok show ?thesis by simp
    next
      case (snoc rest' entry)
      with eq have "log = past @ (who', Consumed email vcode) # rest'" by simp
      with ok show ?thesis unfolding log_ok_def by blast
    qed
  qed
qed

definition users_ok :: "env \<Rightarrow> users_row list \<Rightarrow> bool" where
  "users_ok E users =
     (unique_key ac_uid users \<and> unique_key (\<lambda>r. collate E (ac_username r)) users \<and> unique_key (\<lambda>r. collate E (ac_email r)) users)"

interpretation user_ids: keyed_table ac_uid "users_clash E" for E
  by unfold_locales (simp add: users_clash_def)

interpretation user_names: keyed_table "\<lambda>r. collate E (ac_username r)" "users_clash E" for E
  by unfold_locales (simp add: users_clash_def)

interpretation user_emails: keyed_table "\<lambda>r. collate E (ac_email r)" "users_clash E" for E
  by unfold_locales (simp add: users_clash_def)

fun op_ok :: "int \<Rightarrow> io_operation \<Rightarrow> bool" where
  "op_ok m (issue_verification_code email vcode ttl cooldown) = (0 < ttl \<and> 0 < cooldown)"
| "op_ok m (consume_verification_code email vcode attempts) = (attempts = m)"
| "op_ok m _ = True"

definition slots_ok :: "int \<Rightarrow> gate_slot list \<Rightarrow> bool" where
  "slots_ok m slots = list_all (\<lambda>s. list_all (\<lambda>(elapsed, who, operation). op_ok m operation) (gl_before s)) slots"

definition gate_ok :: "env \<Rightarrow> int \<Rightarrow> gate_world \<Rightarrow> bool" where
  "gate_ok E m w =
     (codes_ok m (gw_now w) (gw_redis w) (gw_log w) \<and> log_ok m (gw_log w) \<and> users_ok E (gw_users w) \<and> slots_ok m (gw_slots w))"

definition keeps_gate :: "env \<Rightarrow> int \<Rightarrow> gate_world \<Rightarrow> gate_world \<Rightarrow> bool" where
  "keeps_gate E m w w' = (gate_ok E m w \<longrightarrow> gate_ok E m w')"

interpretation kept: gate_steps "keeps_gate E m" for E m
proof
  show "keeps_gate E m w w" "keeps_gate E m u v \<Longrightarrow> keeps_gate E m v w \<Longrightarrow> keeps_gate E m u w" for u v w
    by (auto simp: keeps_gate_def)
  show "gate_quiet w w' \<Longrightarrow> keeps_gate E m w w'" for w w'
    by (simp add: gate_quiet_def keeps_gate_def gate_ok_def)
qed

text \<open>A command that keeps the codes, together with the events it leaves.\<close>

lemma kept_redis:
  assumes "\<And>now db log r db'. codes_ok m now db log \<Longrightarrow> log_ok m log \<Longrightarrow> command now db = (r, db') \<Longrightarrow>
      codes_ok m now db' (log @ (case r of Inl _ \<Rightarrow> [] | Inr reply \<Rightarrow> map (Pair who) (events reply))) \<and>
      log_ok m (log @ (case r of Inl _ \<Rightarrow> [] | Inr reply \<Rightarrow> map (Pair who) (events reply)))"
  shows "within (keeps_gate E m) (gate_redis S options who command events)"
proof (intro kept.within_redis kept.redis_execute_within)
  fix w :: gate_world and r db assume "command (gw_now w) (gw_redis w) = (r, db)"
  from assms [OF _ _ this, of "gw_log w"] show "keeps_gate E m w
      (w\<lparr>gw_redis := db, gw_log := gw_log w @ (case r of Inl _ \<Rightarrow> [] | Inr reply \<Rightarrow> map (Pair who) (events reply))\<rparr>)"
    by (simp add: keeps_gate_def gate_ok_def)
qed

lemma answering_Inr:
  "answering reply command now db = (r, db') \<Longrightarrow> command now db = (s, db'') \<Longrightarrow> db' = db'' \<and> (\<forall>a. s = Inr a \<longrightarrow> r = Inr (reply a)) \<and> (\<forall>e. s = Inl e \<longrightarrow> r = Inl e)"
  by (cases s) (auto simp: answering_def bind_def ret_def)

lemma kept_issue:
  assumes "0 < ttl" "0 < cooldown"
  shows "within (keeps_gate E m) (execute_issue S options who email vcode ttl cooldown)"
proof -
  let ?cmd = "answering integer_reply (\<lambda>now. issue_script now email vcode ttl cooldown)"
  let ?ev = "\<lambda>reply. if rd_integer reply = 1 then [Issued email vcode] else []"
  have "within (keeps_gate E m) (gate_redis S options who ?cmd ?ev)"
  proof (rule kept_redis)
    fix now db log r db' assume ok: "codes_ok m now db log" "log_ok m log" and run: "?cmd now db = (r, db')"
    obtain r1 db1 where script: "issue_script now email vcode ttl cooldown db = (r1, db1)" by fastforce
    from issue_codes [OF ok(1) script assms, of who] answering_Inr [OF run script] ok(2)
    show "codes_ok m now db' (log @ (case r of Inl _ \<Rightarrow> [] | Inr reply \<Rightarrow> map (Pair who) (?ev reply))) \<and>
        log_ok m (log @ (case r of Inl _ \<Rightarrow> [] | Inr reply \<Rightarrow> map (Pair who) (?ev reply)))"
      by (auto simp: integer_reply_def log_ok_snoc)
  qed
  then show ?thesis unfolding execute_issue_def by (intro kept.within_intros kept.within_basic)
qed

lemma kept_clear: "within (keeps_gate E m) (execute_clear S options who email vcode)"
proof -
  let ?cmd = "answering integer_reply (\<lambda>now. clear_script now email vcode)"
  let ?ev = "\<lambda>reply. if rd_integer reply = 1 then [Cleared email vcode] else []"
  have "within (keeps_gate E m) (gate_redis S options who ?cmd ?ev)"
  proof (rule kept_redis)
    fix now db log r db' assume ok: "codes_ok m now db log" "log_ok m log" and run: "?cmd now db = (r, db')"
    obtain r1 db1 where script: "clear_script now email vcode db = (r1, db1)" by fastforce
    from clear_codes [OF ok(1) script, of who] answering_Inr [OF run script] ok(2)
    show "codes_ok m now db' (log @ (case r of Inl _ \<Rightarrow> [] | Inr reply \<Rightarrow> map (Pair who) (?ev reply))) \<and>
        log_ok m (log @ (case r of Inl _ \<Rightarrow> [] | Inr reply \<Rightarrow> map (Pair who) (?ev reply)))"
      by (auto simp: integer_reply_def log_ok_snoc)
  qed
  then show ?thesis unfolding execute_clear_def by (intro kept.within_intros kept.within_basic)
qed

lemma kept_consume:
  assumes "0 < m" "m < 2 ^ 31" "\<And>ms. ms - 1000 < 1000 * gs_ttl S ms"
  shows "within (keeps_gate E m) (execute_consume S options who email vcode m)"
proof -
  let ?cmd = "answering integer_reply (\<lambda>now. consume_script (gs_ttl S) now email vcode m)"
  let ?ev = "\<lambda>reply. if rd_integer reply = 1 then [Consumed email vcode] else [Rejected email]"
  have "within (keeps_gate E m) (gate_redis S options who ?cmd ?ev)"
  proof (rule kept_redis)
    fix now db log r db' assume ok: "codes_ok m now db log" "log_ok m log" and run: "?cmd now db = (r, db')"
    obtain r1 db1 where script: "consume_script (gs_ttl S) now email vcode m db = (r1, db1)" by fastforce
    from consume_codes [OF ok(1) assms script, of who] answering_Inr [OF run script] ok(2)
    show "codes_ok m now db' (log @ (case r of Inl _ \<Rightarrow> [] | Inr reply \<Rightarrow> map (Pair who) (?ev reply))) \<and>
        log_ok m (log @ (case r of Inl _ \<Rightarrow> [] | Inr reply \<Rightarrow> map (Pair who) (?ev reply)))"
      by (auto simp: integer_reply_def log_ok_snoc)
  qed
  then show ?thesis unfolding execute_consume_def by (intro kept.within_intros kept.within_basic)
qed

lemma codes_other_event:
  assumes "\<And>email st. track_event email event st = st"
  shows "codes_ok m now db (log @ [(who, event)]) = codes_ok m now db log"
  using assms by (simp add: codes_ok_def)

lemma kept_get: "within (keeps_gate E m) (execute_get S options who email)"
proof -
  let ?cmd = "answering string_reply (\<lambda>now. redis_get now (code_key email))"
  have "within (keeps_gate E m) (gate_redis S options who ?cmd (\<lambda>_. []))"
    by (rule kept_redis) (auto simp: answering_def bind_def ret_def redis_get_def split: sum.splits)
  then show ?thesis unfolding execute_get_def by (intro kept.within_intros kept.within_basic)
qed

lemma kept_token: "within (keeps_gate E m) (execute_set_token S options who uid token ttl)"
proof -
  let ?cmd = "answering (\<lambda>_. status_reply ''OK'') (\<lambda>now. redis_setex now (chat_auth_key uid) ttl token)"
  have "within (keeps_gate E m) (gate_redis S options who ?cmd (\<lambda>_. [Token_set uid token ttl]))"
  proof (rule kept_redis)
    fix now db log r db' assume ok: "codes_ok m now db log" "log_ok m log" and run: "?cmd now db = (r, db')"
    obtain r1 db1 where script: "redis_setex now (chat_auth_key uid) ttl token db = (r1, db1)" by fastforce
    from token_codes [OF ok(1) script] answering_Inr [OF run script] ok(2)
    show "codes_ok m now db' (log @ (case r of Inl _ \<Rightarrow> [] | Inr reply \<Rightarrow> map (Pair who) [Token_set uid token ttl])) \<and>
        log_ok m (log @ (case r of Inl _ \<Rightarrow> [] | Inr reply \<Rightarrow> map (Pair who) [Token_set uid token ttl]))"
      by (auto simp: log_ok_snoc codes_other_event split: sum.splits)
  qed
  then show ?thesis unfolding execute_set_token_def by (intro kept.within_intros kept.within_basic)
qed

lemma kept_generate: "within (keeps_gate E m) (execute_generate S options who machine)"
proof (rule kept.within_generate, rule kept.redis_execute_within)
  fix t and w :: gate_world and r db assume run: "answering integer_reply (\<lambda>now. redis_incr now (user_id_key t)) (gw_now w) (gw_redis w) = (r, db)"
  obtain r1 db1 where script: "redis_incr (gw_now w) (user_id_key t) (gw_redis w) = (r1, db1)" by fastforce
  have "db = db1" using answering_Inr [OF run script] by simp
  then show "keeps_gate E m w (w\<lparr>gw_redis := db, gw_log := gw_log w @ (case r of Inl _ \<Rightarrow> [] | Inr reply \<Rightarrow> map (Pair who) [])\<rparr>)"
    using counter_codes [OF _ script] by (auto simp: keeps_gate_def gate_ok_def split: sum.splits)
qed

lemma kept_mail: "within (keeps_gate E m) (execute_mail S options who recipient vcode ttl)"
  by (rule kept.within_mail) (simp add: keeps_gate_def gate_ok_def codes_other_event log_ok_snoc)

text \<open>Statements: the users keep their unique keys, and no code is touched.\<close>

lemma kept_mysql:
  assumes "\<And>users infos a users'. users_ok E users \<Longrightarrow> statement users infos = (a, users') \<Longrightarrow> users_ok E users'"
    and "\<And>a. events a = [] \<or> (\<exists>event. events a = [event] \<and> (\<forall>email st. track_event email event st = st) \<and> (\<forall>email vcode. event \<noteq> Consumed email vcode))"
  shows "within (keeps_gate E m) (mysql_query S options who statement events)"
proof (rule kept.within_mysql, rule kept.mysql_execute_within)
  fix w :: gate_world and a users' assume st: "statement (gw_users w) (gw_userInfo w) = (a, users')"
  from assms(2) [of a] show "keeps_gate E m w (w\<lparr>gw_users := users', gw_log := gw_log w @ map (Pair who) (events a)\<rparr>)"
    using assms(1) [OF _ st] by (auto simp: keeps_gate_def gate_ok_def codes_other_event log_ok_snoc)
qed

lemma register_users:
  assumes "users_ok E users" "register_statement E uid username password email users infos = (a, users')"
  shows "users_ok E users'"
proof -
  let ?r = "\<lparr>ac_uid = uid, ac_username = username, ac_password = password, ac_email = email, ac_createTime = current_time E\<rparr>"
  show ?thesis
  proof (cases "insert_row (users_clash E) ?r users")
    case (Inl e)
    with assms show ?thesis by (simp add: register_statement_def)
  next
    case (Inr users1)
    with assms show ?thesis
      using user_ids.insert_row_unique [OF _ Inr] user_names.insert_row_unique [OF _ Inr] user_emails.insert_row_unique [OF _ Inr]
      by (simp add: register_statement_def users_ok_def)
  qed
qed

lemma update_users: "users_ok E users \<Longrightarrow> users_ok E (update_where (\<lambda>r. ac_uid r = uid) (\<lambda>r. r\<lparr>ac_password := password\<rparr>) users)"
  unfolding users_ok_def unique_key_def by (simp add: map_update_where)

lemma kept_statements:
  "within (keeps_gate E m) (execute_find_user S options who username)"
  "within (keeps_gate E m) (execute_has_user_info S options who uid)"
  "within (keeps_gate E m) (execute_user_exists S options who username email)"
  "within (keeps_gate E m) (execute_update S options who uid password)"
proof -
  have "within (keeps_gate E m) (mysql_query S options who (find_statement (gs_env S) username)
      (\<lambda>row. case row of None \<Rightarrow> [] | Some r \<Rightarrow> [Found r]))"
    by (rule kept_mysql) (auto simp: find_statement_def split: option.splits)
  then show "within (keeps_gate E m) (execute_find_user S options who username)"
    unfolding execute_find_user_def by (intro kept.within_bind) (auto split: option.splits)
  show "within (keeps_gate E m) (execute_has_user_info S options who uid)"
    unfolding execute_has_user_info_def by (rule kept_mysql) auto
  show "within (keeps_gate E m) (execute_user_exists S options who username email)"
    unfolding execute_user_exists_def by (rule kept_mysql) (auto simp: exists_statement_def)
  show "within (keeps_gate E m) (execute_update S options who uid password)"
    unfolding execute_update_def by (rule kept_mysql) (auto simp: update_users)
qed

lemma kept_register: "within (keeps_gate (gs_env S) m) (execute_register S options who uid username password email)"
proof -
  have "within (keeps_gate (gs_env S) m) (mysql_query S options who (register_statement (gs_env S) uid username password email)
      (\<lambda>error. if error = 0 then [Registered uid username password email] else []))"
    by (rule kept_mysql) (auto dest: register_users)
  then show ?thesis unfolding execute_register_def by (intro kept.within_intros)
qed

section \<open>Requests keep the invariant\<close>

text \<open>What \<^verbatim>\<open>load_options\<close> guarantees of the options, and the TTL command reports at most a second too little.\<close>

definition configured :: "gate_services \<Rightarrow> gate_options \<Rightarrow> bool" where
  "configured S options =
     (0 < go_max_attempts options \<and> go_max_attempts options < 2 ^ 31 \<and> 0 < go_code_ttl_seconds options \<and>
      0 < go_cooldown_seconds options \<and> (\<forall>ms. ms - 1000 < 1000 * gs_ttl S ms))"

definition gate_keeps :: "gate_services \<Rightarrow> gate_options \<Rightarrow> gate_world \<Rightarrow> gate_world \<Rightarrow> bool" where
  "gate_keeps S options w w' = (configured S options \<longrightarrow> keeps_gate (gs_env S) (go_max_attempts options) w w')"

lemma gate_execute_keeps:
  assumes "configured S options" "op_ok (go_max_attempts options) operation"
  shows "keeps_gate (gs_env S) (go_max_attempts options) w (gate_execute S options (who, operation) w)"
proof -
  have m: "0 < go_max_attempts options" "go_max_attempts options < 2 ^ 31" "\<And>ms. ms - 1000 < 1000 * gs_ttl S ms"
    using assms(1) by (simp_all add: configured_def)
  show ?thesis
  proof (cases operation)
    case (pick_gateway uid)
    have "within (keeps_gate (gs_env S) (go_max_attempts options)) (execute_pick S uid)" by (rule kept.within_basic)
    then show ?thesis using pick_gateway by (simp add: within_snd)
  qed (use assms(2) kept_consume [OF m] in \<open>simp_all add: within_snd [THEN iffD1, rule_format] kept_issue kept_clear kept_get
      kept_token kept_generate kept_mail kept_statements kept_register\<close>)
qed

lemma gate_pass_keeps: "keeps_gate E m w (gate_pass n w)"
  by (auto simp: keeps_gate_def gate_ok_def gate_pass_def intro: codes_later)

lemma gate_enter_keeps:
  assumes "configured S options" "gw_slots w = s # ss"
  shows "keeps_gate (gs_env S) (go_max_attempts options) w (gate_enter S options s (w\<lparr>gw_slots := ss\<rparr>))"
proof -
  let ?K = "keeps_gate (gs_env S) (go_max_attempts options)"
  let ?step = "\<lambda>(elapsed, operation) w. gate_execute S options operation (gate_pass elapsed w)"
  have fold: "?K v (fold ?step operations v)" if "list_all (\<lambda>(elapsed, who, operation). op_ok (go_max_attempts options) operation) operations" for operations v
    using that
  proof (induction operations arbitrary: v)
    case (Cons x operations)
    obtain elapsed who operation where x: "x = (elapsed, who, operation)" by (metis prod.collapse)
    have "?K v (gate_execute S options (who, operation) (gate_pass elapsed v))"
      using kept.step_trans [OF gate_pass_keeps gate_execute_keeps [OF assms(1)]] Cons.prems by (simp add: x)
    with Cons show ?case using kept.step_trans by (auto simp: x)
  qed (simp add: kept.step_refl)
  show ?thesis
    unfolding keeps_gate_def
  proof
    assume ok: "gate_ok (gs_env S) (go_max_attempts options) w"
    let ?w = "w\<lparr>gw_slots := ss\<rparr>"
    have "gate_ok (gs_env S) (go_max_attempts options) ?w"
      and "list_all (\<lambda>(elapsed, who, operation). op_ok (go_max_attempts options) operation) (gl_before s)"
      using ok assms(2) by (simp_all add: gate_ok_def slots_ok_def)
    with fold gate_pass_keeps have "gate_ok (gs_env S) (go_max_attempts options) (gate_pass (gl_elapsed s) (fold ?step (gl_before s) ?w))"
      unfolding keeps_gate_def by blast
    then show "gate_ok (gs_env S) (go_max_attempts options) (gate_enter S options s ?w)"
      by (simp add: gate_enter_def Let_def gate_ok_def)
  qed
qed

interpretation sound: gate_relation "gate_keeps S options" S options
    "\<lambda>operation. configured S options \<longrightarrow> op_ok (go_max_attempts options) operation" for S options
proof
  show "gate_keeps S options w w" "gate_keeps S options u v \<Longrightarrow> gate_keeps S options v w \<Longrightarrow> gate_keeps S options u w" for u v w
    by (auto simp: gate_keeps_def keeps_gate_def)
  show "gate_quiet w w' \<Longrightarrow> gate_keeps S options w w'" for w w' using kept.quiet_step by (simp add: gate_keeps_def)
  show "configured S options \<longrightarrow> op_ok (go_max_attempts options) operation \<Longrightarrow>
      gate_keeps S options w (gate_execute S options (who, operation) w)" for operation w who
    using gate_execute_keeps by (simp add: gate_keeps_def)
  show "gw_slots w = s # ss \<Longrightarrow> gate_keeps S options w (gate_enter S options s (w\<lparr>gw_slots := ss\<rparr>))" for w s ss
    using gate_enter_keeps by (simp add: gate_keeps_def)
qed (simp_all add: configured_def)

text \<open>The budget of the requests is left alone by the operations: only the permit changes it.\<close>

definition same_budget :: "gate_world \<Rightarrow> gate_world \<Rightarrow> bool" where
  "same_budget w w' = (gw_requests w' = gw_requests w)"

interpretation same: gate_free same_budget u for u
  by unfold_locales (auto simp: same_budget_def gate_quiet_def)

interpretation same: gate_relation same_budget S options "\<lambda>_. True" for S options
proof
  show "same_budget w (gate_execute S options (who, operation) w)" for operation w who by (rule same.free_execute)
  show "same_budget w (gate_enter S options s (w\<lparr>gw_slots := ss\<rparr>))" if "gw_slots w = s # ss" for w s ss
  proof -
    have "same_budget v (fold (\<lambda>(elapsed, operation) w. gate_execute S options operation (gate_pass elapsed w)) operations v)" for operations v
    proof (induction operations arbitrary: v)
      case (Cons x operations)
      obtain elapsed who operation where x: "x = (elapsed, who, operation)" by (metis prod.collapse)
      have "same_budget v (gate_execute S options (who, operation) (gate_pass elapsed v))"
        using same.free_execute [of "gate_pass elapsed v" S options who operation] by (simp add: same_budget_def gate_pass_def)
      with Cons show ?case using same.step_trans by (fastforce simp: x)
    qed (simp add: same_budget_def)
    then show ?thesis by (simp add: gate_enter_def Let_def gate_pass_def same_budget_def)
  qed
qed simp_all

end
