(* ===== verification/Gate_Effects.thy ===== *)
theory Gate_Effects
  imports Gate_Codes
begin

text \<open>
  What a single request carries out.  \<open>does\<close> describes the events a program adds to the history in the name of its
  request, whatever other requests do in between; it is established for the operations, the
  handlers and the dispatch of HTTP requests.
\<close>

section \<open>What one request carries out\<close>

text \<open>The events of a request in the history, and schedules in which the other requests have other numbers.\<close>

definition own :: "nat \<Rightarrow> gate_world \<Rightarrow> gate_event list" where
  "own who w = map snd (filter (\<lambda>entry. fst entry = who) (gw_log w))"

definition avoids :: "nat \<Rightarrow> gate_world \<Rightarrow> bool" where
  "avoids who w = list_all (\<lambda>s. list_all (\<lambda>(elapsed, u, operation). u \<noteq> who) (gl_before s)) (gw_slots w)"

definition does :: "nat \<Rightarrow> (gate_world, 'a) prog \<Rightarrow> (exn + 'a \<Rightarrow> gate_event list \<Rightarrow> bool) \<Rightarrow> bool" where
  "does who p P =
     (\<forall>w r w'. avoids who w \<longrightarrow> p w = (r, w') \<longrightarrow> avoids who w' \<and> (\<exists>events. own who w' = own who w @ events \<and> P r events))"

lemma doesD: "does who p P \<Longrightarrow> avoids who w \<Longrightarrow> p w = (r, w') \<Longrightarrow> avoids who w' \<and> (\<exists>events. own who w' = own who w @ events \<and> P r events)"
  by (simp add: does_def)

lemma does_mono: "does who p P \<Longrightarrow> (\<And>r events. P r events \<Longrightarrow> Q r events) \<Longrightarrow> does who p Q"
  unfolding does_def by blast

lemma does_ret: "P (Inr a) [] \<Longrightarrow> does who (ret a) P"
  by (auto simp: does_def ret_def)

lemma does_raise: "P (Inl e) [] \<Longrightarrow> does who (raise e) P"
  by (auto simp: does_def raise_def)

lemma does_bind:
  assumes "does who p P" "\<And>a. does who (k a) (Q a)"
    and "\<And>e events. P (Inl e) events \<Longrightarrow> T (Inl e) events"
    and "\<And>a events r events'. P (Inr a) events \<Longrightarrow> Q a r events' \<Longrightarrow> T r (events @ events')"
  shows "does who (bind p k) T"
  unfolding does_def
proof (intro allI impI)
  fix w r w' assume w: "avoids who w" and run: "bind p k w = (r, w')"
  obtain r1 w1 where first: "p w = (r1, w1)" by fastforce
  from doesD [OF assms(1) w first] obtain events where 1: "avoids who w1" "own who w1 = own who w @ events" "P r1 events" by blast
  show "avoids who w' \<and> (\<exists>events. own who w' = own who w @ events \<and> T r events)"
  proof (cases r1)
    case (Inl e)
    with run first 1 assms(3) show ?thesis by (auto simp: bind_def)
  next
    case (Inr a)
    with run first have "k a w1 = (r, w')" by (simp add: bind_def)
    from doesD [OF assms(2) 1(1) this] obtain events' where "avoids who w'" "own who w' = own who w1 @ events'" "Q a r events'" by blast
    with 1 Inr assms(4) show ?thesis by (metis append.assoc)
  qed
qed

lemma does_catch:
  assumes "does who p P" "\<And>e. does who (h e) (Q e)"
    and "\<And>a events. P (Inr a) events \<Longrightarrow> T (Inr a) events"
    and "\<And>e events r events'. P (Inl e) events \<Longrightarrow> Q e r events' \<Longrightarrow> T r (events @ events')"
  shows "does who (catch p h) T"
  unfolding does_def
proof (intro allI impI)
  fix w r w' assume w: "avoids who w" and run: "catch p h w = (r, w')"
  obtain r1 w1 where first: "p w = (r1, w1)" by fastforce
  from doesD [OF assms(1) w first] obtain events where 1: "avoids who w1" "own who w1 = own who w @ events" "P r1 events" by blast
  show "avoids who w' \<and> (\<exists>events. own who w' = own who w @ events \<and> T r events)"
  proof (cases r1)
    case (Inr a)
    with run first 1 assms(3) show ?thesis by (auto simp: catch_def)
  next
    case (Inl e)
    with run first have "h e w1 = (r, w')" by (simp add: catch_def)
    from doesD [OF assms(2) 1(1) this] obtain events' where "avoids who w'" "own who w' = own who w1 @ events'" "Q e r events'" by blast
    with 1 Inl assms(4) show ?thesis by (metis append.assoc)
  qed
qed

lemma does_if: "(b \<Longrightarrow> does who p P) \<Longrightarrow> (\<not> b \<Longrightarrow> does who q P) \<Longrightarrow> does who (if b then p else q) P"
  by simp

lemma does_quiet:
  assumes "within gate_quiet p" "\<And>w r w'. p w = (r, w') \<Longrightarrow> P r []"
  shows "does who p P"
  unfolding does_def
proof (intro allI impI)
  fix w r w' assume w: "avoids who w" and run: "p w = (r, w')"
  from withinD [OF assms(1) run] have "gw_log w' = gw_log w" "gw_slots w' = gw_slots w" by (simp_all add: gate_quiet_def)
  then show "avoids who w' \<and> (\<exists>events. own who w' = own who w @ events \<and> P r events)"
    using w assms(2) [OF run] by (intro conjI exI [of _ "[]"]) (simp_all add: own_def avoids_def)
qed

text \<open>A program that is quiet but for what a last part does.\<close>

lemma does_after:
  assumes "within gate_quiet p" "\<And>a. does who (k a) P" "\<And>e. P (Inl e) []"
  shows "does who (bind p k) P"
  by (rule does_bind [OF does_quiet [OF assms(1), of "\<lambda>r events. events = []"] assms(2)]) (use assms(3) in auto)

lemma does_redis:
  assumes "\<And>e. P (Inl e) []"
    and "\<And>now db reply db'. command now db = (Inr reply, db') \<Longrightarrow> P (Inr reply) (events reply) \<and> (\<forall>e. P (Inl e) (events reply))"
  shows "does who (gate_redis S options who command events) P"
proof -
  have exec: "does who (redis_execute who command events) P"
    unfolding does_def
  proof (intro allI impI)
    fix w r w' assume w: "avoids who w" and run: "redis_execute who command events w = (r, w')"
    obtain flt w1 where flt: "gate_fault w = (flt, w1)" by fastforce
    obtain r1 db where cmd: "command (gw_now w1) (gw_redis w1) = (r1, db)" by fastforce
    note q = gate_fault_quiet [OF flt, unfolded gate_quiet_def]
    show "avoids who w' \<and> (\<exists>events. own who w' = own who w @ events \<and> P r events)"
    proof (cases "(\<exists>m. flt = Refused m) \<or> (\<exists>e. r1 = Inl e)")
      case True
      then have "\<exists>e. r = Inl e" "gw_log w' = gw_log w" "gw_slots w' = gw_slots w"
        using run flt cmd q by (auto simp: redis_execute_def Let_def split: fault.splits)
      with w assms(1) show ?thesis by (auto simp: own_def avoids_def)
    next
      case False
      then obtain reply where reply: "r1 = Inr reply" by (cases r1) auto
      have "gw_log w' = gw_log w @ map (Pair who) (events reply)" "gw_slots w' = gw_slots w" "r = Inr reply \<or> (\<exists>e. r = Inl e)"
        using run flt cmd q False reply by (auto simp: redis_execute_def Let_def split: fault.splits)
      moreover have "P (Inr reply) (events reply) \<and> (\<forall>e. P (Inl e) (events reply))" using assms(2) cmd reply by blast
      ultimately show ?thesis using w by (auto simp: own_def avoids_def filter_map comp_def)
    qed
  qed
  show ?thesis unfolding gate_redis_def
    by (rule does_after, blast, rule does_after, blast, rule does_after, blast, rule does_after, blast, rule does_after, blast,
        rule does_after) (auto intro: exec assms(1))
qed

lemma does_mysql:
  assumes "\<And>e. P (Inl e) []"
    and "\<And>users infos a users'. statement users infos = (a, users') \<Longrightarrow> P (Inr a) (events a) \<and> (\<forall>e. P (Inl e) (events a))"
  shows "does who (mysql_query S options who statement events) P"
proof -
  have exec: "does who (mysql_execute who statement events) P"
    unfolding does_def
  proof (intro allI impI)
    fix w r w' assume w: "avoids who w" and run: "mysql_execute who statement events w = (r, w')"
    obtain flt w1 where flt: "gate_fault w = (flt, w1)" by fastforce
    obtain a users where st: "statement (gw_users w1) (gw_userInfo w1) = (a, users)" by fastforce
    note q = gate_fault_quiet [OF flt, unfolded gate_quiet_def]
    show "avoids who w' \<and> (\<exists>events. own who w' = own who w @ events \<and> P r events)"
    proof (cases "\<exists>m. flt = Refused m")
      case True
      then have "\<exists>e. r = Inl e" "gw_log w' = gw_log w" "gw_slots w' = gw_slots w"
        using run flt st q by (auto simp: mysql_execute_def Let_def)
      with w assms(1) show ?thesis by (auto simp: own_def avoids_def)
    next
      case False
      have "gw_log w' = gw_log w @ map (Pair who) (events a)" "gw_slots w' = gw_slots w" "r = Inr a \<or> (\<exists>e. r = Inl e)"
        using run flt st q False by (auto simp: mysql_execute_def Let_def split: fault.splits)
      moreover have "P (Inr a) (events a) \<and> (\<forall>e. P (Inl e) (events a))" using assms(2) st by blast
      ultimately show ?thesis using w by (auto simp: own_def avoids_def filter_map comp_def)
    qed
  qed
  show ?thesis unfolding mysql_query_def
    by (rule does_after, blast, rule does_after, blast, rule does_after, blast, rule does_after) (auto intro: exec assms(1))
qed

definition spares :: "nat \<Rightarrow> nat \<Rightarrow> gate_world \<Rightarrow> gate_world \<Rightarrow> bool" where
  "spares who u w w' = (u \<noteq> who \<longrightarrow> own who w' = own who w \<and> gw_slots w' = gw_slots w)"

interpretation spared: gate_free "spares who u" u for who u
  by unfold_locales (auto simp: spares_def gate_quiet_def own_def filter_map comp_def)

lemma enter_own:
  assumes "list_all (\<lambda>(elapsed, u, operation). u \<noteq> who) (gl_before s)"
  shows "own who (gate_enter S options s w) = own who w" "gw_slots (gate_enter S options s w) = gw_slots w"
proof -
  let ?step = "\<lambda>(elapsed, operation) w. gate_execute S options operation (gate_pass elapsed w)"
  have "own who (fold ?step operations v) = own who v \<and> gw_slots (fold ?step operations v) = gw_slots v"
    if "list_all (\<lambda>(elapsed, u, operation). u \<noteq> who) operations" for operations v
    using that
  proof (induction operations arbitrary: v)
    case (Cons x operations)
    obtain elapsed u operation where x: "x = (elapsed, u, operation)" by (metis prod.collapse)
    have "own who (gate_execute S options (u, operation) (gate_pass elapsed v)) = own who v \<and>
        gw_slots (gate_execute S options (u, operation) (gate_pass elapsed v)) = gw_slots v"
      using spared.free_execute [where who = who and w = "gate_pass elapsed v" and u = u] Cons.prems
      by (auto simp: spares_def x own_def gate_pass_def)
    with Cons show ?case by (simp add: x)
  qed simp
  from this [OF assms, of w] show "own who (gate_enter S options s w) = own who w" "gw_slots (gate_enter S options s w) = gw_slots w"
    by (simp_all add: gate_enter_def Let_def gate_pass_def own_def)
qed

lemma does_submit:
  assumes "does who p P" "\<And>e. P (Inl e) []"
  shows "does who (gate_submit S options p) P"
  unfolding does_def
proof (intro allI impI)
  fix w r w' assume w: "avoids who w" and run: "gate_submit S options p w = (r, w')"
  show "avoids who w' \<and> (\<exists>events. own who w' = own who w @ events \<and> P r events)"
  proof (cases "gw_slots w")
    case Nil
    with run have "p w = (r, w')" by (simp add: gate_submit_def)
    from doesD [OF assms(1) w this] show ?thesis .
  next
    case (Cons s ss)
    let ?w = "w\<lparr>gw_slots := ss\<rparr>"
    have others: "list_all (\<lambda>(elapsed, u, operation). u \<noteq> who) (gl_before s)" and w1: "avoids who ?w" "own who ?w = own who w"
      using w Cons by (simp_all add: avoids_def own_def)
    note enter = enter_own [OF others, of S options ?w]
    have in1: "avoids who (gate_enter S options s ?w)" "own who (gate_enter S options s ?w) = own who w"
      using enter w1 by (simp_all add: avoids_def)
    show ?thesis
    proof (cases "gl_admission s")
      case Admitted
      with run Cons have "p (gate_enter S options s ?w) = (r, w')" by (simp add: gate_submit_def)
      from doesD [OF assms(1) in1(1) this] in1(2) show ?thesis by simp
    qed (use run Cons in1 assms(2) in \<open>auto simp: gate_submit_def\<close>)
  qed
qed

lemma gate_quiet_Pair [simp]: "within gate_quiet (Pair r)"
  by (auto simp: within_def gate_quiet_def)

text \<open>A check after an operation adds nothing.\<close>

lemma does_then:
  assumes "does who p P" "\<And>a. within gate_quiet (k a)"
    and "\<And>e events. P (Inl e) events \<Longrightarrow> T (Inl e) events"
    and "\<And>a events w r w'. P (Inr a) events \<Longrightarrow> k a w = (r, w') \<Longrightarrow> T r events"
  shows "does who (bind p k) T"
proof (rule does_bind [OF assms(1), where Q = "\<lambda>a r events. events = [] \<and> (\<exists>w w'. k a w = (r, w'))"])
  show "does who (k a) (\<lambda>r events. events = [] \<and> (\<exists>w w'. k a w = (r, w')))" for a
    by (rule does_quiet [OF assms(2)]) blast
qed (use assms(3,4) in auto)

definition consumes :: "string \<Rightarrow> string \<Rightarrow> exn + bool \<Rightarrow> gate_event list \<Rightarrow> bool" where
  "consumes email vcode r events =
     (case r of
        Inr True \<Rightarrow> events = [Consumed email vcode]
      | Inr False \<Rightarrow> events = [Rejected email]
      | Inl _ \<Rightarrow> events = [] \<or> events = [Consumed email vcode] \<or> events = [Rejected email])"

lemma does_consume: "does who (execute_consume S options who email vcode attempts) (consumes email vcode)"
  unfolding execute_consume_def
proof (rule does_then)
  let ?ev = "\<lambda>reply. if rd_integer reply = 1 then [Consumed email vcode] else [Rejected email]"
  show "does who (gate_redis S options who (answering integer_reply (\<lambda>now. consume_script (gs_ttl S) now email vcode attempts)) ?ev)
      (\<lambda>r events. case r of Inr reply \<Rightarrow> events = ?ev reply
         | Inl _ \<Rightarrow> events = [] \<or> events = [Consumed email vcode] \<or> events = [Rejected email])"
    by (rule does_redis) auto
qed (auto simp: consumes_def check_reply_def ret_def raise_def bind_def split: if_splits bool.splits)

lemma does_generate: "does who (execute_generate S options who machine) (\<lambda>r events. events = [])"
proof -
  have redis: "does who (gate_redis S options who (answering integer_reply (\<lambda>now. redis_incr now (user_id_key t))) (\<lambda>_. []))
      (\<lambda>r events. events = [])" for t by (rule does_redis) auto
  have turn: "does who (user_id_turn S options who machine p) (\<lambda>r events. events = [])" if "does who p (\<lambda>r events. events = [])" for p
    unfolding user_id_turn_def
    by (rule does_after, blast, rule does_bind [OF redis], rule does_after, blast, rule does_if, rule does_ret, simp, rule that) auto
  have loop: "does who (user_id_loop S options who machine n) (\<lambda>r events. events = [])" for n
    by (induction n) (auto intro!: turn does_quiet [OF gate_quiet_stop])
  have "does who (bind gate_running (\<lambda>_. user_id_loop S options who machine n)) (\<lambda>r events. events = [])" for n
    by (rule does_after) (auto intro: loop)
  then show ?thesis unfolding does_def execute_generate_def by blast
qed

lemma does_exists: "does who (execute_user_exists S options who username email) (\<lambda>r events. events = [])"
  unfolding execute_user_exists_def by (rule does_mysql) auto

lemma does_info: "does who (execute_has_user_info S options who uid) (\<lambda>r events. events = [])"
  unfolding execute_has_user_info_def by (rule does_mysql) auto

lemma does_register:
  "does who (execute_register S options who uid username password email)
     (\<lambda>r events. (events = [] \<and> r \<noteq> Inr True) \<or> (events = [Registered uid username password email] \<and> r \<noteq> Inr False))"
  unfolding execute_register_def
proof (rule does_then)
  show "does who (mysql_query S options who (register_statement (gs_env S) uid username password email)
        (\<lambda>error. if error = 0 then [Registered uid username password email] else []))
      (\<lambda>r events. (events = [] \<and> r \<noteq> Inr 0 \<and> (\<forall>error. r = Inr error \<longrightarrow> error = 1062)) \<or>
         (events = [Registered uid username password email] \<and> (\<forall>error. r = Inr error \<longrightarrow> error = 0)))"
    by (rule does_mysql) (auto simp: register_statement_def split: sum.splits)
qed (auto simp: ret_def)

lemma does_update:
  "does who (execute_update S options who uid password)
     (\<lambda>r events. (events = [] \<and> r \<noteq> Inr ()) \<or> events = [Updated uid password])"
  unfolding execute_update_def by (rule does_mysql) auto

lemma does_find:
  "does who (execute_find_user S options who username)
     (\<lambda>r events. (events = [] \<and> (\<forall>row. r \<noteq> Inr (Some row))) \<or>
        (\<exists>row. events = [Found row] \<and> collate (gs_env S) (ac_username row) = collate (gs_env S) username \<and>
           (r = Inr (Some row) \<or> (\<exists>e. r = Inl e))))"
  unfolding execute_find_user_def
proof (rule does_then)
  show "does who (mysql_query S options who (find_statement (gs_env S) username) (\<lambda>row. case row of None \<Rightarrow> [] | Some r \<Rightarrow> [Found r]))
      (\<lambda>r events. (events = [] \<and> (\<forall>row. r \<noteq> Inr (Some row))) \<or>
        (\<exists>row. events = [Found row] \<and> collate (gs_env S) (ac_username row) = collate (gs_env S) username \<and>
           (r = Inr (Some row) \<or> (\<exists>e. r = Inl e))))"
    by (rule does_mysql) (auto simp: find_statement_def dest: first_row_SomeD split: option.splits)
  show "within gate_quiet (case row of None \<Rightarrow> ret None
      | Some r \<Rightarrow> if bounded_row r then ret (Some r) else raise (RuntimeError ''invalid bounded query result''))" for row
    by (auto split: option.splits)
qed (auto simp: ret_def raise_def split: option.splits if_splits)

lemma does_token:
  "does who (execute_set_token S options who uid token ttl)
     (\<lambda>r events. (events = [] \<and> r \<noteq> Inr ()) \<or> events = [Token_set uid token ttl])"
  unfolding execute_set_token_def
proof (rule does_then)
  show "does who (gate_redis S options who (answering (\<lambda>_. status_reply ''OK'') (\<lambda>now. redis_setex now (chat_auth_key uid) ttl token))
        (\<lambda>_. [Token_set uid token ttl]))
      (\<lambda>r events. (events = [] \<and> (\<exists>e. r = Inl e)) \<or> events = [Token_set uid token ttl])"
    by (rule does_redis) auto
qed (auto simp: check_reply_def ret_def raise_def)

section \<open>Mail\<close>

definition unaccepted :: "smtp_connection \<Rightarrow> smtp_connection \<Rightarrow> bool" where
  "unaccepted c c' = (sk_accepted c' = sk_accepted c)"

interpretation pending: step_relation unaccepted
  by unfold_locales (auto simp: unaccepted_def)

lemma pending_parts:
  "within unaccepted (smtp_command text expected)" "within unaccepted smtp_reply" "within unaccepted (smtp_dial peer options)"
  "within unaccepted (smtp_wrap peer)"
proof -
  show "within unaccepted (smtp_command text expected)"
    unfolding within_def unaccepted_def using smtp_command_sends(3) by blast
  show "within unaccepted smtp_reply"
    using smtp_reply_reads unfolding within_def unaccepted_def only_reads_def by fastforce
  show "within unaccepted (smtp_dial peer options)" "within unaccepted (smtp_wrap peer)"
    by (auto simp: within_def unaccepted_def smtp_dial_def smtp_wrap_def Let_def split: sum.splits)
qed

lemma pending_login: "within unaccepted (smtp_login peer options)"
  unfolding smtp_login_def smtp_starttls_def by (intro pending.within_intros pending_parts)

text \<open>The mail is accepted exactly when sending returns, and then closing returns as well.\<close>

lemma smtp_send_accepted:
  assumes "smtp_send base64 peer options mail (new_smtp peer) = (r, c)"
  shows "sk_accepted c \<longleftrightarrow> r = Inr ()"
proof -
  obtain r1 c1 where login: "smtp_login peer options (new_smtp peer) = (r1, c1)" by fastforce
  have c1: "\<not> sk_accepted c1" using withinD [OF pending_login login] by (simp add: unaccepted_def new_smtp_def)
  show ?thesis
  proof (cases r1)
    case (Inl e)
    with assms login c1 show ?thesis by (auto simp: smtp_send_split bind_def)
  next
    case (Inr u)
    with assms login have rest: "smtp_deliver base64 options mail c1 = (r, c)" by (simp add: smtp_send_split bind_def)
    define main where "main =
      bind (smtp_command (''AUTH LOGIN'' @ crlf) 334) (\<lambda>_.
      bind (smtp_command (base64 (sp_user options) @ crlf) 334) (\<lambda>_.
      bind (smtp_command (base64 (sp_password options) @ crlf) 235) (\<lambda>_.
      bind (smtp_command (''MAIL FROM:<'' @ sp_user options @ ''>'' @ crlf) 250) (\<lambda>_.
      bind (smtp_command (''RCPT TO:<'' @ ma_recipient mail @ ''>'' @ crlf) 250) (\<lambda>_.
      bind (smtp_command (''DATA'' @ crlf) 354) (\<lambda>_.
      smtp_command (smtp_body (sp_user options) mail) 250))))))"
    have split: "smtp_deliver base64 options mail = bind main (\<lambda>_. bind (\<lambda>c. (Inr (), c\<lparr>sk_accepted := True\<rparr>))
        (\<lambda>_. catch (smtp_command (''QUIT'' @ crlf) 221) (\<lambda>e c. (Inr (), smtp_abort c))))"
      by (simp add: smtp_deliver_def main_def bind_assoc)
    obtain r2 c2 where main: "main c1 = (r2, c2)" by fastforce
    have "within unaccepted main" unfolding main_def by (intro pending.within_intros pending_parts)
    from withinD [OF this main] c1 have c2: "\<not> sk_accepted c2" by (simp add: unaccepted_def)
    show ?thesis
    proof (cases r2)
      case (Inl e)
      with rest split main c2 show ?thesis by (auto simp: bind_def)
    next
      case (Inr v)
      then have "catch (smtp_command (''QUIT'' @ crlf) 221) (\<lambda>e c. (Inr (), smtp_abort c)) (c2\<lparr>sk_accepted := True\<rparr>) = (r, c)"
        using rest split main by (simp add: bind_def)
      then have "r = Inr ()" by (auto simp: catch_def split: prod.splits sum.splits)
      with rest deliver_sends(1) show ?thesis by blast
    qed
  qed
qed

lemma does_mail:
  "does who (execute_mail S options who email vcode ttl)
     (\<lambda>r events. (events = [] \<and> r \<noteq> Inr ()) \<or> (events = [Mailed email vcode] \<and> r = Inr ()))"
proof -
  let ?P = "\<lambda>r events. (events = [] \<and> r \<noteq> Inr ()) \<or> (events = [Mailed email vcode] \<and> r = Inr ())"
  have exch: "does who (smtp_exchange S options who \<lparr>ma_recipient = email, ma_code = vcode, ma_ttl_seconds = ttl\<rparr>) ?P"
    unfolding does_def
  proof (intro allI impI)
    fix w r w' assume w: "avoids who w"
      and run: "smtp_exchange S options who \<lparr>ma_recipient = email, ma_code = vcode, ma_ttl_seconds = ttl\<rparr> w = (r, w')"
    let ?mail = "\<lparr>ma_recipient = email, ma_code = vcode, ma_ttl_seconds = ttl\<rparr>"
    let ?peer = "gs_smtp S (gw_tick w)"
    obtain r1 c where send: "smtp_send (gs_base64 S) ?peer (smtp_config options) ?mail (new_smtp ?peer) = (r1, c)" by fastforce
    note acc = smtp_send_accepted [OF send]
    have "(\<exists>e. r = Inl e \<and> r1 \<noteq> Inr ()) \<or> (r = Inr () \<and> r1 = Inr ())" "gw_slots w' = gw_slots w"
      "gw_log w' = gw_log w @ (if r1 = Inr () then [(who, Mailed email vcode)] else [])"
      using run send acc by (auto simp: smtp_exchange_def Let_def smtp_close_def smtp_abort_def split: sum.splits prod.splits if_splits)
    then show "avoids who w' \<and> (\<exists>events. own who w' = own who w @ events \<and> ?P r events)"
      using w by (auto simp: own_def avoids_def)
  qed
  show ?thesis unfolding execute_mail_def
    by (rule does_after, blast, rule does_after, blast, rule does_after, blast, rule exch) auto
qed

lemma does_issue:
  "does who (execute_issue S options who email vcode ttl cooldown)
     (\<lambda>r events. (events = [] \<and> r \<noteq> Inr True) \<or> (events = [Issued email vcode] \<and> r \<noteq> Inr False))"
  unfolding execute_issue_def
proof (rule does_then)
  let ?ev = "\<lambda>reply. if rd_integer reply = 1 then [Issued email vcode] else []"
  show "does who (gate_redis S options who (answering integer_reply (\<lambda>now. issue_script now email vcode ttl cooldown)) ?ev)
      (\<lambda>r events. case r of Inr reply \<Rightarrow> events = ?ev reply | Inl _ \<Rightarrow> events = [] \<or> events = [Issued email vcode])"
    by (rule does_redis) auto
qed (auto simp: check_reply_def ret_def raise_def bind_def split: if_splits)

lemma does_clear:
  "does who (execute_clear S options who email vcode) (\<lambda>r events. events = [] \<or> events = [Cleared email vcode])"
  unfolding execute_clear_def
proof (rule does_then)
  let ?ev = "\<lambda>reply. if rd_integer reply = 1 then [Cleared email vcode] else []"
  show "does who (gate_redis S options who (answering integer_reply (\<lambda>now. clear_script now email vcode)) ?ev)
      (\<lambda>r events. events = [] \<or> events = [Cleared email vcode])"
    by (rule does_redis) auto
qed (auto simp: check_reply_def ret_def raise_def bind_def split: if_splits)

lemma does_get: "does who (execute_get S options who email) (\<lambda>r events. events = [])"
  unfolding execute_get_def
proof (rule does_then)
  show "does who (gate_redis S options who (answering string_reply (\<lambda>now. redis_get now (code_key email))) (\<lambda>_. [])) (\<lambda>r events. events = [])"
    by (rule does_redis) auto
qed (auto simp: check_reply_def ret_def raise_def bind_def split: if_splits)

section \<open>The handlers\<close>

lemma code_nonzero [simp]: "code UserExist \<noteq> 0" "code VerificationCodeInvalid \<noteq> 0" "code NotFound \<noteq> 0" "code EmailNotMatch \<noteq> 0"
  "code DependencyUnavailable \<noteq> 0"
  by simp_all

definition signed_up :: "account_request \<Rightarrow> exn + sign_up_response \<Rightarrow> gate_event list \<Rightarrow> bool" where
  "signed_up request r events =
     ((events = [] \<or> events = [Rejected (text_of (aq_email request))] \<or>
       events = [Consumed (text_of (aq_email request)) (text_of (aq_verifycode request))]) \<and>
        (\<forall>response. r = Inr response \<longrightarrow> up_error response \<noteq> Some 0) \<or>
      (\<exists>uid. events = [Consumed (text_of (aq_email request)) (text_of (aq_verifycode request)),
          Registered uid (text_of (aq_username request)) (text_of (aq_password request)) (text_of (aq_email request))] \<and>
        (\<forall>response. r = Inr response \<longrightarrow> up_error response = Some 0 \<and> up_uid response = Some uid)))"

lemma sign_up_does: "does who (handle_sign_up S options who request) (signed_up request)"
proof -
  let ?u = "text_of (aq_username request)" and ?p = "text_of (aq_password request)" and ?e = "text_of (aq_email request)"
    and ?c = "text_of (aq_verifycode request)"
  let ?store = "\<lambda>uid. bind (gate_submit S options (execute_register S options who uid ?u ?p ?e)) (\<lambda>stored.
      if \<not> stored then ret (empty_sign_up\<lparr>up_error := Some (code UserExist)\<rparr>)
      else ret \<lparr>up_error = Some 0, up_uid = Some uid, up_username = Some ?u, up_email = Some ?e\<rparr>)"
  let ?R = "\<lambda>uid r events. (events = [] \<and> (\<forall>response. r = Inr response \<longrightarrow> up_error response \<noteq> Some 0)) \<or>
      (events = [Registered uid ?u ?p ?e] \<and> (\<forall>response. r = Inr response \<longrightarrow> up_error response = Some 0 \<and> up_uid response = Some uid))"
  have store: "does who (?store uid) (?R uid)" for uid
    by (rule does_then [OF does_submit [OF does_register]]) (auto simp: ret_def empty_sign_up_def split: if_splits)
  let ?tail = "bind (gate_submit S options (execute_generate S options who (go_machine_id options))) ?store"
  have tail: "does who ?tail (\<lambda>r events. \<exists>uid. ?R uid r events)"
    by (rule does_bind [OF does_submit [OF does_generate] store]) auto
  let ?checked = "bind (gate_submit S options (execute_consume S options who ?e ?c (go_max_attempts options))) (\<lambda>consumed.
      if \<not> consumed then ret (empty_sign_up\<lparr>up_error := Some (code VerificationCodeInvalid)\<rparr>) else ?tail)"
  have checked: "does who ?checked (signed_up request)"
  proof (rule does_bind [OF does_submit [OF does_consume]])
    show "does who (if \<not> consumed then ret (empty_sign_up\<lparr>up_error := Some (code VerificationCodeInvalid)\<rparr>) else ?tail)
        (\<lambda>r events. if consumed then \<exists>uid. ?R uid r events
          else events = [] \<and> (\<forall>response. r = Inr response \<longrightarrow> up_error response \<noteq> Some 0))" for consumed
      using tail by (cases consumed) (auto intro!: does_ret simp: empty_sign_up_def)
    show "signed_up request r (events @ events')"
      if "consumes ?e ?c (Inr consumed) events" "if consumed then \<exists>uid. ?R uid r events'
          else events' = [] \<and> (\<forall>response. r = Inr response \<longrightarrow> up_error response \<noteq> Some 0)" for consumed events r events'
      using that by (cases consumed) (auto simp: consumes_def signed_up_def)
  qed (auto simp: consumes_def signed_up_def)
  show ?thesis
    unfolding handle_sign_up_def Let_def
  proof (rule does_bind [OF does_submit [OF does_exists]])
    show "does who (if taken then ret (empty_sign_up\<lparr>up_error := Some (code UserExist)\<rparr>) else ?checked) (signed_up request)" for taken
      using checked by (auto intro!: does_ret simp: signed_up_def empty_sign_up_def)
  qed (auto simp: signed_up_def)
qed

definition password_reset :: "env \<Rightarrow> account_request \<Rightarrow> exn + reset_password_response \<Rightarrow> gate_event list \<Rightarrow> bool" where
  "password_reset E request r events =
     (let email = text_of (aq_email request); vcode = text_of (aq_verifycode request); password = text_of (aq_password request) in
      (events = [] \<or>
       (\<exists>row. collate E (ac_username row) = collate E (text_of (aq_username request)) \<and>
          (events = [Found row] \<or> (ac_email row = email \<and>
             (events = [Found row, Rejected email] \<or> events = [Found row, Consumed email vcode]))))) \<and>
        (\<forall>response. r = Inr response \<longrightarrow> rp_error response \<noteq> Some 0) \<or>
      (\<exists>row. collate E (ac_username row) = collate E (text_of (aq_username request)) \<and> ac_email row = email \<and>
         events = [Found row, Consumed email vcode, Updated (ac_uid row) password]))"

lemma reset_password_does: "does who (handle_reset_password S options who request) (password_reset (gs_env S) request)"
proof -
  let ?u = "text_of (aq_username request)" and ?p = "text_of (aq_password request)" and ?e = "text_of (aq_email request)"
    and ?c = "text_of (aq_verifycode request)"
  let ?fail = "\<lambda>r :: exn + reset_password_response. \<forall>response. r = Inr response \<longrightarrow> rp_error response \<noteq> Some 0"
  let ?store = "\<lambda>row. bind (gate_submit S options (execute_update S options who (ac_uid row) ?p)) (\<lambda>_.
      ret \<lparr>rp_error = Some 0, rp_username = Some ?u\<rparr>)"
  have store: "does who (?store row) (\<lambda>r events. (events = [] \<and> ?fail r) \<or> events = [Updated (ac_uid row) ?p])" for row
    by (rule does_then [OF does_submit [OF does_update]]) auto
  let ?checked = "\<lambda>row. bind (gate_submit S options (execute_consume S options who ?e ?c (go_max_attempts options))) (\<lambda>consumed.
      if \<not> consumed then ret \<lparr>rp_error = Some (code VerificationCodeInvalid), rp_username = None\<rparr> else ?store row)"
  let ?R = "\<lambda>row r events. ((events = [] \<or> events = [Rejected ?e] \<or> events = [Consumed ?e ?c]) \<and> ?fail r) \<or>
      events = [Consumed ?e ?c, Updated (ac_uid row) ?p]"
  have checked: "does who (?checked row) (?R row)" for row
  proof (rule does_bind [OF does_submit [OF does_consume]])
    show "does who (if \<not> consumed then ret \<lparr>rp_error = Some (code VerificationCodeInvalid), rp_username = None\<rparr> else ?store row)
        (\<lambda>r events. (events = [] \<and> ?fail r) \<or> (consumed \<and> events = [Updated (ac_uid row) ?p]))" for consumed
      using store by (cases consumed) (auto intro!: does_ret)
    show "?R row r (events @ events')"
      if "consumes ?e ?c (Inr consumed) events" "(events' = [] \<and> ?fail r) \<or> (consumed \<and> events' = [Updated (ac_uid row) ?p])" for consumed events r events'
      using that by (cases consumed) (auto simp: consumes_def)
  qed (auto simp: consumes_def)
  let ?rest = "\<lambda>account. case account of
        None \<Rightarrow> ret \<lparr>rp_error = Some (code NotFound), rp_username = None\<rparr>
      | Some row \<Rightarrow> if ac_email row \<noteq> ?e then ret \<lparr>rp_error = Some (code EmailNotMatch), rp_username = None\<rparr> else ?checked row"
  show ?thesis
    unfolding handle_reset_password_def Let_def
  proof (rule does_bind [OF does_submit [OF does_find], where Q = "\<lambda>account r events. case account of
        None \<Rightarrow> events = [] \<and> ?fail r | Some row \<Rightarrow> (events = [] \<and> ?fail r) \<or> (ac_email row = ?e \<and> ?R row r events)"])
    show "does who (?rest account) (\<lambda>r events. case account of
        None \<Rightarrow> events = [] \<and> ?fail r | Some row \<Rightarrow> (events = [] \<and> ?fail r) \<or> (ac_email row = ?e \<and> ?R row r events))" for account
    proof (cases account)
      case (Some row)
      have "does who (?checked row) (\<lambda>r events. (events = [] \<and> ?fail r) \<or> (ac_email row = ?e \<and> ?R row r events))" if "ac_email row = ?e"
        by (rule does_mono [OF checked]) (use that in auto)
      then show ?thesis unfolding Some by (auto intro!: does_ret)
    qed (auto intro!: does_ret)
  qed (auto simp: password_reset_def Let_def split: option.splits)
qed

definition hex_alphabet :: string where
  "hex_alphabet = ''0123456789abcdef''"

definition hex_text :: "string \<Rightarrow> bool" where
  "hex_text s = list_all (\<lambda>c. c \<in> set hex_alphabet) s"

lemma random_bytes_length:
  "random_bytes_from n data source = (Inr bytes, rest) \<Longrightarrow> length bytes = length data + n"
  by (induction n data source rule: random_bytes_from.induct) (auto simp: Let_def min_def split: if_splits)

lemma hex_digit_hex: "n < 16 \<Longrightarrow> hex_digit n \<in> set hex_alphabet"
  unfolding hex_digit_def hex_alphabet_def by (rule nth_mem) simp

lemma chat_token_shape:
  assumes "chat_token w = (Inr token, w')"
  shows "length token = 64 \<and> hex_text token"
proof -
  obtain data w1 where data: "random_bytes 32 w = (Inr data, w1)"
    and token: "token = concat (map (\<lambda>byte. [hex_digit (of_char byte div 16), hex_digit (of_char byte mod 16)]) data)"
    using assms by (auto simp: chat_token_def ret_def elim!: bind_Inr)
  have "length data = 32" using data random_bytes_length [of 32 "''''"] by (auto simp: random_bytes_def split: prod.splits)
  moreover have "length (concat (map (\<lambda>byte. [hex_digit (of_char byte div 16), hex_digit (of_char byte mod 16)]) data)) = 2 * length data"
    for data :: string by (induction data) auto
  moreover have "hex_text (concat (map (\<lambda>byte. [hex_digit (of_char byte div 16), hex_digit (of_char byte mod 16)]) data))" for data :: string
  proof (induction data)
    case (Cons byte data)
    have "(of_char byte :: nat) < 256" by simp
    then have "(of_char byte :: nat) div 16 < 16" "(of_char byte :: nat) mod 16 < 16" by (auto intro: less_mult_imp_div_less)
    with Cons show ?case by (auto simp: hex_text_def intro: hex_digit_hex)
  qed (simp add: hex_text_def)
  ultimately show ?thesis using token by simp
qed

lemma does_pick: "does who (execute_pick S uid) (\<lambda>r events. events = [])"
  by (rule does_quiet [OF gate_quiet_pick]) simp

definition signed_in :: "env \<Rightarrow> sign_in_request \<Rightarrow> exn + sign_in_response \<Rightarrow> gate_event list \<Rightarrow> bool" where
  "signed_in E request r events =
     ((events = [] \<or> (\<exists>row. events = [Found row])) \<and> (\<forall>response. r = Inr response \<longrightarrow> ip_error response = Some (- 1)) \<or>
      (\<exists>row token. events = [Found row, Token_set (ac_uid row) token 900] \<and>
         collate E (ac_username row) = collate E (text_of (iq_username request)) \<and> ac_password row = text_of (iq_password request) \<and>
         length token = 64 \<and> hex_text token \<and>
         (\<forall>response. r = Inr response \<longrightarrow> ip_error response = Some 0 \<and> ip_uid response = Some (ac_uid row) \<and>
            ip_chat_token response = Some token \<and> ip_chat_token_expires_in response = Some 900)))"

lemma sign_in_does: "does who (handle_sign_in S options who request) (signed_in (gs_env S) request)"
proof -
  let ?issue = "\<lambda>row node initialized. bind chat_token (\<lambda>token.
      bind (gate_submit S options (execute_set_token S options who (ac_uid row) token (15 * 60))) (\<lambda>_.
      ret \<lparr>ip_error = Some 0, ip_init = Some (if initialized then 0 else 1), ip_uid = Some (ac_uid row),
           ip_ip = Some (pn_host node), ip_port = Some (pn_port node), ip_gateway_id = Some (pn_id node),
           ip_chat_token = Some token, ip_chat_token_expires_in = Some (15 * 60)\<rparr>))"
  let ?R = "\<lambda>row r events. (events = [] \<and> (\<exists>e. r = Inl e)) \<or>
      (\<exists>token. events = [Token_set (ac_uid row) token 900] \<and> length token = 64 \<and> hex_text token \<and>
         (\<forall>response. r = Inr response \<longrightarrow> ip_error response = Some 0 \<and> ip_uid response = Some (ac_uid row) \<and>
            ip_chat_token response = Some token \<and> ip_chat_token_expires_in response = Some 900))"
  have issue: "does who (?issue row node initialized) (?R row)" for row node initialized
  proof (rule does_bind)
    show "does who chat_token (\<lambda>r events. events = [] \<and> (\<forall>token. r = Inr token \<longrightarrow> length token = 64 \<and> hex_text token))"
      by (rule does_quiet) (auto dest: chat_token_shape)
    let ?final = "\<lambda>token. \<lparr>ip_error = Some 0, ip_init = Some (if initialized then 0 else 1), ip_uid = Some (ac_uid row),
           ip_ip = Some (pn_host node), ip_port = Some (pn_port node), ip_gateway_id = Some (pn_id node),
           ip_chat_token = Some token, ip_chat_token_expires_in = Some (15 * 60)\<rparr>"
    show "does who (bind (gate_submit S options (execute_set_token S options who (ac_uid row) token (15 * 60))) (\<lambda>_. ret (?final token)))
        (\<lambda>r events. (events = [] \<and> (\<exists>e. r = Inl e)) \<or>
           (events = [Token_set (ac_uid row) token 900] \<and> (\<forall>response. r = Inr response \<longrightarrow> response = ?final token)))" for token
    proof (rule does_then [OF does_submit [OF does_token]])
      show "within gate_quiet (ret (?final token))" for u by (rule gquiet.within_ret)
    qed (auto simp: ret_def)
  qed auto
  let ?located = "\<lambda>row. bind (gate_submit S options (execute_pick S (ac_uid row))) (\<lambda>node.
      bind (gate_submit S options (execute_has_user_info S options who (ac_uid row))) (\<lambda>initialized. ?issue row node initialized))"
  have info: "does who (bind (gate_submit S options (execute_has_user_info S options who (ac_uid row))) (\<lambda>initialized. ?issue row node initialized))
      (?R row)" for row node
    by (rule does_bind [OF does_submit [OF does_info] issue]) auto
  have located: "does who (?located row) (?R row)" for row
    by (rule does_bind [OF does_submit [OF does_pick] info]) auto
  let ?refuse = "ret (empty_sign_in\<lparr>ip_error := Some (- 1)\<rparr>) :: (gate_world, sign_in_response) prog"
  let ?rest = "\<lambda>account. case account of None \<Rightarrow> ?refuse
      | Some row \<Rightarrow> if ac_password row \<noteq> text_of (iq_password request) then ?refuse else ?located row"
  show ?thesis
    unfolding handle_sign_in_def
  proof (rule does_bind [OF does_submit [OF does_find], where Q = "\<lambda>account r events.
        (events = [] \<and> (\<forall>response. r = Inr response \<longrightarrow> ip_error response = Some (- 1))) \<or>
        (\<exists>row. account = Some row \<and> ac_password row = text_of (iq_password request) \<and> ?R row r events)"])
    show "does who (?rest account) (\<lambda>r events.
        (events = [] \<and> (\<forall>response. r = Inr response \<longrightarrow> ip_error response = Some (- 1))) \<or>
        (\<exists>row. account = Some row \<and> ac_password row = text_of (iq_password request) \<and> ?R row r events))" for account
    proof (cases account)
      case (Some row)
      have "does who (?located row) (\<lambda>r events.
          (events = [] \<and> (\<forall>response. r = Inr response \<longrightarrow> ip_error response = Some (- 1))) \<or>
          (\<exists>row'. account = Some row' \<and> ac_password row' = text_of (iq_password request) \<and> ?R row' r events))"
        if "ac_password row = text_of (iq_password request)"
        by (rule does_mono [OF located]) (use that Some in blast)
      then show ?thesis unfolding Some by (auto intro!: does_ret simp: empty_sign_in_def)
    qed (auto intro!: does_ret simp: empty_sign_in_def)
  qed (auto simp: signed_in_def)
qed

definition verification_sent :: "gate_options \<Rightarrow> verification_request \<Rightarrow> exn + verification_response \<Rightarrow> gate_event list \<Rightarrow> bool" where
  "verification_sent options request r events =
     (let email = text_of (vq_email request) in
      events = [] \<and> (\<forall>response. r = Inr response \<longrightarrow> vp_issued response \<noteq> Some True) \<or>
      (\<exists>vcode. events = [Issued email vcode, Mailed email vcode] \<and> go_email_enabled options) \<or>
      (\<exists>vcode. events = [Issued email vcode] \<and> (go_email_enabled options \<longrightarrow> (\<exists>e. r = Inl e))) \<or>
      (\<exists>vcode e. events = [Issued email vcode, Cleared email vcode] \<and> r = Inl e))"

lemma verification_does: "does who (handle_verification S options who request) (verification_sent options request)"
proof (cases "\<not> go_email_enabled options \<and> \<not> go_expose_code options")
  case True
  then show ?thesis
    unfolding handle_verification_def by (auto intro!: does_ret simp: verification_sent_def empty_verification_def)
next
  case False
  let ?e = "text_of (vq_email request)"
  let ?ttl = "go_code_ttl_seconds options"
  let ?undo = "\<lambda>vcode failure. bind (catch (gate_submit S options (execute_clear S options who ?e vcode)) (\<lambda>_. ret False))
      (\<lambda>_. raise failure :: (gate_world, unit) prog)"
  let ?mail = "\<lambda>vcode. catch (gate_submit S options (execute_mail S options who ?e vcode ?ttl)) (?undo vcode)"
  have undo: "does who (?undo vcode failure) (\<lambda>r events. (events = [] \<or> events = [Cleared ?e vcode]) \<and> (\<exists>e. r = Inl e))" for vcode failure
  proof (rule does_then)
    show "does who (catch (gate_submit S options (execute_clear S options who ?e vcode)) (\<lambda>_. ret False))
        (\<lambda>r events. (events = [] \<or> events = [Cleared ?e vcode]) \<and> (\<exists>b. r = Inr b))"
      by (rule does_catch [OF does_submit [OF does_clear], where Q = "\<lambda>e r events. events = [] \<and> (\<exists>b. r = Inr b)"]) (auto intro!: does_ret)
  qed (auto simp: raise_def)
  have mail: "does who (?mail vcode) (\<lambda>r events. (events = [Mailed ?e vcode] \<and> r = Inr ()) \<or>
      ((events = [] \<or> events = [Cleared ?e vcode]) \<and> (\<exists>e. r = Inl e)))" for vcode
    by (rule does_catch [OF does_submit [OF does_mail] undo]) auto
  let ?respond = "\<lambda>issued vcode. bind (if \<not> issued \<and> go_expose_code options then gate_submit S options (execute_get S options who ?e) else ret vcode)
      (\<lambda>vcode. ret (empty_verification\<lparr>vp_error := Some 0, vp_email := Some ?e, vp_issued := Some issued,
         vp_verification_code := (if go_expose_code options then Some vcode else None)\<rparr>))"
  have respond: "does who (?respond issued vcode) (\<lambda>r events. events = [] \<and> (\<forall>response. r = Inr response \<longrightarrow> vp_issued response = Some issued))" for issued vcode
  proof (rule does_then)
    show "does who (if \<not> issued \<and> go_expose_code options then gate_submit S options (execute_get S options who ?e) else ret vcode)
        (\<lambda>r events. events = [])"
      by (auto intro: does_submit [OF does_get] does_ret)
  qed (auto simp: ret_def)
  let ?send = "\<lambda>issued vcode. bind (if issued \<and> go_email_enabled options then ?mail vcode else ret ()) (\<lambda>_. ?respond issued vcode)"
  let ?Q = "\<lambda>vcode issued r events.
      (events = [] \<and> (\<not> issued \<or> \<not> go_email_enabled options \<or> (\<exists>e. r = Inl e)) \<and> (\<forall>response. r = Inr response \<longrightarrow> vp_issued response = Some issued)) \<or>
      (events = [Mailed ?e vcode] \<and> issued \<and> go_email_enabled options) \<or>
      (events = [Cleared ?e vcode] \<and> issued \<and> (\<exists>e. r = Inl e))"
  have send: "does who (?send issued vcode) (?Q vcode issued)" for issued vcode
  proof (rule does_bind [OF _ respond])
    show "does who (if issued \<and> go_email_enabled options then ?mail vcode else ret ())
        (\<lambda>r events. if issued \<and> go_email_enabled options
           then (events = [Mailed ?e vcode] \<and> r = Inr ()) \<or> ((events = [] \<or> events = [Cleared ?e vcode]) \<and> (\<exists>e. r = Inl e))
           else events = [] \<and> r = Inr ())"
      using mail [of vcode] by (auto intro: does_ret)
  qed (auto split: if_splits)
  have main: "does who (bind (gate_submit S options (execute_issue S options who ?e vcode ?ttl (go_cooldown_seconds options)))
      (\<lambda>issued. ?send issued vcode)) (verification_sent options request)" for vcode
    by (rule does_bind [OF does_submit [OF does_issue] send]) (auto simp: verification_sent_def Let_def)
  show ?thesis
    unfolding handle_verification_def Let_def if_not_P [OF False]
    by (rule does_after [OF gate_quiet_random(3) main]) (auto simp: verification_sent_def)
qed

section \<open>Dispatch\<close>

lemma gate_quiet_encode: "within gate_quiet (encode J response)" "within gate_quiet (error_result J status e)" "within gate_quiet (health J)"
proof -
  show enc: "within gate_quiet (encode J response)" for response by (auto simp: encode_def split: sum.splits)
  show "within gate_quiet (error_result J status e)" "within gate_quiet (health J)"
    unfolding error_result_def health_def by (intro gquiet.within_intros enc)+
qed

lemma does_with_permit:
  assumes "does who body P" "\<And>e. P (Inl e) []"
  shows "does who (with_permit bytes body) P"
  unfolding does_def
proof (intro allI impI)
  fix w r w' assume w: "avoids who w" and run: "with_permit bytes body w = (r, w')"
  obtain r1 w1 where admit: "admit bytes w = (r1, w1)" by fastforce
  then have same: "gw_slots w1 = gw_slots w" "gw_log w1 = gw_log w" by (auto simp: admit_def split: if_splits sum.splits prod.splits)
  show "avoids who w' \<and> (\<exists>events. own who w' = own who w @ events \<and> P r events)"
  proof (cases r1)
    case (Inl e)
    with run admit same w assms(2) show ?thesis by (auto simp: with_permit_def bind_def own_def avoids_def)
  next
    case (Inr units)
    obtain r2 w2 where body: "body w1 = (r2, w2)" by fastforce
    have "r = r2" "w' = w2\<lparr>gw_requests := release units (gw_requests w2)\<rparr>"
      using run admit Inr body by (auto simp: with_permit_def bind_def)
    moreover have "avoids who w1" "own who w1 = own who w" using w same by (simp_all add: avoids_def own_def)
    ultimately show ?thesis using doesD [OF assms(1) _ body] by (auto simp: avoids_def own_def)
  qed
qed

lemma does_invoke:
  assumes "\<And>request. does who (handle request) (P request)"
  shows "does who (invoke J decode handle wrap body)
    (\<lambda>r events. events = [] \<or> (\<exists>request r1. decode body = Inr request \<and> P request r1 events))"
  unfolding invoke_def
proof (rule does_with_permit)
  let ?T = "\<lambda>r events. events = [] \<or> (\<exists>request r1. decode body = Inr request \<and> P request r1 events)"
  show "does who (case decode body of Inl e \<Rightarrow> error_result J 200 e
      | Inr request \<Rightarrow> bind (handle request) (\<lambda>response. bind (encode J (wrap response)) (\<lambda>encoded. ret \<lparr>ht_status = 200, ht_body = encoded\<rparr>))) ?T"
  proof (cases "decode body")
    case (Inl e)
    have "does who (error_result J 200 e) ?T" by (rule does_quiet [OF gate_quiet_encode(2)]) simp
    with Inl show ?thesis by simp
  next
    case (Inr request)
    have "does who (bind (handle request) (\<lambda>response. bind (encode J (wrap response)) (\<lambda>encoded. ret \<lparr>ht_status = 200, ht_body = encoded\<rparr>))) ?T"
      by (rule does_then [OF assms]) (auto intro: gquiet.within_bind gate_quiet_encode simp: Inr)
    with Inr show ?thesis by simp
  qed
qed simp

lemma gateway_does: "does who (handle_gateway S options request) (\<lambda>r events. events = [])"
  unfolding handle_gateway_def by (rule does_then [OF does_submit [OF does_pick]]) auto

definition dispatched :: "gate_services \<Rightarrow> gate_options \<Rightarrow> json \<Rightarrow> gate_route \<Rightarrow> string \<Rightarrow> gate_event list \<Rightarrow> bool" where
  "dispatched S options J route body events =
     (events = [] \<or>
      (case route of
         GET_test \<Rightarrow> False
       | POST_verifycode \<Rightarrow> \<exists>request r. decode_verification J body = Inr request \<and> verification_sent options request r events
       | POST_signIn \<Rightarrow> \<exists>request r. decode_sign_in J body = Inr request \<and> signed_in (gs_env S) request r events
       | POST_arrhythmia \<Rightarrow> False
       | POST_signUp \<Rightarrow> \<exists>request r. decode_sign_up J body = Inr request \<and> signed_up request r events
       | POST_forget_password \<Rightarrow> \<exists>request r. decode_reset_password J body = Inr request \<and> password_reset (gs_env S) request r events))"

lemma dispatch_does: "does who (gate_dispatch S options J who route body) (\<lambda>r. dispatched S options J route body)"
proof -
  have handler: "does who (route_handler S options J who route body) (\<lambda>r. dispatched S options J route body)"
  proof (cases route)
    case GET_test
    have "does who (health J) (\<lambda>r. dispatched S options J GET_test body)"
      by (rule does_quiet [OF gate_quiet_encode(3)]) (simp add: dispatched_def)
    with GET_test show ?thesis by simp
  next
    case POST_verifycode
    show ?thesis unfolding POST_verifycode route_handler.simps
      by (rule does_mono [OF does_invoke [where handle = "handle_verification S options who", OF verification_does]]) (auto simp: dispatched_def)
  next
    case POST_signIn
    show ?thesis unfolding POST_signIn route_handler.simps
      by (rule does_mono [OF does_invoke [where handle = "handle_sign_in S options who", OF sign_in_does]]) (auto simp: dispatched_def)
  next
    case POST_arrhythmia
    show ?thesis unfolding POST_arrhythmia route_handler.simps
      by (rule does_mono [OF does_invoke [where handle = "handle_gateway S options", OF gateway_does]]) (auto simp: dispatched_def)
  next
    case POST_signUp
    show ?thesis unfolding POST_signUp route_handler.simps
      by (rule does_mono [OF does_invoke [where handle = "handle_sign_up S options who", OF sign_up_does]]) (auto simp: dispatched_def)
  next
    case POST_forget_password
    show ?thesis unfolding POST_forget_password route_handler.simps
      by (rule does_mono [OF does_invoke [where handle = "handle_reset_password S options who", OF reset_password_does]]) (auto simp: dispatched_def)
  qed
  show ?thesis
    unfolding gate_dispatch_def
  proof (rule does_catch [OF handler, where Q = "\<lambda>e r events. events = []"])
    show "does who (case e of Overloaded \<Rightarrow> error_result J 503 ResourceExhausted | Stopped \<Rightarrow> error_result J 503 DependencyUnavailable
        | _ \<Rightarrow> error_result J 200 DependencyUnavailable) (\<lambda>r events. events = [])" for e
      by (cases e) (auto intro: does_quiet [OF gate_quiet_encode(2)])
  qed auto
qed

context gate_relation begin

lemma dispatch_within:
  assumes permitted: "\<And>n (p :: (gate_world, http_result) prog). within R p \<Longrightarrow> within R (with_permit n p)"
  shows "within R (gate_dispatch S options J who route body)"
proof -
  note coded = within_quiet [OF gate_quiet_encode(1)] within_quiet [OF gate_quiet_encode(2)] within_quiet [OF gate_quiet_encode(3)]
  have invoked: "(\<And>request. within R (handle request)) \<Longrightarrow> within R (invoke J decode handle wrap body)"
    for decode and handle :: "'q \<Rightarrow> (gate_world, 'a) prog" and wrap
    unfolding invoke_def by (intro permitted) (auto split: sum.splits intro!: within_intros coded)
  have "within R (route_handler S options J who route body)"
    using handlers_within by (cases route) (auto intro: invoked coded)
  then show ?thesis
    unfolding gate_dispatch_def by (intro within_intros) (auto split: exn.splits intro: coded)
qed

end

lemma sound_permit: "within (gate_keeps S options) p \<Longrightarrow> within (gate_keeps S options) (with_permit n p)"
proof -
  assume p: "within (gate_keeps S options) p"
  have permit: "gate_keeps S options w (w\<lparr>gw_requests := b\<rparr>)" for w b by (simp add: gate_keeps_def keeps_gate_def gate_ok_def)
  have "within (gate_keeps S options) (\<lambda>w. case p w of (r, w1) \<Rightarrow> (r, w1\<lparr>gw_requests := release units (gw_requests w1)\<rparr>))" for units
    using sound.step_trans [OF withinD [OF p] permit] by (auto simp: within_def split: prod.splits)
  moreover have "within (gate_keeps S options) (admit n)"
    using permit sound.step_refl by (auto simp: within_def admit_def split: if_splits sum.splits prod.splits)
  ultimately show ?thesis unfolding with_permit_def by (intro sound.within_intros)
qed

lemma release_acquired: "acquire n b = (Inr units, b1) \<Longrightarrow> release units b1 = b"
  by (cases b) (auto simp: acquire_def release_def split: if_splits)

lemma same_permit: "within same_budget p \<Longrightarrow> within same_budget (with_permit n p)"
proof -
  assume p: "within same_budget p"
  show ?thesis
    unfolding within_def
  proof (intro allI impI)
    fix w r w' assume run: "with_permit n p w = (r, w')"
    obtain r1 w1 where admit: "admit n w = (r1, w1)" by fastforce
    show "same_budget w w'"
    proof (cases r1)
      case (Inl e)
      with admit have "w1 = w" by (auto simp: admit_def split: if_splits sum.splits prod.splits)
      with run admit Inl show ?thesis by (simp add: with_permit_def bind_def same_budget_def)
    next
      case (Inr units)
      with admit have w1: "acquire n (gw_requests w) = (Inr units, gw_requests w1)"
        by (auto simp: admit_def split: if_splits sum.splits prod.splits)
      obtain r2 w2 where body: "p w1 = (r2, w2)" by fastforce
      have "gw_requests w2 = gw_requests w1" using withinD [OF p body] by (simp add: same_budget_def)
      moreover have "w' = w2\<lparr>gw_requests := release units (gw_requests w2)\<rparr>" using run admit Inr body by (simp add: with_permit_def bind_def)
      ultimately show ?thesis using release_acquired [OF w1] by (simp add: same_budget_def)
    qed
  qed
qed

lemmas dispatch_sound = sound.dispatch_within [OF sound_permit]
lemmas dispatch_same = same.dispatch_within [OF same_permit]

end
