(* ===== verification/Gate_Properties.thy ===== *)
theory Gate_Properties
  imports Gate_Effects
begin

text \<open>
  Properties of the Gate: single use of verification codes, verified account changes, passwords and tokens, mail, the answers to HTTP
  requests, and sample runs that show their hypotheses can hold.
\<close>

section \<open>Sample runs\<close>

definition sample_gate :: gate_services where
  "sample_gate =
     \<lparr>gs_env = \<lparr>collate = (\<lambda>s. s), str_less = (\<lambda>_ _. False), varchar = (\<lambda>_ s. s), std_hash = (\<lambda>_. 0), current_time = ''now''\<rparr>,
      gs_resolve = (\<lambda>_ _. Inr ''10.0.0.9''), gs_connect = (\<lambda>_ _ _. Inr ()),
      gs_sentinel = (\<lambda>_ _ _ _. Some \<lparr>hr_type = REDIS_REPLY_ARRAY, hr_integer = 0, hr_str = None,
        hr_element = [Some ''10.0.0.9'', Some ''6379'']\<rparr>),
      gs_mysql = (\<lambda>_ _. Inr ()), gs_clock = (\<lambda>_. 1672531200001), gs_ttl = (\<lambda>ms. (ms + 500) div 1000),
      gs_uniform = (\<lambda>_. Inr 123456), gs_state = (\<lambda>_ _. Inr (Some \<lparr>cu_ip = ''10.0.0.1'', cu_port = 8090, cu_node_id = ''g1''\<rparr>)),
      gs_smtp = (\<lambda>_. sample_peer), gs_base64 = (\<lambda>s. s)\<rparr>"

definition sample_gate_options :: gate_options where
  "sample_gate_options =
     \<lparr>go_max_attempts = 5, go_machine_id = 1, go_mysql_host = ''db'', go_sentinels = [\<lparr>ep_host = ''s1'', ep_port = 26379\<rparr>],
      go_master_name = ''mymaster'', go_redis_password = '''', go_sentinel_password = '''', go_code_ttl_seconds = 180,
      go_cooldown_seconds = 60, go_email_enabled = False, go_expose_code = True, go_smtp_host = ''smtp'', go_implicit_tls = True,
      go_smtp_user = ''imm'', go_smtp_password = ''pw''\<rparr>"

definition sample_world :: gate_world where
  "sample_world =
     \<lparr>gw_users = [], gw_userInfo = [], gw_redis = (\<lambda>_. None), gw_now = 0, gw_tick = 0, gw_faults = [], gw_slots = [],
      gw_entropy = [Random (replicate 40 (CHR ''x''))], gw_sleeps = 0, gw_stopping = False,
      gw_requests = \<lparr>b_count = 128, b_bytes = 16777216\<rparr>, gw_log = []\<rparr>"

lemma live_empty [simp]: "live now (\<lambda>_. None) key = None" "live now Map.empty key = None"
  by (simp_all add: live_def)

lemma sample_redis:
  assumes "\<not> gw_stopping w" "gw_faults w = []"
  shows "gate_redis sample_gate sample_gate_options who command events w =
    (case command (gw_now w) (gw_redis w) of
       (Inr reply, db) \<Rightarrow>
         (Inr reply, w\<lparr>gw_tick := gw_tick w + 5, gw_redis := db, gw_log := gw_log w @ map (Pair who) (events reply)\<rparr>)
     | (Inl e, db) \<Rightarrow> (Inl e, w\<lparr>gw_tick := gw_tick w + 5, gw_redis := db\<rparr>))"
proof -
  have port: "stoul ''6379'' = Inr 6379"
    by (simp add: stoul_def is_space_def is_digit_def digits_value_def)
  show ?thesis using assms port
    by (simp add: gate_redis_def bind_def gate_running_def gate_sentinel_def gate_await_def sentinel_call_def completed_def
        check_reply_def catch_def redis_execute_def gate_fault_def ret_def sample_gate_def sample_gate_options_def
        split: sum.splits prod.splits)
qed

lemma sample_mysql:
  assumes "\<not> gw_stopping w" "gw_faults w = []"
  shows "mysql_query sample_gate sample_gate_options who statement events w =
    (case statement (gw_users w) (gw_userInfo w) of (a, users) \<Rightarrow>
       (Inr a, w\<lparr>gw_tick := gw_tick w + 2, gw_users := users, gw_log := gw_log w @ map (Pair who) (events a)\<rparr>))"
  using assms
  by (simp add: mysql_query_def bind_def gate_running_def gate_await_def mysql_execute_def gate_fault_def sample_gate_def split: prod.splits)

lemma is_digit_digit_char: "is_digit (digit_char k)"
proof -
  have "k mod 10 < 10" by simp
  then have "k mod 10 \<le> 9" by linarith
  then show ?thesis by (simp add: is_digit_def digit_char_def)
qed

lemma nat_digits_digits: "list_all is_digit (nat_digits n)"
  using nat_digits_set is_digit_digit_char by (metis list_all_iff)

lemma nat_digits_length: "n < 10 ^ Suc k \<Longrightarrow> length (nat_digits n) \<le> Suc k"
proof (induction k arbitrary: n)
  case 0
  then show ?case by (simp add: nat_digits_small)
next
  case (Suc k)
  show ?case
  proof (cases "n < 10")
    case False
    have "n div 10 < 10 ^ Suc k" using Suc.prems by (simp add: less_mult_imp_div_less)
    with Suc.IH False show ?thesis by (simp add: nat_digits_large)
  qed (simp add: nat_digits_small)
qed

lemma verification_code_shape:
  assumes "number \<le> 999999"
  shows "length (replicate (6 - length (to_string (int number))) (CHR ''0'') @ to_string (int number)) = 6"
    "list_all is_digit (replicate (6 - length (to_string (int number))) (CHR ''0'') @ to_string (int number))"
proof -
  have "length (to_string (int number)) \<le> 6" using nat_digits_length [of number 5] assms by (simp add: to_string_def)
  then show "length (replicate (6 - length (to_string (int number))) (CHR ''0'') @ to_string (int number)) = 6" by simp
  show "list_all is_digit (replicate (6 - length (to_string (int number))) (CHR ''0'') @ to_string (int number))"
    using nat_digits_digits [of number] by (auto simp: to_string_def list_all_iff is_digit_def)
qed

definition sample_code :: string where
  "sample_code = replicate (6 - length (to_string (int 123456))) (CHR ''0'') @ to_string (int 123456)"

definition sample_account :: account_request where
  "sample_account = \<lparr>aq_username = Some ''ann'', aq_password = Some ''secret'', aq_email = Some ''ann@x.org'', aq_verifycode = Some sample_code\<rparr>"

definition sample_json :: json where
  "sample_json =
     \<lparr>json_verification = (\<lambda>_. Some \<lparr>vq_email = Some ''ann@x.org''\<rparr>), json_sign_in = (\<lambda>_. Some \<lparr>iq_username = Some ''ann'', iq_password = Some ''secret''\<rparr>),
      json_gateway = (\<lambda>_. Some \<lparr>gq_uid = Some 7\<rparr>), json_sign_up = (\<lambda>_. Some sample_account), json_reset_password = (\<lambda>_. Some sample_account),
      json_encode = (\<lambda>_. Inr ''ok'')\<rparr>"

lemma sample_email: "normalize_email ''ann@x.org'' = ''ann@x.org''" "is_valid_email ''ann@x.org''"
proof -
  have "normalized ''ann@x.org''" by (simp add: normalized_def to_lower_def is_space_def)
  then show "normalize_email ''ann@x.org'' = ''ann@x.org''" by (rule normalize_id)
  show "is_valid_email ''ann@x.org''" by (simp add: is_valid_email_def Let_def)
qed

lemma sample_decodes:
  "decode_verification sample_json body = Inr \<lparr>vq_email = Some ''ann@x.org''\<rparr>"
  "decode_sign_up sample_json body = Inr sample_account" "decode_reset_password sample_json body = Inr sample_account"
  "decode_sign_in sample_json body = Inr \<lparr>iq_username = Some ''ann'', iq_password = Some ''secret''\<rparr>"
  using sample_email verification_code_shape [of 123456]
  by (simp_all add: decode_verification_def decode_sign_up_def decode_reset_password_def decode_sign_in_def sample_json_def text_of_def
      validate_verification_def credentials_def sample_account_def sample_code_def Let_def)

lemma sample_fields [simp]:
  "gs_uniform sample_gate n = Inr 123456" "gs_clock sample_gate n = 1672531200001" "gs_ttl sample_gate ms = (ms + 500) div 1000"
  "collate (gs_env sample_gate) s = s" "gs_state sample_gate n uid = Inr (Some \<lparr>cu_ip = ''10.0.0.1'', cu_port = 8090, cu_node_id = ''g1''\<rparr>)"
  "go_max_attempts sample_gate_options = 5" "go_machine_id sample_gate_options = 1" "go_code_ttl_seconds sample_gate_options = 180"
  "go_cooldown_seconds sample_gate_options = 60" "\<not> go_email_enabled sample_gate_options" "go_expose_code sample_gate_options"
  "json_encode sample_json x = Inr ''ok''"
  by (simp_all add: sample_gate_def sample_gate_options_def sample_json_def)

definition sample_issued :: gate_world where
  "sample_issued = snd (gate_dispatch sample_gate sample_gate_options sample_json 1 POST_verifycode '''' sample_world)"

lemma sample_issued_eq:
  "\<not> gw_stopping sample_issued" "gw_faults sample_issued = []" "gw_slots sample_issued = []" "gw_users sample_issued = []"
  "gw_sleeps sample_issued = 0" "gw_now sample_issued = 0" "gw_log sample_issued = [(1, Issued ''ann@x.org'' sample_code)]"
  "live 0 (gw_redis sample_issued) (code_key ''ann@x.org'') = Some \<lparr>re_value = sample_code, re_expires = Some 180000\<rparr>"
  "live 0 (gw_redis sample_issued) (user_id_key t) = None"
  "gw_requests sample_issued = \<lparr>b_count = 128, b_bytes = 16777216\<rparr>" "gw_entropy sample_issued = [Random (replicate 40 (CHR ''x''))]"
  by (simp_all add: sample_issued_def gate_dispatch_def invoke_def with_permit_def admit_def acquire_def sample_world_def catch_def bind_def
      sample_decodes handle_verification_def gate_submit_def verification_code_def execute_issue_def sample_redis answering_def issue_script_def
      ret_def redis_get_def redis_exists_def redis_setex_def redis_del_def gate_await_def Let_def text_of_def integer_reply_def check_reply_def
      encode_def sample_code_def lasts_def release_def user_id_key_def cooldown_key_def code_key_def attempts_key_def verification_prefix_def)

definition sample_registered :: gate_world where
  "sample_registered = snd (gate_dispatch sample_gate sample_gate_options sample_json 2 POST_signUp '''' sample_issued)"

lemma sample_registered_eq:
  "\<not> gw_stopping sample_registered" "gw_faults sample_registered = []" "gw_slots sample_registered = []"
  "gw_users sample_registered = [\<lparr>ac_uid = id_layout 1 1 1, ac_username = ''ann'', ac_password = ''secret'', ac_email = ''ann@x.org'',
     ac_createTime = current_time (gs_env sample_gate)\<rparr>]"
  "gw_log sample_registered = [(1, Issued ''ann@x.org'' sample_code), (2, Consumed ''ann@x.org'' sample_code),
     (2, Registered (id_layout 1 1 1) ''ann'' ''secret'' ''ann@x.org'')]"
  "gw_requests sample_registered = \<lparr>b_count = 128, b_bytes = 16777216\<rparr>" "gw_entropy sample_registered = [Random (replicate 40 (CHR ''x''))]"
  by (simp_all add: sample_registered_def gate_dispatch_def invoke_def with_permit_def admit_def acquire_def sample_issued_eq catch_def bind_def
      sample_decodes handle_sign_up_def gate_submit_def execute_user_exists_def execute_consume_def execute_generate_def execute_register_def
      sample_redis sample_mysql exists_statement_def register_statement_def insert_row_def answering_def consume_script_def
      user_id_turn_def gate_running_def redis_incr_def
      ret_def redis_get_def redis_del_def gate_await_def Let_def text_of_def integer_reply_def check_reply_def
      encode_def sample_account_def release_def)

section \<open>Properties\<close>

text \<open>The worlds that HTTP requests lead to, under every schedule of faults and of other requests.\<close>

inductive gate_reachable :: "gate_services \<Rightarrow> gate_options \<Rightarrow> json \<Rightarrow> gate_world \<Rightarrow> bool" for S options J where
  fresh: "users_ok (gs_env S) (gw_users w) \<Longrightarrow> gw_redis w = (\<lambda>_. None) \<Longrightarrow> gw_log w = [] \<Longrightarrow>
    slots_ok (go_max_attempts options) (gw_slots w) \<Longrightarrow> gate_reachable S options J w"
| request: "gate_reachable S options J w \<Longrightarrow> gate_dispatch S options J who route body w = (r, w') \<Longrightarrow> gate_reachable S options J w'"
| elapsed: "gate_reachable S options J w \<Longrightarrow> gate_reachable S options J (gate_pass n w)"
| stopped: "gate_reachable S options J w \<Longrightarrow> gate_reachable S options J (gate_stop w)"

lemma gate_reachable_ok:
  assumes "configured S options" "gate_reachable S options J w"
  shows "gate_ok (gs_env S) (go_max_attempts options) w"
  using assms(2)
proof (induction rule: gate_reachable.induct)
  case (fresh w)
  then show ?case by (simp add: gate_ok_def codes_ok_def code_ok_def log_ok_def)
next
  case (request w who route body r w')
  from withinD [OF dispatch_sound request(2)] request(3) assms(1) show ?case by (simp add: gate_keeps_def keeps_gate_def)
next
  case (elapsed w n)
  then show ?case using gate_pass_keeps by (simp add: keeps_gate_def)
next
  case (stopped w)
  then show ?case by (simp add: gate_stop_def gate_ok_def)
qed

text \<open>C3: A verification code is used at most once and only after it was issued: whenever Redis accepts a code for
  an address, that very code was issued to the address before and has since been neither accepted
  nor cleared nor replaced, and at most twice the configured number of attempts less two were refused in
  between, whichever requests, faults and delays came between.\<close>

theorem codes_consumed_once:
  assumes "configured S options" "gate_reachable S options J w"
    and "gw_log w = past @ (who, Consumed email vcode) # rest"
  shows "\<exists>before issuer after. past = before @ (issuer, Issued email vcode) # after \<and>
    (\<forall>entry \<in> set after. \<not> closes_code email entry) \<and> int (guesses email after) \<le> 2 * (go_max_attempts options - 1)"
proof -
  obtain n where n: "track email past = Some (vcode, n)" "int n \<le> 2 * (go_max_attempts options - 1)"
    using gate_reachable_ok [OF assms(1,2)] assms(3) unfolding gate_ok_def log_ok_def by blast
  from track_Some [OF n(1)] n(2) show ?thesis by blast
qed

lemma sample_configured: "configured sample_gate sample_gate_options"
proof -
  have "ms - 1000 < 1000 * ((ms + 500) div 1000)" for ms :: int
    using mult_div_mod_eq [of 1000 "ms + 500"] pos_mod_bound [of 1000 "ms + 500"] by linarith
  then show ?thesis by (simp add: configured_def)
qed

lemma sample_gate_reachable: "gate_reachable sample_gate sample_gate_options sample_json sample_registered"
proof -
  have "gate_reachable sample_gate sample_gate_options sample_json sample_world"
    by (rule gate_reachable.fresh) (simp_all add: sample_world_def users_ok_def slots_ok_def)
  then have "gate_reachable sample_gate sample_gate_options sample_json sample_issued"
    unfolding sample_issued_def by (rule gate_reachable.request) (rule prod.collapse [symmetric])
  then show ?thesis
    unfolding sample_registered_def by (rule gate_reachable.request) (rule prod.collapse [symmetric])
qed

theorem codes_consumed_once_witness:
  "gw_log sample_registered = [(1, Issued ''ann@x.org'' sample_code)] @ (2, Consumed ''ann@x.org'' sample_code) #
     [(2, Registered (id_layout 1 1 1) ''ann'' ''secret'' ''ann@x.org'')] \<and>
   (\<exists>before issuer after. [(1, Issued ''ann@x.org'' sample_code)] = before @ (issuer, Issued ''ann@x.org'' sample_code) # after \<and>
      int (guesses ''ann@x.org'' after) \<le> 8)"
  using codes_consumed_once [OF sample_configured sample_gate_reachable, of "[(1, Issued ''ann@x.org'' sample_code)]" 2 "''ann@x.org''" sample_code
      "[(2, Registered (id_layout 1 1 1) ''ann'' ''secret'' ''ann@x.org'')]"] sample_registered_eq(5)
  by simp blast

text \<open>C7: An account is created or its password replaced only on the strength of a verification code: whatever an HTTP
  request asks for, its own effects contain a registration only directly after Redis accepted a code
  for the address that is registered, and a new password only for the account it looked up, directly
  after Redis accepted a code for the address stored with that account.\<close>

theorem account_changes_verified:
  assumes "avoids who w" "gate_dispatch S options J who route body w = (r, w')"
  shows "\<exists>events. own who w' = own who w @ events \<and>
    (\<forall>uid username password email. Registered uid username password email \<in> set events \<longrightarrow> route = POST_signUp \<and>
       (\<exists>vcode. events = [Consumed email vcode, Registered uid username password email])) \<and>
    (\<forall>uid password. Updated uid password \<in> set events \<longrightarrow> route = POST_forget_password \<and>
       (\<exists>row vcode. uid = ac_uid row \<and> events = [Found row, Consumed (ac_email row) vcode, Updated uid password]))"
proof -
  obtain events where events: "own who w' = own who w @ events" "dispatched S options J route body events"
    using doesD [OF dispatch_does assms] by blast
  have "route = POST_signUp \<and> (\<exists>vcode. events = [Consumed email vcode, Registered uid username password email])"
    if "Registered uid username password email \<in> set events" for uid username password email
    using events(2) that
    by (cases route) (auto simp: dispatched_def verification_sent_def signed_in_def signed_up_def password_reset_def Let_def)
  moreover have "route = POST_forget_password \<and> (\<exists>row vcode. uid = ac_uid row \<and> events = [Found row, Consumed (ac_email row) vcode, Updated uid password])"
    if "Updated uid password \<in> set events" for uid password
    using events(2) that
    by (cases route) (auto simp: dispatched_def verification_sent_def signed_in_def signed_up_def password_reset_def Let_def)
  ultimately show ?thesis using events(1) by blast
qed

theorem account_changes_verified_witness:
  "own 2 sample_registered = [Consumed ''ann@x.org'' sample_code, Registered (id_layout 1 1 1) ''ann'' ''secret'' ''ann@x.org''] \<and>
   (\<exists>events. own 2 sample_registered = own 2 sample_issued @ events \<and>
      Registered (id_layout 1 1 1) ''ann'' ''secret'' ''ann@x.org'' \<in> set events \<and>
      (\<exists>vcode. events = [Consumed ''ann@x.org'' vcode, Registered (id_layout 1 1 1) ''ann'' ''secret'' ''ann@x.org'']))"
proof -
  have "avoids 2 sample_issued" by (simp add: avoids_def sample_issued_eq)
  from account_changes_verified [OF this, of sample_gate sample_gate_options sample_json POST_signUp "''''" _ sample_registered]
  obtain events where events: "own 2 sample_registered = own 2 sample_issued @ events"
    "\<forall>uid username password email. Registered uid username password email \<in> set events \<longrightarrow> POST_signUp = POST_signUp \<and>
       (\<exists>vcode. events = [Consumed email vcode, Registered uid username password email])"
    unfolding sample_registered_def by (metis prod.collapse)
  have own: "own 2 sample_registered = [Consumed ''ann@x.org'' sample_code, Registered (id_layout 1 1 1) ''ann'' ''secret'' ''ann@x.org'']"
    "own 2 sample_issued = []"
    by (simp_all add: own_def sample_registered_eq(5) sample_issued_eq(7))
  with events show ?thesis by auto
qed







text \<open>C21: The Gate answers every HTTP request and gives its permit back: provided error bodies can be encoded, each request
  ends with status 200 or 503 and leaves the budget of the shard as it was; while the shard stops, or
  when its budget lacks a request or the bytes of the body, the answer is 503 and nothing else happens, whereas
  the health check is answered with 200 in every state and changes nothing.\<close>

theorem requests_answered:
  assumes "gate_dispatch S options J who route body w = (r, w')" "\<forall>e. \<exists>b. json_encode J (Error_response e) = Inr b"
  shows "gw_requests w' = gw_requests w \<and> (\<exists>result. r = Inr result \<and> (ht_status result = 200 \<or> ht_status result = 503) \<and>
    (route \<noteq> GET_test \<and> (gw_stopping w \<or> b_count (gw_requests w) < 1 \<or> b_bytes (gw_requests w) < int (length body)) \<longrightarrow>
       ht_status result = 503 \<and> w' = w) \<and>
    (route = GET_test \<longrightarrow> ht_status result = 200 \<and> w' = w))"
proof -
  have err: "\<exists>b. error_result J status e v = (Inr \<lparr>ht_status = status, ht_body = b\<rparr>, v)" for status e v
    using assms(2) [rule_format, of "Some (code e)"] by (auto simp: error_result_def encode_def)
      (metis bind_ret ret_def)
  let ?caught = "\<lambda>e. case e of Overloaded \<Rightarrow> error_result J 503 ResourceExhausted | Stopped \<Rightarrow> error_result J 503 DependencyUnavailable
      | _ \<Rightarrow> error_result J 200 DependencyUnavailable"
  have caught: "\<exists>status b. ?caught e v = (Inr \<lparr>ht_status = status, ht_body = b\<rparr>, v) \<and> (status = 200 \<or> status = 503) \<and>
      (e = Overloaded \<or> e = Stopped \<longrightarrow> status = 503) \<and> (e \<noteq> Overloaded \<and> e \<noteq> Stopped \<longrightarrow> status = 200)" for e v
    using err [of 503 ResourceExhausted v] err [of 503 DependencyUnavailable v] err [of 200 DependencyUnavailable v] by (cases e) auto
  obtain r1 w1 where run: "route_handler S options J who route body w = (r1, w1)" by fastforce
  have status: "ht_status result = 200" if "r1 = Inr result" for result
    using run that
    by (cases route) (auto simp: health_def invoke_def with_permit_def error_result_def ret_def split: prod.splits sum.splits)
  have refused: "(r1 = Inl Stopped \<or> r1 = Inl Overloaded) \<and> w1 = w"
    if "route \<noteq> GET_test" "gw_stopping w \<or> b_count (gw_requests w) < 1 \<or> b_bytes (gw_requests w) < int (length body)"
    using run that by (cases route) (auto simp: invoke_def with_permit_def bind_def admit_def acquire_def split: if_splits)
  have health: "w1 = w \<and> r1 \<noteq> Inl Stopped \<and> r1 \<noteq> Inl Overloaded" if "route = GET_test"
    using run that by (auto simp: health_def encode_def bind_def ret_def raise_def split: sum.splits)
  have "\<exists>result. r = Inr result \<and> (ht_status result = 200 \<or> ht_status result = 503) \<and>
      (route \<noteq> GET_test \<and> (gw_stopping w \<or> b_count (gw_requests w) < 1 \<or> b_bytes (gw_requests w) < int (length body)) \<longrightarrow>
         ht_status result = 503 \<and> w' = w) \<and>
      (route = GET_test \<longrightarrow> ht_status result = 200 \<and> w' = w)"
  proof (cases r1)
    case (Inr result)
    with assms(1) run have "r = Inr result" "w' = w1" by (simp_all add: gate_dispatch_def catch_def)
    with status [OF Inr] refused health Inr show ?thesis by auto
  next
    case (Inl e)
    obtain st b where "?caught e w1 = (Inr \<lparr>ht_status = st, ht_body = b\<rparr>, w1)" "st = 200 \<or> st = 503" "e = Overloaded \<or> e = Stopped \<longrightarrow> st = 503"
      "e \<noteq> Overloaded \<and> e \<noteq> Stopped \<longrightarrow> st = 200"
      using caught by blast
    moreover from this assms(1) run Inl have "r = Inr \<lparr>ht_status = st, ht_body = b\<rparr>" "w' = w1" by (auto simp: gate_dispatch_def catch_def)
    ultimately show ?thesis using refused health Inl by auto
  qed
  moreover have "gw_requests w' = gw_requests w" using withinD [OF dispatch_same assms(1)] by (simp add: same_budget_def)
  ultimately show ?thesis by blast
qed

theorem requests_answered_witness:
  "\<exists>result. gate_dispatch sample_gate sample_gate_options sample_json 4 POST_signIn ''{}'' (gate_stop sample_world) =
     (Inr result, gate_stop sample_world) \<and> ht_status result = 503"
proof -
  obtain r w' where run: "gate_dispatch sample_gate sample_gate_options sample_json 4 POST_signIn ''{}'' (gate_stop sample_world) = (r, w')" by fastforce
  from requests_answered [OF run] run show ?thesis by (auto simp: gate_stop_def)
qed



section \<open>The limit of guesses\<close>

text \<open>
  With the rounding of Redis the counter of a code that was first guessed at 600 ms expires 400 ms before the code: four
  guesses before and four after that moment are refused, and the ninth, right one is accepted although the limit is five.
\<close>

definition guess :: "int \<Rightarrow> string \<Rightarrow> redis_db \<Rightarrow> redis_db" where
  "guess now vcode db = snd (consume_script (\<lambda>ms. (ms + 500) div 1000) now ''a@b.c'' vcode 5 db)"

definition four_guesses :: "int \<Rightarrow> redis_db \<Rightarrow> redis_db" where
  "four_guesses now db = guess now ''4'' (guess now ''3'' (guess now ''2'' (guess now ''1'' db)))"

definition issued_db :: redis_db where
  "issued_db = [code_key ''a@b.c'' \<mapsto> \<lparr>re_value = ''123456'', re_expires = Some 180000\<rparr>,
     cooldown_key ''a@b.c'' \<mapsto> \<lparr>re_value = ''1'', re_expires = Some 60000\<rparr>]"

lemma issued_db_issued: "snd (issue_script 0 ''a@b.c'' ''123456'' 180 60 (\<lambda>_. None)) key = issued_db key"
  by (auto simp: issue_script_def script_defs issued_db_def)

lemma guess_first:
  assumes "live now db (code_key ''a@b.c'') = Some e" "re_value e \<noteq> vcode" "re_expires e = Some x" "live now db (attempts_key ''a@b.c'') = None"
    and "s = (x - now + 500) div 1000" "0 \<le> s"
  shows "guess now vcode db = db(attempts_key ''a@b.c'' \<mapsto>
    \<lparr>re_value = to_string 1, re_expires = (if s > 0 then Some (now + 1000 * s) else None)\<rparr>)"
  using assms
  by (auto simp: guess_def consume_script_def script_defs redis_incr_def redis_ttl_def redis_expire_def lasts_def fun_eq_iff)

lemma guess_next:
  assumes "live now db (code_key ''a@b.c'') = Some e" "re_value e \<noteq> vcode" "re_expires e = Some x"
    and "live now db (attempts_key ''a@b.c'') = Some a" "re_value a = to_string k" "1 \<le> k" "k < 4"
  shows "guess now vcode db = db(attempts_key ''a@b.c'' \<mapsto> a\<lparr>re_value := to_string (k + 1)\<rparr>)"
proof -
  have "redis_integer (to_string k) = Some k" using assms by (simp add: redis_integer_to_string)
  with assms show ?thesis
    by (auto simp: guess_def consume_script_def script_defs redis_incr_def redis_ttl_def)
qed

lemma four_guesses_counted:
  assumes "live now db (code_key ''a@b.c'') = Some \<lparr>re_value = ''123456'', re_expires = Some x\<rparr>"
    and "live now db (attempts_key ''a@b.c'') = None" "s = (x - now + 500) div 1000" "0 \<le> s"
  shows "four_guesses now db = db(attempts_key ''a@b.c'' \<mapsto>
    \<lparr>re_value = to_string 4, re_expires = (if s > 0 then Some (now + 1000 * s) else None)\<rparr>)"
proof -
  let ?e = "\<lparr>re_value = ''123456'', re_expires = Some x\<rparr>"
  let ?db = "\<lambda>k. db(attempts_key ''a@b.c'' \<mapsto> \<lparr>re_value = to_string k, re_expires = (if s > 0 then Some (now + 1000 * s) else None)\<rparr>)"
  have code: "live now (?db k) (code_key ''a@b.c'') = Some ?e" for k using assms(1) by simp
  have count: "live now (?db k) (attempts_key ''a@b.c'') =
      Some \<lparr>re_value = to_string k, re_expires = (if s > 0 then Some (now + 1000 * s) else None)\<rparr>" for k by (simp add: lasts_def)
  have one: "guess now ''1'' db = ?db 1" using guess_first [OF assms(1) _ _ assms(2,3,4)] by simp
  have step: "guess now vcode (?db k) = ?db (k + 1)" if "vcode \<noteq> ''123456''" "1 \<le> k" "k < 4" for vcode k
    using guess_next [OF code [of k] _ _ count [of k], where k = k and x = x and vcode = vcode] that by simp
  show ?thesis unfolding four_guesses_def one using step [of "''2''" 1] step [of "''3''" 2] step [of "''4''" 3] by simp
qed

lemma guesses_beyond_limit:
  "fst (consume_script (\<lambda>ms. (ms + 500) div 1000) 179700 ''a@b.c'' ''123456'' 5 (four_guesses 179700 (four_guesses 600 issued_db))) = Inr 1"
proof -
  let ?e = "\<lparr>re_value = ''123456'', re_expires = Some (180000 :: int)\<rparr>"
  have code: "live now issued_db (code_key ''a@b.c'') = Some ?e" "live now issued_db (attempts_key ''a@b.c'') = None" if "now \<le> 180000" for now
    using that by (auto simp: issued_db_def lasts_def)
  have first: "four_guesses 600 issued_db = issued_db(attempts_key ''a@b.c'' \<mapsto> \<lparr>re_value = to_string 4, re_expires = Some 179600\<rparr>)"
    using four_guesses_counted [of 600 issued_db 180000 179] code [of 600] by simp
  have "four_guesses 179700 (four_guesses 600 issued_db) = (four_guesses 600 issued_db)(attempts_key ''a@b.c'' \<mapsto>
      \<lparr>re_value = to_string 4, re_expires = None\<rparr>)"
    using four_guesses_counted [of 179700 "four_guesses 600 issued_db" 180000 0] code [of 179700] by (simp add: first lasts_def)
  then show ?thesis using code [of 179700] by (simp add: first consume_script_def script_defs)
qed

end
