(* ===== verification/Spec2Isabelle.thy ===== *)
theory Spec2Isabelle
  imports Message_Properties File_Service Gate_Properties
begin

text \<open>
  Verification of IMM, an instant-messaging server in C++ on Seastar and gRPC.

  \<^bold>\<open>The program.\<close>  Clients hold a TCP connection to a Gateway shard.  The Gateway forwards their
  requests as command frames over a bidirectional gRPC stream to a Message node, which
  authenticates the session against Redis, runs the handler of the operation against MySQL,
  answers on the originating stream and forwards pushes to the gateways of the recipients'
  sessions.  File contents go through a separate File service.  Before that a client signs up and
  signs in at the Gate over HTTP: the Gate sends verification codes by mail, keeps accounts in
  MySQL and codes and chat tokens in Redis, and asks the State service for a gateway.  Every
  service bounds its work by budgets and operation queues.

  \<^bold>\<open>Foundations.\<close>  \<open>Prelude\<close> has the exceptions, the programs over an explicit state that may throw
  (\<open>bind\<close>, \<open>catch\<close>, \<open>fold_prog\<close>; a co_await that throws is \<open>Inl\<close>), the locale \<open>step_relation\<close> for what a
  program may change, \<^verbatim>\<open>std::to_string\<close>, and tables as lists of rows with the locale
  \<open>keyed_table\<close>.  \<open>Mysql_Session\<close> models \<^verbatim>\<open>common/reactor/mysql_connection.cc\<close> as the code uses it: an
  operation is a script of statements, a schedule of faults lets any statement, COMMIT or
  connection fail (also after the server committed), and the driver drops a connection after an
  exception.  \<open>Error_Codes\<close> and \<open>Schema\<close> are \<^verbatim>\<open>common/include/Const.h\<close>, \<^verbatim>\<open>DbGlobal.h\<close>,
  \<^verbatim>\<open>message_records.hh\<close> and the tables of \<^verbatim>\<open>init_message_mysql_test.sql\<close>.

  \<^bold>\<open>Store.\<close>  \<open>Store_Ops\<close>, \<open>Store_Messages\<close>, \<open>Store_Friends\<close>, \<open>Store_Groups\<close> and \<open>Store_Files\<close> translate
  every operation of \<^verbatim>\<open>message/io/mysql_store.cc\<close>, statement by statement.  \<open>Db_Invariant\<close> states
  what a committed database satisfies, \<open>Message_Log\<close> and \<open>Group_Log\<close> show that each transaction
  keeps it and what it does, \<open>Store_System\<close> lifts this to any sequence of operations under any
  faults (locales \<open>store_backend\<close> and \<open>paged_log\<close>, interpreted on the store), and \<open>Store_Facts\<close> and
  \<open>Store_Properties\<close> draw the consequences: exactly-once sending under retries, complete history
  paging, authorisation of group changes, monotone acknowledgements.

  \<^bold>\<open>Protocols.\<close>  \<open>Tcp_Message\<close> has the packets of \<^verbatim>\<open>tcp_message.proto\<close> and their classification in
  \<^verbatim>\<open>TcpMessageCodec.h\<close>; \<open>Gateway_Frames\<close> the frames of \<^verbatim>\<open>gateway_message.proto\<close> and \<^verbatim>\<open>file.proto\<close> and the
  shard hash of \<^verbatim>\<open>message_route.hh\<close> on 64-bit words.

  \<^bold>\<open>Queues and streams.\<close>  \<open>Io_Queue\<close> models \<^verbatim>\<open>common/include/IoQueue.h\<close> and the budgets: submissions,
  consumers and the condition variable are steps of an inductive relation, and the properties
  hold for every interleaving (bounds, order, at most one completion, no lost wake-up).
  \<open>Message_Transport\<close> models \<^verbatim>\<open>message/transport/server.cc\<close> the same way: streams, registration and
  its replacement, the read, write and done callbacks of gRPC, the write budget.

  \<^bold>\<open>Message service.\<close>  \<open>Message_Driver\<close> is \<^verbatim>\<open>message/io/driver.cc\<close>: Sentinel discovery, the cached Redis
  connection, sessions, ids.  Its world carries a schedule of slots that decides, at each
  submission to the queue, what other requests did to the database before, whether the queue
  admits, and whether the shard began to stop.  \<open>Message_Handlers\<close>, \<open>Social_Handlers\<close> and \<open>File_Handlers\<close>
  are the handlers of \<^verbatim>\<open>message/transaction/\<close>; \<open>Message_Service\<close> is \<^verbatim>\<open>service.cc\<close> with the protocol
  boundary.  The locale \<open>request_relation\<close> proves once, for any relation that allows the calls of
  the driver and of the store, that every handler respects it; it is interpreted for the
  database invariant and for the frames added to the streams.  \<open>Message_Properties\<close> composes
  store, driver and transport.

  \<^bold>\<open>File service.\<close>  \<open>File_Storage\<close> is \<^verbatim>\<open>file/protocol.cc\<close> and \<^verbatim>\<open>file/storage.cc\<close> on a disk whose calls fail or
  write short by schedule: aligned appending, hashing, resumable uploads, paged downloads.
  \<open>File_Service\<close> is \<^verbatim>\<open>file/service.cc\<close>: admission on the receiving shard, hand-over to the shard that owns
  the object, and the lock of the object as a queue of calls; submissions, ends of calls and
  stopping are steps of an inductive relation, and no call is lost.

  \<^bold>\<open>State service.\<close>  \<open>State_Service\<close> is \<^verbatim>\<open>state/options.cc\<close> and \<^verbatim>\<open>state/service.cc\<close>: the directory read from the
  configuration, the cursor over the gateways, and the semaphore and answers of a shard.

  \<^bold>\<open>Gate.\<close>  \<open>Gate_Api\<close> is \<^verbatim>\<open>gate/proto/gate_api.proto\<close>, \<^verbatim>\<open>gate/api/email.cc\<close> and the decoding in \<^verbatim>\<open>gate/api/protocol.cc\<close>.
  \<open>Smtp\<close> is \<^verbatim>\<open>gate/io/smtp_connection.cc\<close>, with what was sent before and after the TLS handshake.
  \<open>Gate_Redis\<close> has the Redis commands on keys that expire and the three Lua scripts; \<open>Gate_Driver\<close> is
  \<^verbatim>\<open>gate/io/driver.cc\<close> with the SQL statements and the State RPC, in a world that schedules faults and the
  operations of other requests, and keeps a history \<open>gw_log\<close> of what the servers carried out for whom;
  \<open>Gate_Service\<close> is \<^verbatim>\<open>gate/transaction/\<close> and the dispatch of \<^verbatim>\<open>gate/api/protocol.cc\<close>.  \<open>Gate_Relation\<close> proves once
  in locales what follows for a request from what its operations may do; \<open>Gate_Codes\<close> interprets them
  for the invariant that ties the Redis keys to the history, and for the budget; \<open>Gate_Effects\<close> gives for each
  handler the exact history of its own effects; \<open>Gate_Properties\<close> draws the consequences: codes are
  used once and after limited guessing, accounts change only with a code for their address, tokens
  need the password, every request is answered.

  \<^bold>\<open>Parameters.\<close>  Code that is not in the repository is a parameter: the collation and string order
  of MySQL, \<^verbatim>\<open>std::hash\<close> and the clock (\<open>env\<close>); DNS, hiredis, the protobuf encoding and the file RPC
  (\<open>services\<close>); SHA-256; for the Gate also ProtoJSON (\<open>json\<close>), base64, the bytes of the mail server
  (\<open>smtp_peer\<close>), the rounding of Redis TTL, and the random numbers (\<open>gate_services\<close>).  Hypotheses about them are written in the properties that use them.

  \<^bold>\<open>Bounds.\<close>  The only loops that may not end, the wait for a free id in \<open>generate_id\<close> and in
  \<open>user_id_loop\<close>, count the sleeps that finish before the shard is aborted, and \<open>random_bytes_from\<close> ends
  with the schedule of answers of \<^verbatim>\<open>getrandom\<close>; the properties hold for every such number and
  schedule.  The client loops of the paging properties take a
  number of pages and the properties show which number is enough.

  \<^bold>\<open>Not modelled.\<close>  The Gateway service, apart from the frames and packets it shares with the Message service,
  and the options of the Gate, whose ranges are the hypothesis \<open>configured\<close>.  The gRPC event engine, the resolver and the descriptor watches
  (\<^verbatim>\<open>common/reactor/\<close>) only connect two libraries; logging, YAML reading, TLS credentials and
  process start-up have no state of their own.  Requests of one shard interleave at the
  granularity of store operations; the transport is changed by other requests only between
  requests.
\<close>

end
